theory Spec2Isabelle
  imports Complex_Main "HOL-Library.Char_ord" "HOL-Library.List_Lexorder" "HOL-Library.Sublist"
    "HOL-Library.AList"
begin

section \<open>The request engine of the CalDAV tester: a shallow embedding\<close>

text \<open>
  The theory follows \<^verbatim>\<open>src/request.py\<close>, \<^verbatim>\<open>src/testsuite.py\<close> and
  \<^verbatim>\<open>verifiers/postFreeBusy.py\<close>. The module \<^verbatim>\<open>request.py\<close> imports
  \<^verbatim>\<open>urllib.parse\<close> and calls \<^verbatim>\<open>base64.encodebytes\<close>, which exist in Python 3 only, so
  the embedding follows Python 3: \<^verbatim>\<open>str\<close> and \<^verbatim>\<open>bytes\<close> are different types. A Python
  \<^verbatim>\<open>str\<close> is represented by the list of the bytes of its UTF-8 encoding; substring
  tests, comparisons of positions and lexicographic order agree with the code-point view.

  Every \<^verbatim>\<open>raise\<close> is a value \<open>Inl e\<close> of a sum type. Mutable objects that outlive a call
  (the manager's digest cache, the class-level nonce-count table, the extra-substitution
  table) are passed in and returned explicitly.
\<close>

datatype exn =
  TypeError | KeyError | AttributeError | LookupError | ValueError | IndexError
  | ImportError | OSError | TransportError | PluginError | SyntaxError

definition bindE :: "exn + 'a \<Rightarrow> ('a \<Rightarrow> exn + 'b) \<Rightarrow> exn + 'b" where
  "bindE m f = (case m of Inl e \<Rightarrow> Inl e | Inr x \<Rightarrow> f x)"

subsection \<open>Feature gate\<close>

text \<open>
  \<^verbatim>\<open>self.manager.server_info.features\<close> is read through two references; the model passes
  the manager as an argument. Only the fields the embedded methods read are kept.
\<close>

record serverinfo =
  features :: "string set"
  authtype :: string
  si_user :: string
  si_pswd :: string

record manager =
  server_info :: serverinfo
  data_dir :: string

record testsuite =
  ts_name :: string
  ts_require_features :: "string set"
  ts_exclude_features :: "string set"

record feature_sets =
  require_features :: "string set"
  exclude_features :: "string set"

text \<open>\<^verbatim>\<open>request.missingFeatures\<close>, \<^verbatim>\<open>request.excludedFeatures\<close> (and the same two methods of
  class \<^verbatim>\<open>verify\<close>, which are written identically).\<close>

definition missingFeatures :: "manager \<Rightarrow> 'a feature_sets_scheme \<Rightarrow> string set" where
  "missingFeatures m self = require_features self - features (server_info m)"

definition excludedFeatures :: "manager \<Rightarrow> 'a feature_sets_scheme \<Rightarrow> string set" where
  "excludedFeatures m self = exclude_features self \<inter> features (server_info m)"

text \<open>\<^verbatim>\<open>testsuite.missingFeatures\<close>, \<^verbatim>\<open>testsuite.excludedFeatures\<close>.\<close>

definition ts_missingFeatures :: "manager \<Rightarrow> testsuite \<Rightarrow> string set" where
  "ts_missingFeatures m self = ts_require_features self - features (server_info m)"

definition ts_excludedFeatures :: "manager \<Rightarrow> testsuite \<Rightarrow> string set" where
  "ts_excludedFeatures m self = ts_exclude_features self \<inter> features (server_info m)"

definition manager_with_features :: "string set \<Rightarrow> manager" where
  "manager_with_features fs =
     \<lparr>server_info = \<lparr>features = fs, authtype = ''basic'', si_user = [], si_pswd = []\<rparr>,
      data_dir = []\<rparr>"

subsection \<open>Python values, objects and the world outside the program\<close>

text \<open>A value that may be \<^verbatim>\<open>None\<close>, a \<^verbatim>\<open>str\<close> or a \<^verbatim>\<open>bytes\<close> object.\<close>

datatype pyval = PNone | PStr string | PBytes string

fun truthy :: "pyval \<Rightarrow> bool" where
  "truthy PNone = False"
| "truthy (PStr s) = (s \<noteq> [])"
| "truthy (PBytes b) = (b \<noteq> [])"

text \<open>
  Mutable containers whose identity matters live in a heap; an address is an index into it.
  A list of strings (one argument's values), a header dictionary (insertion ordered, unique
  keys) and an argument dictionary whose values are references to lists.
\<close>

type_synonym addr = nat

datatype obj =
  ListObj "string list"
  | HeaderDict "(string \<times> pyval) list"
  | ArgDict "(string \<times> addr) list"

text \<open>A cached digest challenge: the parsed parameters and the entry \<^verbatim>\<open>"max-nonce-time"\<close>,
  the only one that holds a number.\<close>

record details =
  params :: "string \<rightharpoonup> string"
  max_nonce_time :: real

text \<open>
  Everything the run mutates and that is shared between calls:
  \<^verbatim>\<open>server_info.extrasubsdict\<close>, \<^verbatim>\<open>manager.digestCache\<close>, the class attribute
  \<^verbatim>\<open>request.nc\<close>, the heap, and how much of each outside source (identifier draws, clock
  readings, probe connections) has been used up. \<^verbatim>\<open>probes\<close> logs every request sent by
  the digest probe as (method, uri).
\<close>

record world =
  extrasubsdict :: "(string \<times> string) list"
  digestCache :: "string \<rightharpoonup> details"
  nc :: "string option \<rightharpoonup> int"
  uuid_drawn :: nat
  time_reads :: nat
  probes :: "(string \<times> string) list"
  heap :: "obj list"

record http_response =
  status :: int
  www_authenticate :: "string list"

text \<open>
  \<^verbatim>\<open>uuid.uuid4()\<close> is modelled by its contract: the identifiers it hands out in one run are
  pairwise different. A source of identifiers is therefore an enumeration without
  repetition; \<open>nth_uuid g i\<close> is the text of the \<open>i\<close>-th identifier of the run.
\<close>

typedef uuid_source = "{f :: nat \<Rightarrow> string. inj f}"
  morphisms nth_uuid Abs_uuid_source
proof
  show "(\<lambda>i. replicate i CHR ''x'') \<in> {f :: nat \<Rightarrow> string. inj f}"
  proof (rule CollectI, rule injI)
    fix i j :: nat
    assume "replicate i CHR ''x'' = replicate j CHR ''x''"
    then have "length (replicate i CHR ''x'') = length (replicate j CHR ''x'')" by simp
    then show "i = j" by simp
  qed
qed

setup_lifting type_definition_uuid_source

text \<open>
  The parts that are not under \<^verbatim>\<open>src/\<close> (the class \<^verbatim>\<open>serverinfo\<close>, the connection class of
  \<^verbatim>\<open>httpshandler\<close>, the plugins) and the Python library are parameters:
  \<^item> \<open>subs\<close>, \<open>subs_db\<close>: \<^verbatim>\<open>server_info.subs(text)\<close> and \<^verbatim>\<open>server_info.subs(text, db)\<close>;
  \<^item> \<open>extrasubs_fn\<close>: \<^verbatim>\<open>server_info.extrasubs(text)\<close> for the given table and a \<^verbatim>\<open>str\<close>;
    \<open>extrasubs_nonstr\<close>: the same call on a value that is not a \<^verbatim>\<open>str\<close>;
  \<^item> \<open>uuid4\<close>: the source of the identifiers that \<^verbatim>\<open>uuid.uuid4()\<close> hands out in the run;
  \<^item> \<open>time i\<close>: the \<open>i\<close>-th reading of \<^verbatim>\<open>time.time()\<close>, a float, given as the real number it
    denotes; \<open>float_add a b\<close>: the float that \<^verbatim>\<open>a + b\<close> yields for two floats, which is the
    exact sum rounded to the nearest float; comparing two floats is comparing the reals;
  \<^item> \<open>http_options i uri\<close>: what the \<open>i\<close>-th probe connection answers to
    \<^verbatim>\<open>OPTIONS uri\<close>, or the transport error;
  \<^item> \<open>quote_path\<close>: \<^verbatim>\<open>urlparse\<close>, \<^verbatim>\<open>quote\<close> of the path, \<^verbatim>\<open>urlunparse\<close>;
  \<^item> \<open>listdir\<close>, \<open>read_file\<close>: \<^verbatim>\<open>os.listdir\<close> and \<^verbatim>\<open>open(path).read()\<close>;
  \<^item> \<open>encodebytes\<close>: \<^verbatim>\<open>base64.encodebytes\<close>; \<open>md5\<close>, \<open>sha1\<close>: the digests of hashlib;
  \<^item> \<open>re_sub\<close>: \<^verbatim>\<open>re.sub(pattern, repl, text)\<close>; \<open>today\<close>: year, month, day of
    \<^verbatim>\<open>datetime.date.today()\<close>;
  \<^item> \<open>import_verifier\<close>, \<open>import_generator\<close>: the plugin class a callback name is
    imported as, if any; a plugin works on the world and on the address of the argument
    dictionary it is handed.
\<close>

record env =
  subs :: "string \<Rightarrow> string"
  subs_db :: "(string \<times> string) list \<Rightarrow> string \<Rightarrow> string"
  extrasubs_fn :: "(string \<times> string) list \<Rightarrow> string \<Rightarrow> string"
  extrasubs_nonstr :: "(string \<times> string) list \<Rightarrow> pyval \<Rightarrow> exn + pyval"
  uuid4 :: uuid_source
  time :: "nat \<Rightarrow> real"
  float_add :: "real \<Rightarrow> real \<Rightarrow> real"
  http_options :: "nat \<Rightarrow> string \<Rightarrow> exn + http_response"
  quote_path :: "string \<Rightarrow> string"
  listdir :: "string \<Rightarrow> exn + string list"
  read_file :: "string \<Rightarrow> exn + string"
  encodebytes :: "string \<Rightarrow> string"
  md5 :: "string \<Rightarrow> string"
  sha1 :: "string \<Rightarrow> string"
  re_sub :: "string \<Rightarrow> string \<Rightarrow> string \<Rightarrow> string"
  today :: "int \<times> int \<times> int"
  import_verifier ::
    "string \<Rightarrow> (world \<Rightarrow> string \<Rightarrow> http_response \<Rightarrow> string \<Rightarrow> addr
       \<Rightarrow> (exn + bool \<times> string) \<times> world) option"
  import_generator :: "string \<Rightarrow> (world \<Rightarrow> addr \<Rightarrow> (exn + string) \<times> world) option"

subsection \<open>Classes \<^verbatim>\<open>generator\<close>, \<^verbatim>\<open>verify\<close>, \<^verbatim>\<open>data\<close> and \<^verbatim>\<open>request\<close>\<close>

text \<open>Attributes that may be absent (\<^verbatim>\<open>hasattr\<close>/\<^verbatim>\<open>delattr\<close>) or \<^verbatim>\<open>None\<close> are options.
  \<^verbatim>\<open>data.value\<close> is the field \<open>data_value\<close>.\<close>

record generator =
  gen_callback :: "string option"
  gen_args :: addr

record verify = feature_sets +
  callback :: "string option"
  args :: addr

record data =
  content_type :: string
  filepath :: string
  generator :: "generator option"
  data_value :: string
  substitutions :: "(string \<times> string) list"
  substitute :: bool
  generate :: bool
  nextpath :: "string option"

record request = feature_sets +
  auth :: bool
  user :: string
  pswd :: string
  "method" :: string
  headers :: addr
  ruri :: string
  data :: "data option"
  count :: int
  dataList :: "string list option"

subsection \<open>Directory iteration: \<^verbatim>\<open>getFilePath\<close>, \<^verbatim>\<open>getNextData\<close>, \<^verbatim>\<open>hasNextData\<close>\<close>

text \<open>\<^verbatim>\<open>os.path.join(a, b)\<close> of \<^verbatim>\<open>posixpath\<close>, for two arguments.\<close>

definition path_join :: "string \<Rightarrow> string \<Rightarrow> string" where
  "path_join a b =
     (if prefix ''/'' b then b
      else if a = [] \<or> suffix ''/'' a then a @ b
      else a @ ''/'' @ b)"

definition getFilePath :: "manager \<Rightarrow> request \<Rightarrow> string" where
  "getFilePath m self =
     (case data self of
        Some d \<Rightarrow> (if data_dir m \<noteq> [] then path_join (data_dir m) (filepath d) else filepath d)
      | None \<Rightarrow> [])"

text \<open>\<^verbatim>\<open>sorted([path for path in os.listdir(self.getFilePath()) if not path.startswith(".")])\<close>\<close>

definition visible_sorted :: "env \<Rightarrow> manager \<Rightarrow> request \<Rightarrow> exn + string list" where
  "visible_sorted E m self =
     bindE (listdir E (getFilePath m self))
       (\<lambda>entries. Inr (sort (filter (\<lambda>path. \<not> prefix ''.'' path) entries)))"

text \<open>
  \<^verbatim>\<open>getNextData\<close> returns its result and the request as it has left it. The right-hand side
  of the assignment to \<^verbatim>\<open>self.data.nextpath\<close> (with the \<^verbatim>\<open>pop(0)\<close>) is evaluated before the
  attribute is set, which fails on \<^verbatim>\<open>self.data = None\<close>.
\<close>

definition getNextData :: "env \<Rightarrow> manager \<Rightarrow> request \<Rightarrow> (exn + bool) \<times> request" where
  "getNextData E m self =
     (case (case dataList self of None \<Rightarrow> visible_sorted E m self | Some dl \<Rightarrow> Inr dl) of
        Inl e \<Rightarrow> (Inl e, self)
      | Inr [] \<Rightarrow>
          (Inr False,
           self\<lparr>data := map_option (\<lambda>d. d\<lparr>nextpath := None\<rparr>) (data self), dataList := None\<rparr>)
      | Inr (x # rest) \<Rightarrow>
          (case data self of
             None \<Rightarrow> (Inl AttributeError, self\<lparr>dataList := Some rest\<rparr>)
           | Some d \<Rightarrow>
               (Inr True,
                self\<lparr>data := Some (d\<lparr>nextpath := Some (path_join (getFilePath m self) x)\<rparr>),
                     dataList := Some rest\<rparr>)))"

text \<open>\<^verbatim>\<open>hasNextData\<close> assigns nothing, so it returns a result only.\<close>

definition hasNextData :: "env \<Rightarrow> manager \<Rightarrow> request \<Rightarrow> exn + bool" where
  "hasNextData E m self = bindE (visible_sorted E m self) (\<lambda>dl. Inr (length dl \<noteq> 0))"

text \<open>The results of \<open>n\<close> successive calls of \<^verbatim>\<open>getNextData\<close>, each with the request it
  leaves behind; this is how a caller repeating a request drives the cursor.\<close>

fun advance_calls :: "env \<Rightarrow> manager \<Rightarrow> nat \<Rightarrow> request \<Rightarrow> ((exn + bool) \<times> request) list" where
  "advance_calls E m 0 self = []"
| "advance_calls E m (Suc n) self =
     (case getNextData E m self of (r, self') \<Rightarrow> (r, self') # advance_calls E m n self')"

definition yielded_path :: "(exn + bool) \<times> request \<Rightarrow> string option" where
  "yielded_path c = (case data (snd c) of None \<Rightarrow> None | Some d \<Rightarrow> nextpath d)"

text \<open>Objects as their constructors leave them, for concrete runs. The identifiers of the
  example source are \<^verbatim>\<open>uuid-\<close>, \<^verbatim>\<open>uuid-x\<close>, \<^verbatim>\<open>uuid-xx\<close> and so on; the clock readings used in
  the examples are small multiples of one half, whose sums are floats again, so that the
  float sum of the example environment is the exact sum.\<close>

lift_definition counting_uuids :: uuid_source is "\<lambda>i. ''uuid-'' @ replicate i CHR ''x''"
proof (rule injI)
  fix i j :: nat
  assume "''uuid-'' @ replicate i CHR ''x'' = ''uuid-'' @ replicate j CHR ''x''"
  then have "length (replicate i CHR ''x'') = length (replicate j CHR ''x'')" by simp
  then show "i = j" by simp
qed

definition data_init :: data where
  "data_init =
     \<lparr>content_type = [], filepath = [], generator = None, data_value = [],
      substitutions = [], substitute = False, generate = False, nextpath = None\<rparr>"

definition request_init :: request where
  "request_init =
     \<lparr>require_features = {}, exclude_features = {}, auth = True, user = [], pswd = [],
      method = [], headers = 0, ruri = [], data = None, count = 1, dataList = None\<rparr>"

definition world_init :: world where
  "world_init =
     \<lparr>extrasubsdict = [], digestCache = Map.empty, nc = Map.empty, uuid_drawn = 0,
      time_reads = 0, probes = [], heap = [HeaderDict []]\<rparr>"

definition env_init :: env where
  "env_init =
     \<lparr>subs = (\<lambda>s. s), subs_db = (\<lambda>db s. s), extrasubs_fn = (\<lambda>tbl s. s),
      extrasubs_nonstr = (\<lambda>tbl v. Inl TypeError),
      uuid4 = counting_uuids, time = (\<lambda>i. 0), float_add = (\<lambda>a b. a + b),
      http_options = (\<lambda>i uri. Inl TransportError), quote_path = (\<lambda>s. s),
      listdir = (\<lambda>p. Inl OSError), read_file = (\<lambda>p. Inl OSError),
      encodebytes = (\<lambda>s. s), md5 = (\<lambda>s. s), sha1 = (\<lambda>s. s),
      re_sub = (\<lambda>pat repl s. s), today = (2000, 1, 1),
      import_verifier = (\<lambda>n. None), import_generator = (\<lambda>n. None)\<rparr>"


text \<open>A fixture directory holding \<^verbatim>\<open>b.ics\<close>, \<^verbatim>\<open>.hidden\<close> and \<^verbatim>\<open>a.ics\<close>, and a request
  whose body names it.\<close>

definition fixture_env :: env where
  "fixture_env =
     env_init\<lparr>listdir :=
       (\<lambda>p. if p = ''fixtures'' then Inr [''b.ics'', ''.hidden'', ''a.ics''] else Inl OSError)\<rparr>"

definition fixture_request :: request where
  "fixture_request = request_init\<lparr>data := Some (data_init\<lparr>filepath := ''fixtures''\<rparr>)\<rparr>"

subsection \<open>String operations of Python used by the request\<close>

text \<open>\<^verbatim>\<open>pat in s\<close> is \<^const>\<open>sublist\<close>. \<^verbatim>\<open>s.find(pat)\<close> is the lowest index at which \<open>pat\<close>
  starts, or \<open>-1\<close>.\<close>

fun py_find :: "string \<Rightarrow> string \<Rightarrow> int" where
  "py_find pat [] = (if pat = [] then 0 else - 1)"
| "py_find pat (c # s) =
     (if prefix pat (c # s) then 0
      else (let r = py_find pat s in if r < 0 then - 1 else r + 1))"

text \<open>\<^verbatim>\<open>s.replace(old, new)\<close>: the occurrences of \<open>old\<close> are found from the left and do not
  overlap; for an empty \<open>old\<close>, \<open>new\<close> is put before every character and at the end.\<close>

function py_replace :: "string \<Rightarrow> string \<Rightarrow> string \<Rightarrow> string" where
  "py_replace old new s =
     (if old = [] then new @ concat (map (\<lambda>c. c # new) s)
      else if prefix old s then new @ py_replace old new (drop (length old) s)
      else (case s of [] \<Rightarrow> [] | c # t \<Rightarrow> c # py_replace old new t))"
  by pat_completeness auto
termination
  by (relation "measure (\<lambda>(old, new, s). length s)") (auto simp: prefix_def)

declare py_replace.simps [simp del]

text \<open>\<^verbatim>\<open>str(n)\<close> for an integer: decimal digits, with a minus sign below zero.\<close>

function dec_nat :: "nat \<Rightarrow> string" where
  "dec_nat n = (if n < 10 then [''0123456789'' ! n] else dec_nat (n div 10) @ [''0123456789'' ! (n mod 10)])"
  by pat_completeness auto
termination
  by (relation "measure id") auto

declare dec_nat.simps [simp del]

definition str_int :: "int \<Rightarrow> string" where
  "str_int i = (if i < 0 then CHR ''-'' # dec_nat (nat (- i)) else dec_nat (nat i))"

subsection \<open>\<^verbatim>\<open>request.getURI\<close>\<close>

text \<open>
  \<^verbatim>\<open>si\<close> is the manager's \<^verbatim>\<open>server_info\<close>, whose extra-substitution table is in the world.
  \<^verbatim>\<open>uuid.uuid4()\<close> is evaluated only in the branch that replaces \<^verbatim>\<open>**\<close>.
\<close>

definition getURI :: "env \<Rightarrow> request \<Rightarrow> world \<Rightarrow> string \<times> world" where
  "getURI E self w =
     (let uri = extrasubs_fn E (extrasubsdict w) (ruri self) in
      if sublist ''**'' uri then
        (if \<not> sublist ''?'' uri \<or> py_find ''?'' uri > py_find ''**'' uri
         then (py_replace ''**'' (nth_uuid (uuid4 E) (uuid_drawn w)) uri, w\<lparr>uuid_drawn := Suc (uuid_drawn w)\<rparr>)
         else (uri, w))
      else if sublist ''##'' uri then
        (if \<not> sublist ''?'' uri \<or> py_find ''?'' uri > py_find ''##'' uri
         then (py_replace ''##'' (str_int (count self)) uri, w)
         else (uri, w))
      else (uri, w))"


subsection \<open>The extra-substitution table\<close>

text \<open>
  Modelled from the spec: \<^verbatim>\<open>serverinfo.addextrasubs\<close> and \<^verbatim>\<open>serverinfo.hasextrasubs\<close> are not
  under \<^verbatim>\<open>src/\<close>. The specification has \<^verbatim>\<open>capture(name, value)\<close> insert or overwrite an
  entry of the extra-substitution table, and \<^verbatim>\<open>hasExtras()\<close> report whether any capture has
  occurred.
\<close>

definition addextrasubs :: "(string \<times> string) list \<Rightarrow> world \<Rightarrow> world" where
  "addextrasubs items w =
     w\<lparr>extrasubsdict := fold (\<lambda>(k, v) tbl. AList.update k v tbl) items (extrasubsdict w)\<rparr>"

definition hasextrasubs :: "world \<Rightarrow> bool" where
  "hasextrasubs w = (extrasubsdict w \<noteq> [])"

subsection \<open>Argument dictionaries on the heap\<close>

definition alloc :: "obj \<Rightarrow> world \<Rightarrow> addr \<times> world" where
  "alloc ob w = (length (heap w), w\<lparr>heap := heap w @ [ob]\<rparr>)"

text \<open>Reading through a reference. The objects that \<^verbatim>\<open>parseArgXML\<close> builds are a dictionary
  of lists; a reference to anything else fails as the attribute access would.\<close>

definition get_list :: "world \<Rightarrow> addr \<Rightarrow> exn + string list" where
  "get_list w a =
     (if a < length (heap w)
      then (case heap w ! a of ListObj vs \<Rightarrow> Inr vs | _ \<Rightarrow> Inl TypeError)
      else Inl TypeError)"

definition get_argdict :: "world \<Rightarrow> addr \<Rightarrow> exn + (string \<times> addr) list" where
  "get_argdict w a =
     (if a < length (heap w)
      then (case heap w ! a of ArgDict kvs \<Rightarrow> Inr kvs | _ \<Rightarrow> Inl AttributeError)
      else Inl AttributeError)"

text \<open>\<^verbatim>\<open>self.args[name] = newvalues\<close>: the dictionary object is changed in place.\<close>

definition set_arg :: "addr \<Rightarrow> string \<Rightarrow> addr \<Rightarrow> world \<Rightarrow> exn + world" where
  "set_arg a name na w =
     bindE (get_argdict w a)
       (\<lambda>kvs. Inr (w\<lparr>heap := (heap w)[a := ArgDict (AList.update name na kvs)]\<rparr>))"

text \<open>
  The loop \<^verbatim>\<open>for name, values in self.args.items()\<close> that stores a new list of
  re-substituted values under every name. It returns the exception that stopped it, if any,
  and the world as the loop has left it.
\<close>

fun reresolve :: "env \<Rightarrow> addr \<Rightarrow> (string \<times> addr) list \<Rightarrow> world \<Rightarrow> exn option \<times> world" where
  "reresolve E a [] w = (None, w)"
| "reresolve E a ((name, va) # rest) w =
     (case get_list w va of
        Inl e \<Rightarrow> (Some e, w)
      | Inr vs \<Rightarrow>
          (case alloc (ListObj (map (extrasubs_fn E (extrasubsdict w)) vs)) w of
             (na, w1) \<Rightarrow>
               (case set_arg a name na w1 of
                  Inl e \<Rightarrow> (Some e, w1)
                | Inr w2 \<Rightarrow> reresolve E a rest w2)))"

text \<open>\<^verbatim>\<open>dict((k, list(v)) for k, v in self.args.items())\<close>: a new list for every value, then
  a new dictionary.\<close>

fun clone_items :: "(string \<times> addr) list \<Rightarrow> world \<Rightarrow> (exn + (string \<times> addr) list) \<times> world" where
  "clone_items [] w = (Inr [], w)"
| "clone_items ((k, va) # rest) w =
     (case get_list w va of
        Inl e \<Rightarrow> (Inl e, w)
      | Inr vs \<Rightarrow>
          (case alloc (ListObj vs) w of
             (na, w1) \<Rightarrow>
               (case clone_items rest w1 of
                  (Inl e, w2) \<Rightarrow> (Inl e, w2)
                | (Inr kvs, w2) \<Rightarrow> (Inr ((k, na) # kvs), w2))))"

definition clone_args :: "addr \<Rightarrow> world \<Rightarrow> (exn + addr) \<times> world" where
  "clone_args a w =
     (case get_argdict w a of
        Inl e \<Rightarrow> (Inl e, w)
      | Inr items \<Rightarrow>
          (case clone_items items w of
             (Inl e, w1) \<Rightarrow> (Inl e, w1)
           | (Inr kvs, w1) \<Rightarrow> (case alloc (ArgDict kvs) w1 of (da, w2) \<Rightarrow> (Inr da, w2))))"

text \<open>The first statement of \<^verbatim>\<open>doGenerate\<close> and of \<^verbatim>\<open>doVerify\<close>.\<close>

definition redo_substitutions :: "env \<Rightarrow> addr \<Rightarrow> world \<Rightarrow> exn option \<times> world" where
  "redo_substitutions E a w =
     (if hasextrasubs w
      then (case get_argdict w a of
              Inl e \<Rightarrow> (Some e, w)
            | Inr items \<Rightarrow> reresolve E a items w)
      else (None, w))"

subsection \<open>\<^verbatim>\<open>generator.doGenerate\<close> and \<^verbatim>\<open>verify.doVerify\<close>\<close>

text \<open>A callback that was never set is \<^verbatim>\<open>None\<close>, which \<^verbatim>\<open>__import__\<close> and the
  concatenation \<^verbatim>\<open>"verifiers." + self.callback\<close> reject with a TypeError.\<close>

definition doGenerate :: "env \<Rightarrow> generator \<Rightarrow> world \<Rightarrow> (exn + string) \<times> world" where
  "doGenerate E self w =
     (case redo_substitutions E (gen_args self) w of
        (Some e, w1) \<Rightarrow> (Inl e, w1)
      | (None, w1) \<Rightarrow>
          (case gen_callback self of
             None \<Rightarrow> (Inl TypeError, w1)
           | Some cb \<Rightarrow>
               (case import_generator E cb of
                  None \<Rightarrow> (Inl ImportError, w1)
                | Some gen \<Rightarrow>
                    (case clone_args (gen_args self) w1 of
                       (Inl e, w2) \<Rightarrow> (Inl e, w2)
                     | (Inr a, w2) \<Rightarrow> gen w2 a))))"

definition doVerify ::
  "env \<Rightarrow> 'a verify_scheme \<Rightarrow> string \<Rightarrow> http_response \<Rightarrow> string \<Rightarrow> world
     \<Rightarrow> (exn + bool \<times> string) \<times> world" where
  "doVerify E self uri response respdata w =
     (case redo_substitutions E (args self) w of
        (Some e, w1) \<Rightarrow> (Inl e, w1)
      | (None, w1) \<Rightarrow>
          (case callback self of
             None \<Rightarrow> (Inl TypeError, w1)
           | Some cb \<Rightarrow>
               (case import_verifier E (''verifiers.'' @ cb) of
                  None \<Rightarrow> (Inl ImportError, w1)
                | Some verifier \<Rightarrow>
                    (case clone_args (args self) w1 of
                       (Inl e, w2) \<Rightarrow> (Inl e, w2)
                     | (Inr a, w2) \<Rightarrow> verifier w2 uri response respdata a))))"

subsection \<open>\<^verbatim>\<open>request.generateCalendarData\<close> and \<^verbatim>\<open>request.getData\<close>\<close>

text \<open>\<^verbatim>\<open>"%0Nd" % n\<close>: decimal, padded with zeros to \<open>N\<close> characters, the sign included.\<close>

definition zero_pad :: "nat \<Rightarrow> string \<Rightarrow> string" where
  "zero_pad n s = replicate (n - length s) CHR ''0'' @ s"

definition fmt_0d :: "nat \<Rightarrow> int \<Rightarrow> string" where
  "fmt_0d n i =
     (if i < 0 then CHR ''-'' # zero_pad (n - 1) (dec_nat (nat (- i)))
      else zero_pad n (dec_nat (nat i)))"

definition generateCalendarData :: "env \<Rightarrow> request \<Rightarrow> string \<Rightarrow> world \<Rightarrow> string \<times> world" where
  "generateCalendarData E self dat w =
     (let dat1 = re_sub E ''UID:.*'' (''UID:'' @ nth_uuid (uuid4 E) (uuid_drawn w)) dat;
          w1 = w\<lparr>uuid_drawn := Suc (uuid_drawn w)\<rparr>;
          dat2 = re_sub E ''SUMMARY:(.*)''
                   (''SUMMARY:'' @ [CHR 0x5C] @ ''1 #'' @ str_int (count self)) dat1;
          stamp = (case today E of (y, mo, dy) \<Rightarrow>
                     [CHR 0x5C] @ ''1:'' @ fmt_0d 4 y @ fmt_0d 2 mo @ fmt_0d 2 dy);
          dat3 = re_sub E ''(DTSTART;[^:]*):[0-9]{8,8}'' stamp dat2;
          dat4 = re_sub E ''(DTEND;[^:]*):[0-9]{8,8}'' stamp dat3
      in (dat4, w1))"

text \<open>
  The text that the substitutions start from (the first \<^verbatim>\<open>if\<close>/\<^verbatim>\<open>elif\<close> of \<^verbatim>\<open>getData\<close>):
  the literal value, or the file at the pinned next path or else at \<^verbatim>\<open>getFilePath()\<close>, the
  file being read only when \<^verbatim>\<open>data.filepath\<close> is not empty.
\<close>

definition raw_text :: "env \<Rightarrow> manager \<Rightarrow> request \<Rightarrow> data \<Rightarrow> exn + string" where
  "raw_text E m self d =
     (if length (data_value d) \<noteq> 0 then Inr (data_value d)
      else if filepath d \<noteq> []
      then read_file E (case nextpath d of Some p \<Rightarrow> p | None \<Rightarrow> getFilePath m self)
      else Inr [])"

definition getData :: "env \<Rightarrow> manager \<Rightarrow> request \<Rightarrow> world \<Rightarrow> (exn + string) \<times> world" where
  "getData E m self w =
     (case data self of
        None \<Rightarrow> (Inr [], w)
      | Some d \<Rightarrow>
          (case raw_text E m self d of
             Inl e \<Rightarrow> (Inl e, w)
           | Inr raw \<Rightarrow>
               (let dat1 = subs E raw;
                    w1 = addextrasubs [(''$request_count:'', str_int (count self))] w;
                    dat2 = extrasubs_fn E (extrasubsdict w1) dat1;
                    dat3 = (if substitutions d \<noteq> [] then subs_db E (substitutions d) dat2
                            else dat2)
                in if generate d
                   then (if prefix ''text/calendar'' (content_type d)
                         then (case generateCalendarData E self dat3 w1 of
                                 (dat4, w2) \<Rightarrow> (Inr dat4, w2))
                         else (Inr dat3, w1))
                   else (case generator d of
                           Some g \<Rightarrow> doGenerate E g w1
                         | None \<Rightarrow> (Inr dat3, w1)))))"

text \<open>
  Where the raw text comes from, as the specification words it: the literal value when it
  is not empty, otherwise the pinned next path when one is set, otherwise the body's own
  file path.
\<close>

definition raw_text_as_specified :: "env \<Rightarrow> manager \<Rightarrow> request \<Rightarrow> data \<Rightarrow> exn + string" where
  "raw_text_as_specified E m self d =
     (if data_value d \<noteq> [] then Inr (data_value d)
      else (case nextpath d of
              Some p \<Rightarrow> read_file E p
            | None \<Rightarrow> read_file E (getFilePath m self)))"

text \<open>An environment with one fixture file and substitutions that leave a visible mark, and
  a manager with a data directory.\<close>

definition body_env :: env where
  "body_env =
     env_init\<lparr>subs := (\<lambda>s. s @ ''[static]''),
              subs_db := (\<lambda>db s. s @ ''[private]''),
              extrasubs_fn :=
                (\<lambda>tbl s. s @ ''[extra '' @ (case map_of tbl ''$request_count:'' of
                                             Some c \<Rightarrow> c | None \<Rightarrow> ''-'') @ '']''),
              read_file := (\<lambda>p. if p = ''/d/a.ics'' then Inr ''BODY'' else Inl OSError)\<rparr>"

definition body_manager :: manager where
  "body_manager = (manager_with_features {})\<lparr>data_dir := ''/d''\<rparr>"

text \<open>A body whose file path is set, with a next path pinned by the cursor and a private
  substitution table.\<close>

definition body_pinned :: data where
  "body_pinned = data_init\<lparr>filepath := ''x'', nextpath := Some ''/d/a.ics'',
                           substitutions := [(''a'', ''b'')]\<rparr>"

subsection \<open>What an argument dictionary holds, and what a plugin can reach\<close>

text \<open>The contents behind a reference to an argument dictionary: every name with the values
  of the list it refers to.\<close>

fun deep_items :: "world \<Rightarrow> (string \<times> addr) list \<Rightarrow> exn + (string \<times> string list) list" where
  "deep_items w [] = Inr []"
| "deep_items w ((k, va) # rest) =
     bindE (get_list w va) (\<lambda>vs. bindE (deep_items w rest) (\<lambda>xs. Inr ((k, vs) # xs)))"

definition deep_args :: "world \<Rightarrow> addr \<Rightarrow> exn + (string \<times> string list) list" where
  "deep_args w a = bindE (get_argdict w a) (deep_items w)"

text \<open>The objects a plugin holds when it is handed the reference \<open>a\<close>: the dictionary and
  the lists in it.\<close>

definition reach :: "world \<Rightarrow> addr \<Rightarrow> addr set" where
  "reach w a =
     insert a (case get_argdict w a of Inr kvs \<Rightarrow> set (map snd kvs) | Inl e \<Rightarrow> {})"

text \<open>A plugin writes only into the arguments it received: every other object that
  existed when it was called is still there, unchanged, when it returns.\<close>

definition keeps_others :: "world \<Rightarrow> addr \<Rightarrow> world \<Rightarrow> bool" where
  "keeps_others w a w' =
     (\<forall>i < length (heap w). i \<notin> reach w a \<longrightarrow> i < length (heap w') \<and> heap w' ! i = heap w ! i)"

definition resubstituted ::
  "env \<Rightarrow> world \<Rightarrow> (string \<times> string list) list \<Rightarrow> (string \<times> string list) list" where
  "resubstituted E w v =
     (if hasextrasubs w
      then map (\<lambda>(k, vs). (k, map (extrasubs_fn E (extrasubsdict w)) vs)) v
      else v)"

text \<open>
  A verifier and a generator that change what they are handed: each empties the first list
  of its argument dictionary and then the dictionary itself (as \<^verbatim>\<open>users.remove(...)\<close> of the
  free-busy verifier shortens a list). A stored argument \<^verbatim>\<open>attendee\<close> holding one value
  with a variable, and one captured variable.
\<close>

definition clear_received :: "world \<Rightarrow> addr \<Rightarrow> world" where
  "clear_received w a =
     (case get_argdict w a of
        Inr ((k, va) # rest) \<Rightarrow> w\<lparr>heap := (heap w)[va := ListObj [], a := ArgDict []]\<rparr>
      | _ \<Rightarrow> w)"

definition plugin_env :: env where
  "plugin_env =
     env_init\<lparr>extrasubs_fn := (\<lambda>tbl s. case map_of tbl s of Some v \<Rightarrow> v | None \<Rightarrow> s),
              import_verifier :=
                (\<lambda>n. if n = ''verifiers.clear''
                     then Some (\<lambda>w uri response respdata a. (Inr (True, []), clear_received w a))
                     else None),
              import_generator :=
                (\<lambda>n. if n = ''clear'' then Some (\<lambda>w a. (Inr [], clear_received w a)) else None)\<rparr>"

definition plugin_world :: world where
  "plugin_world =
     world_init\<lparr>extrasubsdict := [(''$loc:'', ''/cal/1'')],
                heap := [HeaderDict [], ArgDict [(''attendee'', 2)], ListObj [''$loc:'']]\<rparr>"

definition clear_verify :: verify where
  "clear_verify =
     \<lparr>require_features = {}, exclude_features = {}, callback = Some ''clear'', args = 1\<rparr>"

definition clear_generator :: generator where
  "clear_generator = \<lparr>gen_callback = Some ''clear'', gen_args = 1\<rparr>"

definition ok_response :: http_response where
  "ok_response = \<lparr>status = 200, www_authenticate = []\<rparr>"

subsection \<open>Digest computation: \<^verbatim>\<open>calcHA1\<close> and \<^verbatim>\<open>calcResponse\<close>\<close>

text \<open>
  The dictionary \<^verbatim>\<open>algorithms\<close>; a missing key raises KeyError. A hash object of hashlib is
  its algorithm and the bytes fed to it so far. In Python 3, \<^verbatim>\<open>update\<close> takes bytes-like
  objects only and raises TypeError for a \<^verbatim>\<open>str\<close> or for \<^verbatim>\<open>None\<close>; \<^verbatim>\<open>digest()\<close> returns bytes.
\<close>

datatype hash_alg = MD5 | SHA1

definition algorithms :: "string \<Rightarrow> hash_alg option" where
  "algorithms name =
     (if name = ''md5'' then Some MD5
      else if name = ''md5-sess'' then Some MD5
      else if name = ''sha'' then Some SHA1
      else None)"

record hashobj =
  h_alg :: hash_alg
  h_buf :: string

definition h_new :: "string \<Rightarrow> exn + hashobj" where
  "h_new name =
     (case algorithms name of None \<Rightarrow> Inl KeyError | Some a \<Rightarrow> Inr \<lparr>h_alg = a, h_buf = []\<rparr>)"

definition h_update :: "hashobj \<Rightarrow> pyval \<Rightarrow> exn + hashobj" where
  "h_update m v =
     (case v of PBytes b \<Rightarrow> Inr (m\<lparr>h_buf := h_buf m @ b\<rparr>) | _ \<Rightarrow> Inl TypeError)"

text \<open>A run of \<^verbatim>\<open>m.update(...)\<close> statements, stopped by the first that raises.\<close>

fun h_updates :: "hashobj \<Rightarrow> pyval list \<Rightarrow> exn + hashobj" where
  "h_updates m [] = Inr m"
| "h_updates m (v # vs) = bindE (h_update m v) (\<lambda>m'. h_updates m' vs)"

definition h_digest :: "env \<Rightarrow> hashobj \<Rightarrow> pyval" where
  "h_digest E m = PBytes (case h_alg m of MD5 \<Rightarrow> md5 E (h_buf m) | SHA1 \<Rightarrow> sha1 E (h_buf m))"

text \<open>
  \<^verbatim>\<open>x.encode('hex')\<close> and \<^verbatim>\<open>x.decode('hex')\<close> in Python 3: bytes have no \<^verbatim>\<open>encode\<close>, a
  \<^verbatim>\<open>str\<close> has no \<^verbatim>\<open>decode\<close>, and \<^verbatim>\<open>'hex'\<close> is not a text encoding for the two methods that
  exist. Only the empty bytes object is decoded, to the empty \<^verbatim>\<open>str\<close>, before the codec is
  looked up.
\<close>

definition py_encode_hex :: "pyval \<Rightarrow> exn + pyval" where
  "py_encode_hex v = (case v of PStr s \<Rightarrow> Inl LookupError | _ \<Rightarrow> Inl AttributeError)"

definition py_decode_hex :: "pyval \<Rightarrow> exn + pyval" where
  "py_decode_hex v =
     (case v of
        PBytes b \<Rightarrow> (if b = [] then Inr (PStr []) else Inl LookupError)
      | _ \<Rightarrow> Inl AttributeError)"

definition calcHA1 ::
  "env \<Rightarrow> string \<Rightarrow> pyval \<Rightarrow> pyval \<Rightarrow> pyval \<Rightarrow> pyval \<Rightarrow> pyval \<Rightarrow> pyval \<Rightarrow> exn + pyval" where
  "calcHA1 E pszAlg pszUserName pszRealm pszPassword pszNonce pszCNonce preHA1 =
     (if truthy preHA1 \<and> (truthy pszUserName \<or> truthy pszRealm \<or> truthy pszPassword)
      then Inl TypeError
      else
        bindE (if preHA1 = PNone
               then bindE (h_new pszAlg) (\<lambda>m.
                    bindE (h_updates m [pszUserName, PStr '':'', pszRealm, PStr '':'', pszPassword])
                      (\<lambda>m. Inr (h_digest E m)))
               else py_decode_hex preHA1)
          (\<lambda>HA1.
            bindE (if pszAlg = ''md5-sess''
                   then bindE (h_new pszAlg) (\<lambda>m.
                        bindE (h_updates m [HA1, PStr '':'', pszNonce, PStr '':'', pszCNonce])
                          (\<lambda>m. Inr (h_digest E m)))
                   else Inr HA1)
              py_encode_hex))"

definition calcResponse ::
  "env \<Rightarrow> pyval \<Rightarrow> string \<Rightarrow> pyval \<Rightarrow> pyval \<Rightarrow> pyval \<Rightarrow> pyval \<Rightarrow> pyval \<Rightarrow> pyval \<Rightarrow> pyval
     \<Rightarrow> exn + pyval" where
  "calcResponse E HA1 algo pszNonce pszNonceCount pszCNonce pszQop pszMethod pszDigestUri pszHEntity =
     bindE (h_new algo) (\<lambda>m.
     bindE (h_updates m
              ([pszMethod, PStr '':'', pszDigestUri]
               @ (if pszQop = PStr ''auth-int'' then [PStr '':'', pszHEntity] else [])))
       (\<lambda>m.
     bindE (py_encode_hex (h_digest E m)) (\<lambda>HA2.
     bindE (h_new algo) (\<lambda>m.
     bindE (h_updates m
              ([HA1, PStr '':'', pszNonce, PStr '':'']
               @ (if truthy pszNonceCount \<and> truthy pszCNonce \<and> truthy pszQop
                  then [pszNonceCount, PStr '':'', pszCNonce, PStr '':'', pszQop, PStr '':'']
                  else [])
               @ [HA2]))
       (\<lambda>m. py_encode_hex (h_digest E m))))))"

subsection \<open>Parsing a \<^verbatim>\<open>WWW-Authenticate\<close> challenge\<close>

text \<open>
  The string methods used on the challenge: \<^verbatim>\<open>lower()\<close> (on the letters of ASCII; the code
  only tests whether its result starts with the ASCII text \<^verbatim>\<open>digest\<close> and a space),
  \<^verbatim>\<open>split(',')\<close>, \<^verbatim>\<open>split('=', 1)\<close>, \<^verbatim>\<open>strip()\<close> and the local function \<^verbatim>\<open>unq\<close>, whose
  \<^verbatim>\<open>s[0]\<close> raises IndexError on an empty string. A \<^verbatim>\<open>str\<close> is given by its UTF-8 encoding.
\<close>

definition py_lower :: "string \<Rightarrow> string" where
  "py_lower s =
     map (\<lambda>c. case map_of (zip ''ABCDEFGHIJKLMNOPQRSTUVWXYZ'' ''abcdefghijklmnopqrstuvwxyz'') c of
                Some l \<Rightarrow> l
              | None \<Rightarrow> c) s"

fun split_on :: "char \<Rightarrow> string \<Rightarrow> string list" where
  "split_on sep [] = [[]]"
| "split_on sep (c # s) =
     (if c = sep then [] # split_on sep s
      else (case split_on sep s of [] \<Rightarrow> [[c]] | h # t \<Rightarrow> (c # h) # t))"

definition split_once :: "char \<Rightarrow> string \<Rightarrow> string list" where
  "split_once sep s =
     (if sep \<in> set s then [takeWhile (\<lambda>c. c \<noteq> sep) s, tl (dropWhile (\<lambda>c. c \<noteq> sep) s)]
      else [s])"

text \<open>
  The characters that \<^verbatim>\<open>strip()\<close> removes from a \<^verbatim>\<open>str\<close>, each in UTF-8: U+0009 to U+000D,
  U+001C to U+0020, U+0085, U+00A0, U+1680, U+2000 to U+200A, U+2028, U+2029, U+202F, U+205F
  and U+3000.
\<close>

definition white_space :: "string list" where
  "white_space =
    [[CHR 0x09], [CHR 0x0A], [CHR 0x0B], [CHR 0x0C], [CHR 0x0D], [CHR 0x1C], [CHR 0x1D],
     [CHR 0x1E], [CHR 0x1F], [CHR 0x20], [CHR 0xC2, CHR 0x85], [CHR 0xC2, CHR 0xA0],
     [CHR 0xE1, CHR 0x9A, CHR 0x80], [CHR 0xE2, CHR 0x80, CHR 0x80],
     [CHR 0xE2, CHR 0x80, CHR 0x81], [CHR 0xE2, CHR 0x80, CHR 0x82],
     [CHR 0xE2, CHR 0x80, CHR 0x83], [CHR 0xE2, CHR 0x80, CHR 0x84],
     [CHR 0xE2, CHR 0x80, CHR 0x85], [CHR 0xE2, CHR 0x80, CHR 0x86],
     [CHR 0xE2, CHR 0x80, CHR 0x87], [CHR 0xE2, CHR 0x80, CHR 0x88],
     [CHR 0xE2, CHR 0x80, CHR 0x89], [CHR 0xE2, CHR 0x80, CHR 0x8A],
     [CHR 0xE2, CHR 0x80, CHR 0xA8], [CHR 0xE2, CHR 0x80, CHR 0xA9],
     [CHR 0xE2, CHR 0x80, CHR 0xAF], [CHR 0xE2, CHR 0x81, CHR 0x9F],
     [CHR 0xE3, CHR 0x80, CHR 0x80]]"

text \<open>\<open>strip_left ps s\<close> takes from the front of \<open>s\<close> whatever is in \<open>ps\<close> until nothing of \<open>ps\<close>
  is in front.\<close>

function strip_left :: "string list \<Rightarrow> string \<Rightarrow> string" where
  "strip_left ps s =
     (case find (\<lambda>p. p \<noteq> [] \<and> prefix p s) ps of
        None \<Rightarrow> s
      | Some p \<Rightarrow> strip_left ps (drop (length p) s))"
  by pat_completeness auto
termination
proof (relation "measure (\<lambda>(ps, s). length s)")
  show "wf (measure (\<lambda>(ps, s). length s))" by simp
next
  fix ps :: "string list" and s p :: string
  assume "find (\<lambda>p. p \<noteq> [] \<and> prefix p s) ps = Some p"
  then have "p \<noteq> [] \<and> prefix p s" by (auto simp: find_Some_iff)
  then have "length (drop (length p) s) < length s" by (cases p) (auto simp: prefix_def)
  then show "((ps, drop (length p) s), (ps, s)) \<in> measure (\<lambda>(ps, s). length s)" by simp
qed

declare strip_left.simps [simp del]

definition py_strip :: "string \<Rightarrow> string" where
  "py_strip s = rev (strip_left (map rev white_space) (rev (strip_left white_space s)))"

definition unq :: "string \<Rightarrow> exn + string" where
  "unq s =
     (if s = [] then Inl IndexError
      else if hd s = CHR 0x22 \<and> last s = CHR 0x22 then Inr (butlast (tl s))
      else Inr s)"

text \<open>The loop \<^verbatim>\<open>for (k, v) in [p.split('=', 1) for p in parts]\<close>; unpacking a part without
  an equals sign raises ValueError.\<close>

fun fill_details :: "string list list \<Rightarrow> (string \<rightharpoonup> string) \<Rightarrow> exn + (string \<rightharpoonup> string)" where
  "fill_details [] ds = Inr ds"
| "fill_details (kv # rest) ds =
     (case kv of
        [k, v] \<Rightarrow> bindE (unq (py_strip v)) (\<lambda>v'. fill_details rest (ds(py_strip k \<mapsto> v')))
      | _ \<Rightarrow> Inl ValueError)"

definition parse_challenge :: "string \<Rightarrow> exn + (string \<rightharpoonup> string)" where
  "parse_challenge wwwauthorize =
     fill_details (map (split_once CHR ''='') (split_on CHR '','' wwwauthorize)) Map.empty"

subsection \<open>\<^verbatim>\<open>request.gethttpdigestauth\<close>\<close>

definition effective_user :: "request \<Rightarrow> serverinfo \<Rightarrow> string" where
  "effective_user self si = (if user self = [] then si_user si else user self)"

definition effective_pswd :: "request \<Rightarrow> serverinfo \<Rightarrow> string" where
  "effective_pswd self si = (if pswd self = [] then si_pswd si else pswd self)"

text \<open>
  The \<^verbatim>\<open>for item in wwwauthorize\<close> loop: the first item that starts with \<^verbatim>\<open>digest\<close> and a
  space is parsed, stamped with the float sum of the clock and 600, and cached under the
  user. The key \<^verbatim>\<open>max-nonce-time\<close> holds the number from then on, whatever the challenge
  said.
\<close>

fun harvest :: "env \<Rightarrow> string \<Rightarrow> string list \<Rightarrow> world \<Rightarrow> (exn + details option) \<times> world" where
  "harvest E u [] w = (Inr None, w)"
| "harvest E u (item # items) w =
     (if \<not> prefix ''digest '' (py_lower item) then harvest E u items w
      else (case parse_challenge (drop 7 item) of
              Inl e \<Rightarrow> (Inl e, w)
            | Inr ps \<Rightarrow>
                (let d = \<lparr>params = ps(''max-nonce-time'' := None),
                          max_nonce_time = float_add E (time E (time_reads w)) 600\<rparr>
                 in (Inr (Some d),
                     w\<lparr>digestCache := (digestCache w)(u \<mapsto> d),
                       time_reads := Suc (time_reads w)\<rparr>))))"

text \<open>The \<^verbatim>\<open>else\<close> branch: the unauthenticated \<^verbatim>\<open>OPTIONS\<close> request, logged in \<open>probes\<close> when
  it is sent, and the harvest of a 401 answer.\<close>

definition probe_challenge ::
  "env \<Rightarrow> request \<Rightarrow> string \<Rightarrow> world \<Rightarrow> (exn + details option) \<times> world" where
  "probe_challenge E self u w =
     (case getURI E self w of
        (uri, w1) \<Rightarrow>
          (let quri = quote_path E uri;
               w2 = w1\<lparr>probes := probes w1 @ [(''OPTIONS'', quri)]\<rparr>
           in case http_options E (length (probes w1)) quri of
                Inl e \<Rightarrow> (Inl e, w2)
              | Inr response \<Rightarrow>
                  (if status response = 401 then harvest E u (www_authenticate response) w2
                   else (Inr None, w2))))"

text \<open>
  The first part of \<^verbatim>\<open>gethttpdigestauth\<close>, up to \<^verbatim>\<open>if details:\<close>. The clock is read by the
  test only when the user is in the cache (\<^verbatim>\<open>and\<close> evaluates its right side only then).
\<close>

definition obtain_details ::
  "env \<Rightarrow> request \<Rightarrow> serverinfo \<Rightarrow> world \<Rightarrow> (exn + details option) \<times> world" where
  "obtain_details E self si w =
     (let u = effective_user self si in
      case digestCache w u of
        None \<Rightarrow> probe_challenge E self u w
      | Some d \<Rightarrow>
          (let now = time E (time_reads w);
               w0 = w\<lparr>time_reads := Suc (time_reads w)\<rparr>
           in if max_nonce_time d > now then (Inr (Some d), w0)
              else probe_challenge E self u w0))"

text \<open>\<^verbatim>\<open>"%08x" % n\<close>: lower-case hexadecimal, padded with zeros to eight characters.\<close>

function hex_nat :: "nat \<Rightarrow> string" where
  "hex_nat n =
     (if n < 16 then [''0123456789abcdef'' ! n]
      else hex_nat (n div 16) @ [''0123456789abcdef'' ! (n mod 16)])"
  by pat_completeness auto
termination
  by (relation "measure id") auto

declare hex_nat.simps [simp del]

definition fmt_08x :: "int \<Rightarrow> string" where
  "fmt_08x i =
     (if i < 0 then CHR ''-'' # zero_pad 7 (hex_nat (nat (- i)))
      else zero_pad 8 (hex_nat (nat i)))"

text \<open>The value a string of hexadecimal digits denotes.\<close>

definition hex_digit_val :: "char \<Rightarrow> nat" where
  "hex_digit_val c =
     (if CHR ''0'' \<le> c \<and> c \<le> CHR ''9'' then of_char c - 48
      else if CHR ''a'' \<le> c \<and> c \<le> CHR ''f'' then of_char c - 87
      else 0)"

definition hex_val :: "string \<Rightarrow> nat" where
  "hex_val s = foldl (\<lambda>a c. 16 * a + hex_digit_val c) 0 s"

text \<open>
  The block under \<^verbatim>\<open>if details.get('qop'):\<close>. \<^verbatim>\<open>self.nc\<close> is the class attribute
  \<^verbatim>\<open>request.nc\<close>, one table for all requests; its key is \<^verbatim>\<open>details.get('nonce')\<close>, which may
  be \<^verbatim>\<open>None\<close>.
\<close>

definition count_nonce :: "details \<Rightarrow> world \<Rightarrow> details \<times> world" where
  "count_nonce d w =
     (let k = params d ''nonce'';
          n = (case nc w k of None \<Rightarrow> 1 | Some c \<Rightarrow> c + 1);
          ps = (params d)(''nc'' \<mapsto> fmt_08x n);
          ps' = (if ps ''cnonce'' = None
                 then ps(''cnonce'' \<mapsto> ''D4AAE4FF-ADA1-4149-BFE2-B506F9264318'') else ps)
      in (d\<lparr>params := ps'\<rparr>, w\<lparr>nc := (nc w)(k \<mapsto> n)\<rparr>))"

definition opt_pyval :: "string option \<Rightarrow> pyval" where
  "opt_pyval x = (case x of None \<Rightarrow> PNone | Some s \<Rightarrow> PStr s)"

text \<open>\<^verbatim>\<open>"%s" % v\<close>; for bytes the \<^verbatim>\<open>repr\<close>, written here without escapes.\<close>

definition fmt_s :: "pyval \<Rightarrow> string" where
  "fmt_s v = (case v of PNone \<Rightarrow> ''None'' | PStr s \<Rightarrow> s | PBytes b \<Rightarrow> ''b'' @ [CHR 0x27] @ b @ [CHR 0x27])"

definition digest_header ::
  "bool \<Rightarrow> string \<Rightarrow> details \<Rightarrow> string \<Rightarrow> pyval \<Rightarrow> string" where
  "digest_header with_qop u d uri digest =
     (let get = (\<lambda>k. fmt_s (opt_pyval (params d k)));
          q = [CHR 0x22]
      in if with_qop
         then ''Digest username='' @ q @ u @ q @ '', realm='' @ q @ get ''realm'' @ q
              @ '', nonce='' @ q @ get ''nonce'' @ q @ '', uri='' @ q @ uri @ q
              @ '', response='' @ fmt_s digest
              @ '', algorithm='' @ (case params d ''algorithm'' of None \<Rightarrow> ''md5'' | Some a \<Rightarrow> a)
              @ '', cnonce='' @ q @ get ''cnonce'' @ q @ '', qop='' @ get ''qop''
              @ '', nc='' @ get ''nc''
         else ''Digest username='' @ q @ u @ q @ '', realm='' @ q @ get ''realm'' @ q
              @ '', nonce='' @ q @ get ''nonce'' @ q @ '', uri='' @ q @ uri @ q
              @ '', response='' @ fmt_s digest @ '', algorithm='' @ get ''algorithm'')"

text \<open>
  The second part, under \<^verbatim>\<open>if details:\<close>, in two steps. \<^verbatim>\<open>details\<close> is the dictionary that
  the cache holds for the user, so what the first step writes into it is written into the
  cache. In the second step the arguments of \<^verbatim>\<open>calcResponse\<close> are evaluated from the left:
  \<^verbatim>\<open>calcHA1\<close> first, \<^verbatim>\<open>self.getURI(si)\<close> later.
\<close>

definition count_and_store :: "request \<Rightarrow> serverinfo \<Rightarrow> details \<Rightarrow> world \<Rightarrow> details \<times> world" where
  "count_and_store self si d0 w0 =
     (case (if truthy (opt_pyval (params d0 ''qop'')) then count_nonce d0 w0 else (d0, w0)) of
        (d, w1) \<Rightarrow> (d, w1\<lparr>digestCache := (digestCache w1)(effective_user self si \<mapsto> d)\<rparr>))"

definition respond ::
  "env \<Rightarrow> request \<Rightarrow> serverinfo \<Rightarrow> details \<Rightarrow> world \<Rightarrow> (exn + string) \<times> world" where
  "respond E self si d w =
     (let u = effective_user self si;
          p = effective_pswd self si;
          get = (\<lambda>k. opt_pyval (params d k));
          alg = (case params d ''algorithm'' of None \<Rightarrow> ''md5'' | Some a \<Rightarrow> a)
      in case calcHA1 E alg (PStr u) (get ''realm'') (PStr p) (get ''nonce'')
                (get ''cnonce'') PNone of
           Inl e \<Rightarrow> (Inl e, w)
         | Inr ha1 \<Rightarrow>
             (case getURI E self w of
                (uri1, w2) \<Rightarrow>
                  (case calcResponse E ha1 alg (get ''nonce'') (get ''nc'') (get ''cnonce'')
                          (get ''qop'') (PStr (method self)) (PStr uri1) PNone of
                     Inl e \<Rightarrow> (Inl e, w2)
                   | Inr digest \<Rightarrow>
                       (case getURI E self w2 of
                          (uri2, w3) \<Rightarrow>
                            (Inr (digest_header (truthy (get ''qop'')) u d uri2 digest), w3)))))"

definition authorize ::
  "env \<Rightarrow> request \<Rightarrow> serverinfo \<Rightarrow> details \<Rightarrow> world \<Rightarrow> (exn + string) \<times> world" where
  "authorize E self si d0 w0 =
     (case count_and_store self si d0 w0 of (d, w) \<Rightarrow> respond E self si d w)"

definition gethttpdigestauth ::
  "env \<Rightarrow> request \<Rightarrow> serverinfo \<Rightarrow> world \<Rightarrow> (exn + string) \<times> world" where
  "gethttpdigestauth E self si w =
     (case obtain_details E self si w of
        (Inl e, w1) \<Rightarrow> (Inl e, w1)
      | (Inr None, w1) \<Rightarrow> (Inr [], w1)
      | (Inr (Some d), w1) \<Rightarrow> authorize E self si d w1)"

text \<open>A cached challenge with \<^verbatim>\<open>qop\<close>, as a first use leaves it, and requests of different
  users.\<close>

definition auth_details :: details where
  "auth_details =
     \<lparr>params = [''realm'' \<mapsto> ''cal'', ''nonce'' \<mapsto> ''n1'', ''qop'' \<mapsto> ''auth'',
                ''nc'' \<mapsto> ''00000001'',
                ''cnonce'' \<mapsto> ''D4AAE4FF-ADA1-4149-BFE2-B506F9264318''],
      max_nonce_time = 600\<rparr>"

definition basic_si :: serverinfo where
  "basic_si = \<lparr>features = {}, authtype = ''digest'', si_user = ''admin'', si_pswd = ''secret''\<rparr>"

definition alice_request :: request where
  "alice_request = request_init\<lparr>user := ''alice'', pswd := ''pass'', method := ''GET'', ruri := ''/cal/''\<rparr>"

text \<open>A request without a user of its own, which goes by the user of the server
  information.\<close>

definition admin_request :: request where
  "admin_request = request_init\<lparr>method := ''GET'', ruri := ''/cal/''\<rparr>"

text \<open>A world whose cache holds a challenge for alice captured at clock reading 0 and used
  once, a clock that reads \<open>t\<close>, and a server that answers the probe with a Basic and a Digest challenge,
  the latter \<^verbatim>\<open>Digest realm="cal", nonce="n2", qop="auth"\<close>.\<close>

definition digest_challenge :: string where
  "digest_challenge =
     ''Digest realm='' @ [CHR 0x22] @ ''cal'' @ [CHR 0x22]
     @ '', nonce='' @ [CHR 0x22] @ ''n2'' @ [CHR 0x22]
     @ '', qop='' @ [CHR 0x22] @ ''auth'' @ [CHR 0x22]"

definition cached_world :: world where
  "cached_world =
     world_init\<lparr>digestCache := [''alice'' \<mapsto> auth_details], nc := [Some ''n1'' \<mapsto> 1]\<rparr>"

definition env_at :: "real \<Rightarrow> env" where
  "env_at t =
     env_init\<lparr>time := (\<lambda>i. t),
              http_options :=
                (\<lambda>i uri. Inr \<lparr>status = 401,
                               www_authenticate = [''Basic realm=x'', digest_challenge]\<rparr>)\<rparr>"

subsection \<open>\<^verbatim>\<open>request.gethttpbasicauth\<close> and \<^verbatim>\<open>request.getHeaders\<close>\<close>

text \<open>The result is a \<^verbatim>\<open>bytes\<close> object; the UTF-8 encoding of a \<^verbatim>\<open>str\<close> is its representation
  here.\<close>

definition gethttpbasicauth :: "env \<Rightarrow> request \<Rightarrow> serverinfo \<Rightarrow> pyval" where
  "gethttpbasicauth E self si =
     PBytes (py_replace [CHR 0x0A] []
               (''Basic '' @ encodebytes E (effective_user self si @ '':'' @ effective_pswd self si)))"

definition get_headerdict :: "world \<Rightarrow> addr \<Rightarrow> exn + (string \<times> pyval) list" where
  "get_headerdict w a =
     (if a < length (heap w)
      then (case heap w ! a of HeaderDict kvs \<Rightarrow> Inr kvs | _ \<Rightarrow> Inl AttributeError)
      else Inl AttributeError)"

definition put_headers :: "addr \<Rightarrow> (string \<times> pyval) list \<Rightarrow> world \<Rightarrow> world" where
  "put_headers a kvs w = w\<lparr>heap := (heap w)[a := HeaderDict kvs]\<rparr>"

text \<open>The items of the header dictionary behind a reference (none if there is no such
  dictionary).\<close>

definition stored_headers :: "world \<Rightarrow> addr \<Rightarrow> (string \<times> pyval) list" where
  "stored_headers w a = (case get_headerdict w a of Inr kvs \<Rightarrow> kvs | Inl e \<Rightarrow> [])"

text \<open>\<^verbatim>\<open>si.extrasubs(value)\<close> on a header value, which is a \<^verbatim>\<open>str\<close> as parsed but \<^verbatim>\<open>bytes\<close>
  once the Basic authorization has been stored.\<close>

definition hdr_extrasubs :: "env \<Rightarrow> (string \<times> string) list \<Rightarrow> pyval \<Rightarrow> exn + pyval" where
  "hdr_extrasubs E tbl v =
     (case v of PStr s \<Rightarrow> Inr (PStr (extrasubs_fn E tbl s)) | _ \<Rightarrow> extrasubs_nonstr E tbl v)"

text \<open>The loop \<^verbatim>\<open>for key, value in hdrs.items(): hdrs[key] = si.extrasubs(value)\<close>: the
  exception that stopped it, if any, and the items as the loop has left them.\<close>

fun subst_headers ::
  "(pyval \<Rightarrow> exn + pyval) \<Rightarrow> (string \<times> pyval) list \<Rightarrow> exn option \<times> (string \<times> pyval) list" where
  "subst_headers f [] = (None, [])"
| "subst_headers f ((k, v) # rest) =
     (case f v of
        Inl e \<Rightarrow> (Some e, (k, v) # rest)
      | Inr v' \<Rightarrow> (case subst_headers f rest of (r, rest') \<Rightarrow> (r, (k, v') # rest')))"

text \<open>
  \<^verbatim>\<open>hdrs\<close> is the dictionary that \<^verbatim>\<open>self.headers\<close> refers to; every assignment changes that
  object, and the reference is what is returned.
\<close>

definition getHeaders :: "env \<Rightarrow> request \<Rightarrow> serverinfo \<Rightarrow> world \<Rightarrow> (exn + addr) \<times> world" where
  "getHeaders E self si w =
     (let hdrs = headers self in
      case get_headerdict w hdrs of
        Inl e \<Rightarrow> (Inl e, w)
      | Inr kvs \<Rightarrow>
          (case subst_headers (hdr_extrasubs E (extrasubsdict w)) kvs of
             (Some e, kvs1) \<Rightarrow> (Inl e, put_headers hdrs kvs1 w)
           | (None, kvs1) \<Rightarrow>
               (let kvs2 = (case data self of
                              Some d \<Rightarrow> AList.update ''Content-Type'' (PStr (content_type d)) kvs1
                            | None \<Rightarrow> kvs1);
                    w2 = put_headers hdrs kvs2 w
                in if auth self
                   then (if py_lower (authtype si) = ''basic''
                         then (Inr hdrs,
                               put_headers hdrs
                                 (AList.update ''Authorization'' (gethttpbasicauth E self si) kvs2) w2)
                         else if py_lower (authtype si) = ''digest''
                         then (case gethttpdigestauth E self si w2 of
                                 (Inl e, w3) \<Rightarrow> (Inl e, w3)
                               | (Inr h, w3) \<Rightarrow>
                                   (Inr hdrs,
                                    put_headers hdrs (AList.update ''Authorization'' (PStr h) kvs2) w3))
                         else (Inr hdrs, w2))
                   else (Inr hdrs, w2))))"

text \<open>A request with one header holding a variable and a calendar body, a world that has
  captured the variable, and substitutions that mark every pass.\<close>

definition header_world :: world where
  "header_world =
     world_init\<lparr>extrasubsdict := [(''$d:'', ''1'')],
                heap := [HeaderDict [(''Depth'', PStr ''$d:'')]]\<rparr>"

definition header_env :: env where
  "header_env =
     env_init\<lparr>extrasubs_fn := (\<lambda>tbl s. (case map_of tbl s of Some v \<Rightarrow> v | None \<Rightarrow> s) @ ''+''),
              extrasubs_nonstr := (\<lambda>tbl v. Inr v)\<rparr>"

definition header_request :: request where
  "header_request =
     request_init\<lparr>data := Some (data_init\<lparr>content_type := ''text/calendar''\<rparr>)\<rparr>"

definition basic_auth_si :: serverinfo where
  "basic_auth_si = \<lparr>features = {}, authtype = ''Basic'', si_user = ''admin'', si_pswd = ''secret''\<rparr>"

text \<open>The world after the first and after the second call of \<^verbatim>\<open>getHeaders\<close> in
  \<open>header_world\<close>.\<close>

definition header_world1 :: world where
  "header_world1 = header_world\<lparr>heap := [HeaderDict [(''Depth'', PStr ''1+''),
           (''Content-Type'', PStr ''text/calendar''),
           (''Authorization'', PBytes ''Basic admin:secret'')]]\<rparr>"

definition header_world2 :: world where
  "header_world2 = header_world\<lparr>heap := [HeaderDict [(''Depth'', PStr ''1++''),
           (''Content-Type'', PStr ''text/calendar''),
           (''Authorization'', PBytes ''Basic admin:secret'')]]\<rparr>"

subsection \<open>The free-busy verifier: \<^verbatim>\<open>verifiers/postFreeBusy.py\<close>\<close>

text \<open>
  A parsed calendar as far as the verifier looks at it: its \<^verbatim>\<open>VFREEBUSY\<close> components and the
  number of its \<^verbatim>\<open>VEVENT\<close> components. Of a \<^verbatim>\<open>VFREEBUSY\<close>: the values of its \<^verbatim>\<open>ATTENDEE\<close>
  properties, and for every \<^verbatim>\<open>FREEBUSY\<close> property its \<^verbatim>\<open>FBTYPE\<close> parameter, if it has
  one, with the texts of its periods in start/end form.
\<close>

record fb_component =
  attendees :: "string list"
  freebusy :: "(string option \<times> string list) list"

record calendar =
  vfreebusy :: "fb_component list"
  vevent_count :: nat

text \<open>
  The libraries are parameters. \<open>parse_xml\<close> stands for \<^verbatim>\<open>ElementTree(file=StringIO(...))\<close>
  followed by \<^verbatim>\<open>findall\<close> of the \<^verbatim>\<open>calendar-data\<close> elements: an \<^verbatim>\<open>ExpatError\<close>, any other
  exception (the \<^verbatim>\<open>ParseError\<close> by which ElementTree rejects text that is not XML is a
  SyntaxError and no \<^verbatim>\<open>ExpatError\<close>), or the texts of the elements found. \<open>parseText\<close> stands for
  \<^verbatim>\<open>Calendar.parseText\<close>: the three kinds of exception that the verifier tells apart,
  \<^verbatim>\<open>None\<close>, or a calendar. \<open>eval_int\<close> stands for \<^verbatim>\<open>int(eval(...))\<close>.
\<close>

datatype xml_result = XmlExpatError | XmlOtherError exn | XmlTree "string option list"

datatype parse_result =
  ParseInvalidData | ParseValueError string | ParseException string | ParseNone
  | ParseCalendar calendar

record fb_lib =
  parse_xml :: "string \<Rightarrow> xml_result"
  parseText :: "string option \<Rightarrow> parse_result"
  eval_int :: "string \<Rightarrow> exn + int"

text \<open>What one pass of the loop over the \<^verbatim>\<open>calendar-data\<close> elements ends with: \<^verbatim>\<open>continue\<close>,
  \<^verbatim>\<open>break\<close>, or a \<^verbatim>\<open>return False, message\<close>; with it, the list \<^verbatim>\<open>users\<close> as the pass has
  left it.\<close>

datatype pass_end = Continue | Break | Return string

definition invalid_msg :: "string \<Rightarrow> string" where
  "invalid_msg txt = ''        HTTP response data is invalid: '' @ txt"

text \<open>The loop \<^verbatim>\<open>for fp in fb.getProperties("FREEBUSY")\<close>: the periods sorted by type, or
  the unknown type that raises ValueError.\<close>

fun sort_periods ::
  "(string option \<times> string list) list \<Rightarrow> string list \<times> string list \<times> string list
     \<Rightarrow> string + string list \<times> string list \<times> string list" where
  "sort_periods [] acc = Inr acc"
| "sort_periods ((param, periods) # rest) (busyp, tentativep, unavailablep) =
     (let fbtype = (case param of None \<Rightarrow> ''BUSY'' | Some t \<Rightarrow> t)
      in if fbtype = ''BUSY'' then sort_periods rest (busyp @ periods, tentativep, unavailablep)
         else if fbtype = ''BUSY-TENTATIVE''
         then sort_periods rest (busyp, tentativep @ periods, unavailablep)
         else if fbtype = ''BUSY-UNAVAILABLE''
         then sort_periods rest (busyp, tentativep, unavailablep @ periods)
         else Inl fbtype)"

text \<open>The body of the \<^verbatim>\<open>try\<close> after an attendee of the component has been found in \<^verbatim>\<open>users\<close>
  and removed.\<close>

definition check_periods ::
  "calendar \<Rightarrow> fb_component \<Rightarrow> string list \<Rightarrow> string list \<Rightarrow> string list \<Rightarrow> int option
     \<Rightarrow> pass_end" where
  "check_periods cal fb busy tentative unavailable events =
     (case sort_periods (freebusy fb) ([], [], []) of
        Inl fbtype \<Rightarrow> Return (invalid_msg (''Unknown FBTYPE: '' @ fbtype))
      | Inr (busyp, tentativep, unavailablep) \<Rightarrow>
          if length busy \<noteq> length busyp \<or> length unavailable \<noteq> length unavailablep
             \<or> length tentative \<noteq> length tentativep
          then Return (invalid_msg ''Period list sizes do not match.'')
          else if set busyp \<noteq> set busy then Return (invalid_msg ''Busy periods do not match'')
          else if set tentativep \<noteq> set tentative
          then Return (invalid_msg ''Busy-tentative periods do not match'')
          else if set unavailablep \<noteq> set unavailable
          then Return (invalid_msg ''Busy-unavailable periods do not match'')
          else (case events of
                  None \<Rightarrow> Break
                | Some n \<Rightarrow>
                    if int (vevent_count cal) \<noteq> n
                    then Return (invalid_msg ''Number of VEVENTs does not match'')
                    else Break))"

text \<open>One pass: the element's text is parsed before anything else is looked at.\<close>

definition check_calendar ::
  "fb_lib \<Rightarrow> string option \<Rightarrow> string list \<Rightarrow> string list \<Rightarrow> string list \<Rightarrow> string list
     \<Rightarrow> int option \<Rightarrow> pass_end \<times> string list" where
  "check_calendar L text users busy tentative unavailable events =
     (case parseText L text of
        ParseInvalidData \<Rightarrow> (Return ''        HTTP response data is not a calendar'', users)
      | ParseValueError txt \<Rightarrow> (Return (invalid_msg txt), users)
      | ParseException txt \<Rightarrow>
          (Return (''        Response data is not calendar data: '' @ txt), users)
      | ParseNone \<Rightarrow> (Return (invalid_msg ''Not a calendar: None''), users)
      | ParseCalendar cal \<Rightarrow>
          (case vfreebusy cal of
             [fb] \<Rightarrow>
               (case find (\<lambda>a. a \<in> set users) (attendees fb) of
                  None \<Rightarrow> (Continue, users)
                | Some a \<Rightarrow>
                    (check_periods cal fb busy tentative unavailable events, remove1 a users))
           | _ \<Rightarrow>
               (Return (invalid_msg ''Wrong number or unexpected components in calendar''),
                users)))"

fun check_calendars ::
  "fb_lib \<Rightarrow> string option list \<Rightarrow> string list \<Rightarrow> string list \<Rightarrow> string list \<Rightarrow> string list
     \<Rightarrow> int option \<Rightarrow> pass_end \<times> string list" where
  "check_calendars L [] users busy tentative unavailable events = (Continue, users)"
| "check_calendars L (text # rest) users busy tentative unavailable events =
     (case check_calendar L text users busy tentative unavailable events of
        (Continue, users') \<Rightarrow> check_calendars L rest users' busy tentative unavailable events
      | (e, users') \<Rightarrow> (e, users'))"

text \<open>\<^verbatim>\<open>Verifier.verify\<close>: the result, and the list \<^verbatim>\<open>users\<close> (an object of the arguments it
  was handed) as it leaves it. \<^verbatim>\<open>args\<close> is the dictionary as its items.\<close>

definition args_get :: "(string \<times> string list) list \<Rightarrow> string \<Rightarrow> string list" where
  "args_get argd name = (case map_of argd name of Some vs \<Rightarrow> vs | None \<Rightarrow> [])"

definition verify_fb ::
  "fb_lib \<Rightarrow> http_response \<Rightarrow> string \<Rightarrow> (string \<times> string list) list
     \<Rightarrow> (exn + bool \<times> string) \<times> string list" where
  "verify_fb L response respdata argd =
     (let users = args_get argd ''attendee'' in
      if status response \<noteq> 200
      then (Inr (False, ''        HTTP Status Code Wrong: '' @ str_int (status response)), users)
      else
        (case (case args_get argd ''events'' of
                 [ev] \<Rightarrow> (case eval_int L ev of Inl e \<Rightarrow> Inl e | Inr n \<Rightarrow> Inr (Some n))
               | _ \<Rightarrow> Inr None) of
           Inl e \<Rightarrow> (Inl e, users)
         | Inr events \<Rightarrow>
             (case parse_xml L respdata of
                XmlExpatError \<Rightarrow>
                  (Inr (False, ''           Could not parse proper XML response'' @ [CHR 0x0A]), users)
              | XmlOtherError e \<Rightarrow> (Inl e, users)
              | XmlTree texts \<Rightarrow>
                  (case check_calendars L texts users (args_get argd ''busy'')
                          (args_get argd ''tentative'') (args_get argd ''unavailable'') events of
                     (Return msg, users') \<Rightarrow> (Inr (False, msg), users')
                   | (_, users') \<Rightarrow>
                       if length users' \<noteq> 0
                       then (Inr (False,
                               ''           Could not find attendee/calendar data in XML response''
                               @ [CHR 0x0A]), users')
                       else (Inr (True, []), users')))))"

text \<open>What lets a pass end in \<^verbatim>\<open>continue\<close> when no attendee is expected: the element's text
  parses to a calendar with exactly one \<^verbatim>\<open>VFREEBUSY\<close> component. And what lets the
  \<^verbatim>\<open>events\<close> argument through: it is not a single value, or \<^verbatim>\<open>int(eval(...))\<close> of the single
  value returns.\<close>

definition good_calendar :: "fb_lib \<Rightarrow> string option \<Rightarrow> bool" where
  "good_calendar L txt =
     (case parseText L txt of ParseCalendar cal \<Rightarrow> length (vfreebusy cal) = 1 | _ \<Rightarrow> False)"

definition events_evaluate :: "fb_lib \<Rightarrow> (string \<times> string list) list \<Rightarrow> bool" where
  "events_evaluate L argd =
     (case args_get argd ''events'' of
        [ev] \<Rightarrow> (case eval_int L ev of Inl e \<Rightarrow> False | Inr n \<Rightarrow> True)
      | _ \<Rightarrow> True)"

text \<open>
  A response body as a CalDAV server sends it: a \<^verbatim>\<open>schedule-response\<close> with one \<^verbatim>\<open>response\<close>
  whose \<^verbatim>\<open>calendar-data\<close> element holds the given text. A free-busy calendar with one
  \<^verbatim>\<open>VFREEBUSY\<close> component for \<^verbatim>\<open>user01\<close>. And stand-ins for the libraries that know these
  inputs only: the body with the calendar and the body with the text \<^verbatim>\<open>garbage\<close> are parsed
  to their one element, the calendar text is parsed to its components, \<^verbatim>\<open>garbage\<close> is
  rejected with \<^verbatim>\<open>InvalidData\<close>, \<^verbatim>\<open>int(eval("1"))\<close> is 1 and \<^verbatim>\<open>int(eval("None"))\<close> raises
  TypeError; everything else is rejected.
\<close>

definition fb_body :: "string \<Rightarrow> string" where
  "fb_body txt =
     ''<C:schedule-response xmlns:C='' @ [CHR 0x22] @ ''urn:ietf:params:xml:ns:caldav''
     @ [CHR 0x22] @ ''><C:response><C:calendar-data>'' @ txt
     @ ''</C:calendar-data></C:response></C:schedule-response>''"

definition fb_calendar :: string where
  "fb_calendar =
     concat (map (\<lambda>l. l @ [CHR 0x0A])
       [''BEGIN:VCALENDAR'', ''VERSION:2.0'', ''PRODID:-//Example Inc.//Example Calendar//EN'',
        ''BEGIN:VFREEBUSY'', ''UID:4FD3AD926350'', ''DTSTAMP:20240101T000000Z'',
        ''DTSTART:20240101T000000Z'', ''DTEND:20240102T000000Z'',
        ''ATTENDEE:mailto:user01@example.com'', ''END:VFREEBUSY'', ''END:VCALENDAR''])"

definition fb_lib_example :: fb_lib where
  "fb_lib_example =
     \<lparr>parse_xml = (\<lambda>s. if s = fb_body fb_calendar then XmlTree [Some fb_calendar]
                         else if s = fb_body ''garbage'' then XmlTree [Some ''garbage'']
                         else XmlOtherError SyntaxError),
      parseText = (\<lambda>t. if t = Some fb_calendar
                         then ParseCalendar
                                \<lparr>vfreebusy = [\<lparr>attendees = [''mailto:user01@example.com''],
                                               freebusy = []\<rparr>],
                                 vevent_count = 0\<rparr>
                         else ParseInvalidData),
      eval_int = (\<lambda>s. if s = ''1'' then Inr 1
                        else if s = ''None'' then Inl TypeError
                        else Inl SyntaxError)\<rparr>"

definition not_found_response :: http_response where
  "not_found_response = \<lparr>status = 404, www_authenticate = []\<rparr>"

section \<open>Verified properties\<close>

subsection \<open>Feature gate\<close>

text \<open>
  C8. For every request and every test suite, \<^verbatim>\<open>missingFeatures()\<close> is exactly the set of
  required features that the server does not have, and \<^verbatim>\<open>excludedFeatures()\<close> is exactly the
  set of excluded features that the server has. In particular
  missing({ctag}, {etag}) = {ctag} and excluded({ctag}, {ctag, etag}) = {ctag}.
\<close>

theorem feature_gate_sets:
  "missingFeatures m r = {f. f \<in> require_features r \<and> f \<notin> features (server_info m)}
   \<and> excludedFeatures m r = {f. f \<in> exclude_features r \<and> f \<in> features (server_info m)}
   \<and> ts_missingFeatures m t = {f. f \<in> ts_require_features t \<and> f \<notin> features (server_info m)}
   \<and> ts_excludedFeatures m t = {f. f \<in> ts_exclude_features t \<and> f \<in> features (server_info m)}
   \<and> missingFeatures (manager_with_features {''etag''})
        \<lparr>require_features = {''ctag''}, exclude_features = {}\<rparr> = {''ctag''}
   \<and> excludedFeatures (manager_with_features {''ctag'', ''etag''})
        \<lparr>require_features = {}, exclude_features = {''ctag''}\<rparr> = {''ctag''}
   \<and> ts_missingFeatures (manager_with_features {''etag''})
        \<lparr>ts_name = ''suite'', ts_require_features = {''ctag''}, ts_exclude_features = {}\<rparr>
        = {''ctag''}
   \<and> ts_excludedFeatures (manager_with_features {''ctag'', ''etag''})
        \<lparr>ts_name = ''suite'', ts_require_features = {}, ts_exclude_features = {''ctag''}\<rparr>
        = {''ctag''}"
  by (auto simp: missingFeatures_def excludedFeatures_def ts_missingFeatures_def
      ts_excludedFeatures_def manager_with_features_def)

subsection \<open>Directory iteration\<close>

lemma getNextData_step:
  "data self = Some d \<Longrightarrow> dataList self = Some (x # rest) \<Longrightarrow>
   getNextData E m self =
     (Inr True, self\<lparr>data := Some (d\<lparr>nextpath := Some (path_join (getFilePath m self) x)\<rparr>),
                     dataList := Some rest\<rparr>)"
  by (simp add: getNextData_def)

lemma getNextData_exhausted:
  "dataList self = Some [] \<Longrightarrow>
   getNextData E m self =
     (Inr False, self\<lparr>data := map_option (\<lambda>d. d\<lparr>nextpath := None\<rparr>) (data self), dataList := None\<rparr>)"
  by (simp add: getNextData_def)

lemma getNextData_fresh:
  "dataList self = None \<Longrightarrow> listdir E (getFilePath m self) = Inr entries \<Longrightarrow>
   getNextData E m self =
     getNextData E m (self\<lparr>dataList := Some (sort (filter (\<lambda>p. \<not> prefix ''.'' p) entries))\<rparr>)"
  by (simp add: getNextData_def visible_sorted_def bindE_def getFilePath_def split: list.splits option.splits)

lemma getFilePath_nextpath:
  "data self = Some d \<Longrightarrow>
   getFilePath m (self\<lparr>data := Some (d\<lparr>nextpath := p\<rparr>), dataList := q\<rparr>) = getFilePath m self"
  by (simp add: getFilePath_def)

lemma advance_cursor:
  "data self = Some d \<Longrightarrow> dataList self = Some ys \<Longrightarrow>
   map fst (advance_calls E m (Suc (length ys)) self) = replicate (length ys) (Inr True) @ [Inr False]
   \<and> map yielded_path (advance_calls E m (Suc (length ys)) self)
       = map (\<lambda>x. Some (path_join (getFilePath m self) x)) ys @ [None]
   \<and> dataList (snd (last (advance_calls E m (Suc (length ys)) self))) = None"
proof (induction ys arbitrary: self d)
  case Nil
  then show ?case by (simp add: getNextData_exhausted yielded_path_def)
next
  case (Cons x rest)
  let ?d' = "d\<lparr>nextpath := Some (path_join (getFilePath m self) x)\<rparr>"
  let ?self' = "self\<lparr>data := Some ?d', dataList := Some rest\<rparr>"
  have step: "getNextData E m self = (Inr True, ?self')"
    using Cons.prems by (rule getNextData_step)
  have fp: "getFilePath m ?self' = getFilePath m self"
    using Cons.prems(1) by (rule getFilePath_nextpath)
  define tl where "tl = advance_calls E m (Suc (length rest)) ?self'"
  have ih: "map fst tl = replicate (length rest) (Inr True) @ [Inr False]
   \<and> map yielded_path tl = map (\<lambda>x. Some (path_join (getFilePath m ?self') x)) rest @ [None]
   \<and> dataList (snd (last tl)) = None"
    unfolding tl_def by (rule Cons.IH[of ?self' ?d']) simp_all
  have unf: "advance_calls E m (Suc (length (x # rest))) self = (Inr True, ?self') # tl"
    unfolding tl_def using step by simp
  have ne: "tl \<noteq> []" using ih by auto
  have yp: "yielded_path (Inr True, ?self') = Some (path_join (getFilePath m self) x)"
    by (simp add: yielded_path_def)
  show ?case
    unfolding unf using ih ne yp by (simp add: fp)
qed

lemma advance_calls_fresh:
  "dataList self = None \<Longrightarrow> listdir E (getFilePath m self) = Inr entries \<Longrightarrow>
   advance_calls E m (Suc n) self
     = advance_calls E m (Suc n) (self\<lparr>dataList := Some (sort (filter (\<lambda>p. \<not> prefix ''.'' p) entries))\<rparr>)"
  by (simp add: getNextData_fresh)

lemma sort_eq_Nil: "(sort xs = []) = (xs = [])"
  by (metis length_0_conv length_sort)

text \<open>
  C6. Starting without a cursor on a directory whose listing is \<open>entries\<close>, the calls of
  \<^verbatim>\<open>getNextData\<close> return True once for every entry that does not start with a dot, in
  sorted order, each time pinning \<^verbatim>\<open>data.nextpath\<close> to that entry joined to the directory;
  the call after the last entry returns False and leaves neither a next path nor a cursor.
  Every visible entry is yielded once and no hidden one is. \<^verbatim>\<open>hasNextData\<close> reports whether
  the listing has a visible entry; it returns no request because it assigns nothing.
\<close>

theorem directory_iteration:
  assumes "data self = Some d" and "dataList self = None"
    and "listdir E (getFilePath m self) = Inr entries" and "distinct entries"
  shows "map fst (advance_calls E m (Suc (length (sort (filter (\<lambda>p. \<not> prefix ''.'' p) entries)))) self)
           = replicate (length (sort (filter (\<lambda>p. \<not> prefix ''.'' p) entries))) (Inr True) @ [Inr False]
   \<and> map yielded_path (advance_calls E m (Suc (length (sort (filter (\<lambda>p. \<not> prefix ''.'' p) entries)))) self)
       = map (\<lambda>x. Some (path_join (getFilePath m self) x)) (sort (filter (\<lambda>p. \<not> prefix ''.'' p) entries)) @ [None]
   \<and> dataList (snd (last (advance_calls E m (Suc (length (sort (filter (\<lambda>p. \<not> prefix ''.'' p) entries)))) self))) = None
   \<and> yielded_path (last (advance_calls E m (Suc (length (sort (filter (\<lambda>p. \<not> prefix ''.'' p) entries)))) self)) = None
   \<and> sorted (sort (filter (\<lambda>p. \<not> prefix ''.'' p) entries))
   \<and> distinct (sort (filter (\<lambda>p. \<not> prefix ''.'' p) entries))
   \<and> set (sort (filter (\<lambda>p. \<not> prefix ''.'' p) entries)) = {e. e \<in> set entries \<and> \<not> prefix ''.'' e}
   \<and> hasNextData E m self = Inr (\<exists>e. e \<in> set entries \<and> \<not> prefix ''.'' e)"
proof -
  let ?xs = "sort (filter (\<lambda>p. \<not> prefix ''.'' p) entries)"
  let ?self = "self\<lparr>dataList := Some ?xs\<rparr>"
  have a: "advance_calls E m (Suc (length ?xs)) self = advance_calls E m (Suc (length ?xs)) ?self"
    using assms(2,3) by (rule advance_calls_fresh)
  have fp: "getFilePath m ?self = getFilePath m self" by (simp add: getFilePath_def)
  have c: "map fst (advance_calls E m (Suc (length ?xs)) ?self) = replicate (length ?xs) (Inr True) @ [Inr False]
   \<and> map yielded_path (advance_calls E m (Suc (length ?xs)) ?self)
       = map (\<lambda>x. Some (path_join (getFilePath m ?self) x)) ?xs @ [None]
   \<and> dataList (snd (last (advance_calls E m (Suc (length ?xs)) ?self))) = None"
    by (rule advance_cursor[of ?self d]) (simp_all add: assms(1))
  have l: "yielded_path (last (advance_calls E m (Suc (length ?xs)) ?self)) = None"
  proof -
    have "advance_calls E m (Suc (length ?xs)) ?self \<noteq> []" by (simp split: prod.splits)
    then have "yielded_path (last (advance_calls E m (Suc (length ?xs)) ?self))
        = last (map yielded_path (advance_calls E m (Suc (length ?xs)) ?self))"
      by (simp add: last_map)
    then show ?thesis using c by simp
  qed
  have h: "hasNextData E m self = Inr (\<exists>e. e \<in> set entries \<and> \<not> prefix ''.'' e)"
    using assms(3) by (auto simp: hasNextData_def visible_sorted_def bindE_def filter_empty_conv sort_eq_Nil)
  show ?thesis
    unfolding a using c l h assms(4) fp by auto
qed

lemma fixture_sorted: "sort (filter (\<lambda>p. \<not> prefix ''.'' p) [''b.ics'', ''.hidden'', ''a.ics'']) = [''a.ics'', ''b.ics'']"
  by simp

lemma fixture_fp: "getFilePath (manager_with_features {}) fixture_request = ''fixtures''"
  by (simp add: getFilePath_def manager_with_features_def fixture_request_def request_init_def data_init_def)
lemma fixture_data: "data fixture_request = Some (data_init\<lparr>filepath := ''fixtures''\<rparr>)"
  by (simp add: fixture_request_def)
lemma fixture_dataList: "dataList fixture_request = None"
  by (simp add: fixture_request_def request_init_def)
lemma fixture_listdir: "listdir fixture_env ''fixtures'' = Inr [''b.ics'', ''.hidden'', ''a.ics'']"
  by (simp add: fixture_env_def)

theorem directory_iteration_witness:
  "map fst (advance_calls fixture_env (manager_with_features {}) 3 fixture_request)
     = [Inr True, Inr True, Inr False]
   \<and> map yielded_path (advance_calls fixture_env (manager_with_features {}) 3 fixture_request)
     = [Some ''fixtures/a.ics'', Some ''fixtures/b.ics'', None]
   \<and> hasNextData fixture_env (manager_with_features {}) fixture_request = Inr True"
proof -
  have p3': "listdir fixture_env (getFilePath (manager_with_features {}) fixture_request)
      = Inr [''b.ics'', ''.hidden'', ''a.ics'']"
    unfolding fixture_fp by (rule fixture_listdir)
  have p4: "distinct [''b.ics'', ''.hidden'', ''a.ics'']" by simp
  note t = directory_iteration[OF fixture_data fixture_dataList p3' p4, unfolded fixture_sorted fixture_fp]
  have ex: "(\<exists>e. e \<in> set [''b.ics'', ''.hidden'', ''a.ics''] \<and> \<not> prefix ''.'' e) = True"
  proof -
    have "''a.ics'' \<in> set [''b.ics'', ''.hidden'', ''a.ics''] \<and> \<not> prefix ''.'' ''a.ics''"
      by simp
    then show ?thesis by blast
  qed
  have pj: "path_join ''fixtures'' ''a.ics'' = ''fixtures/a.ics''"
    "path_join ''fixtures'' ''b.ics'' = ''fixtures/b.ics''"
    by (simp_all add: path_join_def suffix_to_prefix)
  have n3: "Suc (length [''a.ics'', ''b.ics'']) = 3" by simp
  have a: "map fst (advance_calls fixture_env (manager_with_features {}) 3 fixture_request)
     = [Inr True, Inr True, Inr False]"
    using t[THEN conjunct1] unfolding n3 by (simp del: advance_calls.simps)
  have b: "map yielded_path (advance_calls fixture_env (manager_with_features {}) 3 fixture_request)
     = [Some ''fixtures/a.ics'', Some ''fixtures/b.ics'', None]"
    using t[THEN conjunct2, THEN conjunct1] unfolding n3 by (simp add: pj del: advance_calls.simps)
  have c: "hasNextData fixture_env (manager_with_features {}) fixture_request = Inr True"
    using t[THEN conjunct2, THEN conjunct2, THEN conjunct2, THEN conjunct2, THEN conjunct2,
        THEN conjunct2, THEN conjunct2] unfolding ex .
  show ?thesis using a b c by blast
qed

subsection \<open>URI placeholders\<close>

lemma py_find_absent: "\<not> sublist pat s \<Longrightarrow> py_find pat s = - 1"
  by (induction s) (auto simp: sublist_Cons_right Let_def)

lemma py_find_present:
  "sublist pat s \<Longrightarrow>
   0 \<le> py_find pat s \<and> prefix pat (drop (nat (py_find pat s)) s)
   \<and> (\<forall>j < nat (py_find pat s). \<not> prefix pat (drop j s))"
proof (induction s)
  case Nil
  then show ?case by simp
next
  case (Cons c s)
  show ?case
  proof (cases "prefix pat (c # s)")
    case True
    then show ?thesis by simp
  next
    case False
    with Cons.prems have sub: "sublist pat s" by (simp add: sublist_Cons_right)
    note ih = Cons.IH[OF sub]
    from ih have nn: "0 \<le> py_find pat s" by simp
    have eq: "py_find pat (c # s) = py_find pat s + 1"
      using False nn by (simp add: Let_def)
    have n: "nat (py_find pat s + 1) = Suc (nat (py_find pat s))" using nn by simp
    show ?thesis
      unfolding eq n using ih False nn
      by (auto simp: less_Suc_eq_0_disj)
  qed
qed

lemma py_replace_absent: "old \<noteq> [] \<Longrightarrow> \<not> sublist old s \<Longrightarrow> py_replace old new s = s"
proof (induction s)
  case Nil
  then show ?case by (simp add: py_replace.simps)
next
  case (Cons c s)
  then have "\<not> prefix old (c # s)" "\<not> sublist old s" by (auto simp: sublist_Cons_right)
  with Cons show ?case by (simp add: py_replace.simps[of old new "c # s"])
qed

lemma py_replace_first:
  "old \<noteq> [] \<Longrightarrow> \<forall>j < length a. \<not> prefix old (drop j (a @ old @ b)) \<Longrightarrow>
   py_replace old new (a @ old @ b) = a @ new @ py_replace old new b"
proof (induction a)
  case Nil
  then show ?case by (simp add: py_replace.simps[of old new "old @ b"])
next
  case (Cons c a)
  from Cons.prems(2) have np: "\<not> prefix old ((c # a) @ old @ b)" by force
  have "\<forall>j < length a. \<not> prefix old (drop j (a @ old @ b))"
  proof (intro allI impI)
    fix j assume "j < length a"
    then have "Suc j < length (c # a)" by simp
    with Cons.prems(2) have "\<not> prefix old (drop (Suc j) ((c # a) @ old @ b))" by blast
    then show "\<not> prefix old (drop j (a @ old @ b))" by simp
  qed
  with Cons.IH Cons.prems(1) have ih: "py_replace old new (a @ old @ b) = a @ new @ py_replace old new b"
    by blast
  show ?case
    using np Cons.prems(1) ih by (simp add: py_replace.simps[of old new "c # a @ old @ b"])
qed



lemma world_init_fields: "extrasubsdict world_init = []" "uuid_drawn world_init = 0"
  by (simp_all add: world_init_def)




subsection \<open>Body resolution\<close>

lemma addextrasubs_single:
  "addextrasubs [(k, v)] w = w\<lparr>extrasubsdict := AList.update k v (extrasubsdict w)\<rparr>"
  by (simp add: addextrasubs_def)

text \<open>
  C5 (as amended). With a declared body, the raw text is the literal value when that is not
  empty; otherwise, when the body's file path is not empty, the content of the file at the
  pinned next path if one is set and else at the body's own path; otherwise it is empty. If
  the file cannot be read, the error is returned and nothing is written. Else the static
  substitutions are applied, then \<^verbatim>\<open>$request_count:\<close> is set to the repetition count (other
  entries stay), then the extra substitutions are applied with the table so updated, then
  the body's own table if it has entries. That text is returned unless calendar rewriting or
  a generator takes over, both of which start from the updated table. Without a declared
  body the result is the empty string and the table is not touched.
\<close>

theorem getData_resolution:
  fixes E :: env and m :: manager and self :: request and w :: world and d :: data
  defines "path \<equiv> (case nextpath d of Some p \<Rightarrow> p | None \<Rightarrow> getFilePath m self)"
  defines "w1 \<equiv> w\<lparr>extrasubsdict :=
                   AList.update ''$request_count:'' (str_int (count self)) (extrasubsdict w)\<rparr>"
  defines "resolved \<equiv> \<lambda>raw.
             (if substitutions d = [] then extrasubs_fn E (extrasubsdict w1) (subs E raw)
              else subs_db E (substitutions d) (extrasubs_fn E (extrasubsdict w1) (subs E raw)))"
  defines "obtained \<equiv> \<lambda>raw.
             (data_value d \<noteq> [] \<and> raw = data_value d)
             \<or> (data_value d = [] \<and> filepath d \<noteq> [] \<and> read_file E path = Inr raw)
             \<or> (data_value d = [] \<and> filepath d = [] \<and> raw = [])"
  shows "(data self = None \<longrightarrow> getData E m self w = (Inr [], w))
     \<and> (data self = Some d \<and> data_value d = [] \<and> filepath d \<noteq> [] \<and> read_file E path = Inl e
          \<longrightarrow> getData E m self w = (Inl e, w))
     \<and> (data self = Some d \<and> obtained raw
          \<and> ((generate d \<and> \<not> prefix ''text/calendar'' (content_type d))
               \<or> (\<not> generate d \<and> generator d = None))
          \<longrightarrow> getData E m self w = (Inr (resolved raw), w1))
     \<and> (data self = Some d \<and> obtained raw \<and> generate d \<and> prefix ''text/calendar'' (content_type d)
          \<longrightarrow> getData E m self w
                = (Inr (fst (generateCalendarData E self (resolved raw) w1)),
                   snd (generateCalendarData E self (resolved raw) w1))
              \<and> extrasubsdict (snd (getData E m self w)) = extrasubsdict w1)
     \<and> (data self = Some d \<and> obtained raw \<and> \<not> generate d \<and> generator d = Some g
          \<longrightarrow> getData E m self w = doGenerate E g w1)
     \<and> map_of (extrasubsdict w1) ''$request_count:'' = Some (str_int (count self))
     \<and> (k \<noteq> ''$request_count:'' \<longrightarrow> map_of (extrasubsdict w1) k = map_of (extrasubsdict w) k)"
proof -
  have none: "data self = None \<longrightarrow> getData E m self w = (Inr [], w)"
    by (simp add: getData_def)
  have err: "data self = Some d \<and> data_value d = [] \<and> filepath d \<noteq> [] \<and> read_file E path = Inl e
          \<longrightarrow> getData E m self w = (Inl e, w)"
    by (simp add: getData_def raw_text_def path_def)
  have raw: "obtained raw \<Longrightarrow> raw_text E m self d = Inr raw" for raw
    unfolding obtained_def raw_text_def path_def by auto
  have w1: "addextrasubs [(''$request_count:'', str_int (count self))] w = w1"
    unfolding w1_def by (rule addextrasubs_single)
  have plain: "data self = Some d \<and> obtained raw
          \<and> ((generate d \<and> \<not> prefix ''text/calendar'' (content_type d))
               \<or> (\<not> generate d \<and> generator d = None))
          \<longrightarrow> getData E m self w = (Inr (resolved raw), w1)"
    using raw[of raw] unfolding getData_def w1 resolved_def Let_def by auto
  have cal: "data self = Some d \<and> obtained raw \<and> generate d \<and> prefix ''text/calendar'' (content_type d)
          \<longrightarrow> getData E m self w
                = (Inr (fst (generateCalendarData E self (resolved raw) w1)),
                   snd (generateCalendarData E self (resolved raw) w1))
              \<and> extrasubsdict (snd (getData E m self w)) = extrasubsdict w1"
    using raw[of raw] unfolding getData_def w1 resolved_def Let_def
    by (auto simp: generateCalendarData_def Let_def split: prod.splits)
  have gen: "data self = Some d \<and> obtained raw \<and> \<not> generate d \<and> generator d = Some g
          \<longrightarrow> getData E m self w = doGenerate E g w1"
    using raw[of raw] unfolding getData_def w1 resolved_def Let_def by auto
  have tbl: "map_of (extrasubsdict w1) ''$request_count:'' = Some (str_int (count self))"
    "k \<noteq> ''$request_count:'' \<longrightarrow> map_of (extrasubsdict w1) k = map_of (extrasubsdict w) k"
    unfolding w1_def by (simp_all add: update_conv')
  show ?thesis
    using none err plain cal gen tbl by blast
qed

lemma body_env_fields:
  "subs body_env = (\<lambda>s. s @ ''[static]'')"
  "subs_db body_env = (\<lambda>db s. s @ ''[private]'')"
  "extrasubs_fn body_env =
     (\<lambda>tbl s. s @ ''[extra '' @ (case map_of tbl ''$request_count:'' of
                                  Some c \<Rightarrow> c | None \<Rightarrow> ''-'') @ '']'')"
  "read_file body_env = (\<lambda>p. if p = ''/d/a.ics'' then Inr ''BODY'' else Inl OSError)"
  by (simp_all add: body_env_def)

lemma body_pinned_fields:
  "data_value body_pinned = []" "filepath body_pinned = ''x''" "nextpath body_pinned = Some ''/d/a.ics''"
  "substitutions body_pinned = [(''a'', ''b'')]" "generate body_pinned = False"
  "generator body_pinned = None"
  by (simp_all add: body_pinned_def data_init_def)

lemma request_init_body_fields:
  "data (request_init\<lparr>count := n, data := b\<rparr>) = b" "count (request_init\<lparr>count := n, data := b\<rparr>) = n"
  by (simp_all add: request_init_def)

theorem getData_resolution_witness:
  "getData body_env body_manager (request_init\<lparr>count := 3, data := Some body_pinned\<rparr>) world_init
     = (Inr ''BODY[static][extra 3][private]'',
        world_init\<lparr>extrasubsdict := [(''$request_count:'', ''3'')]\<rparr>)
   \<and> getData body_env body_manager (request_init\<lparr>count := 3, data := None\<rparr>) world_init
     = (Inr [], world_init)"
proof -
  have s3: "str_int 3 = ''3''" by (simp add: str_int_def dec_nat.simps)
  have a: "getData body_env body_manager (request_init\<lparr>count := 3, data := Some body_pinned\<rparr>) world_init
     = (Inr ''BODY[static][extra 3][private]'',
        world_init\<lparr>extrasubsdict := [(''$request_count:'', ''3'')]\<rparr>)"
    using getData_resolution[where self = "request_init\<lparr>count := 3, data := Some body_pinned\<rparr>"
        and d = body_pinned and E = body_env and m = body_manager and w = world_init
        and raw = "''BODY''"]
    unfolding body_env_fields body_pinned_fields request_init_body_fields world_init_fields s3
    by simp
  have b: "getData body_env body_manager (request_init\<lparr>count := 3, data := None\<rparr>) world_init
     = (Inr [], world_init)"
    using getData_resolution[where self = "request_init\<lparr>count := 3, data := None\<rparr>"
        and d = body_pinned and E = body_env and m = body_manager and w = world_init]
    unfolding request_init_body_fields by simp
  show ?thesis using a b by blast
qed

text \<open>
  C5 as stated fails in two ways. A declared body with neither a literal value nor a file
  path (one that only sets the content type or names a generator) has no file read, where
  the claim reads the body's own path. And a next path pinned by the cursor is not read
  when the body's own file path is empty.
\<close>

theorem getData_counterexample:
  "raw_text body_env body_manager (request_init\<lparr>count := 3, data := Some data_init\<rparr>) data_init = Inr []
   \<and> raw_text_as_specified body_env body_manager
        (request_init\<lparr>count := 3, data := Some data_init\<rparr>) data_init = Inl OSError
   \<and> fst (getData body_env body_manager (request_init\<lparr>count := 3, data := Some data_init\<rparr>) world_init)
       = Inr ''[static][extra 3]''
   \<and> raw_text body_env body_manager
        (request_init\<lparr>count := 3, data := Some (data_init\<lparr>nextpath := Some ''/d/a.ics''\<rparr>)\<rparr>)
        (data_init\<lparr>nextpath := Some ''/d/a.ics''\<rparr>) = Inr []
   \<and> raw_text_as_specified body_env body_manager
        (request_init\<lparr>count := 3, data := Some (data_init\<lparr>nextpath := Some ''/d/a.ics''\<rparr>)\<rparr>)
        (data_init\<lparr>nextpath := Some ''/d/a.ics''\<rparr>) = Inr ''BODY''"
proof -
  have s3: "str_int 3 = ''3''" by (simp add: str_int_def dec_nat.simps)
  have di: "data_value data_init = []" "filepath data_init = []" "nextpath data_init = None"
    "substitutions data_init = []" "generate data_init = False" "generator data_init = None"
    by (simp_all add: data_init_def)
  have fp: "getFilePath body_manager (request_init\<lparr>count := 3, data := Some data_init\<rparr>) = ''/d/''"
    by (simp add: getFilePath_def body_manager_def manager_with_features_def request_init_body_fields
        di path_join_def suffix_to_prefix)
  have a: "raw_text body_env body_manager (request_init\<lparr>count := 3, data := Some data_init\<rparr>) data_init = Inr []"
    by (simp add: raw_text_def di)
  have b: "raw_text_as_specified body_env body_manager
        (request_init\<lparr>count := 3, data := Some data_init\<rparr>) data_init = Inl OSError"
    by (simp add: raw_text_as_specified_def di fp body_env_fields)
  have c: "fst (getData body_env body_manager (request_init\<lparr>count := 3, data := Some data_init\<rparr>) world_init)
       = Inr ''[static][extra 3]''"
    unfolding getData_def request_init_body_fields
    by (simp add: a di addextrasubs_single world_init_fields s3 body_env_fields)
  have d: "raw_text body_env body_manager
        (request_init\<lparr>count := 3, data := Some (data_init\<lparr>nextpath := Some ''/d/a.ics''\<rparr>)\<rparr>)
        (data_init\<lparr>nextpath := Some ''/d/a.ics''\<rparr>) = Inr []"
    by (simp add: raw_text_def di)
  have e: "raw_text_as_specified body_env body_manager
        (request_init\<lparr>count := 3, data := Some (data_init\<lparr>nextpath := Some ''/d/a.ics''\<rparr>)\<rparr>)
        (data_init\<lparr>nextpath := Some ''/d/a.ics''\<rparr>) = Inr ''BODY''"
    by (simp add: raw_text_as_specified_def di body_env_fields)
  show ?thesis using a b c d e by blast
qed

subsection \<open>Plugin arguments\<close>

lemma get_list_eqI:
  "va < length (heap w) \<Longrightarrow> va < length (heap w') \<Longrightarrow> heap w' ! va = heap w ! va
   \<Longrightarrow> get_list w' va = get_list w va"
  by (simp add: get_list_def)

lemma get_list_InrD: "get_list w va = Inr vs \<Longrightarrow> va < length (heap w) \<and> heap w ! va = ListObj vs"
  by (auto simp: get_list_def split: if_splits obj.splits)

lemma get_argdict_InrD:
  "get_argdict w a = Inr kvs \<Longrightarrow> a < length (heap w) \<and> heap w ! a = ArgDict kvs"
  by (auto simp: get_argdict_def split: if_splits obj.splits)

lemma deep_items_cong:
  "\<forall>va \<in> snd ` set items. get_list w' va = get_list w va
   \<Longrightarrow> deep_items w' items = deep_items w items"
  by (induction items) (auto simp: bindE_def)

lemma deep_items_InrD:
  "deep_items w items = Inr v \<Longrightarrow> (k, va) \<in> set items \<Longrightarrow> \<exists>vs. get_list w va = Inr vs"
  by (induction items arbitrary: v) (auto simp: bindE_def split: sum.splits)

lemma deep_items_keys: "deep_items w items = Inr v \<Longrightarrow> map fst v = map fst items"
  by (induction items arbitrary: v) (auto simp: bindE_def split: sum.splits)

lemma alist_update_mid:
  "k \<notin> fst ` set pre \<Longrightarrow> AList.update k v (pre @ (k, x) # rest) = pre @ (k, v) # rest"
  by (induction pre) auto

lemma reresolve_deep:
  assumes "get_argdict w a = Inr (pre @ items)" and "distinct (map fst (pre @ items))"
    and "deep_items w items = Inr v"
  shows "\<exists>w' items'. reresolve E a items w = (None, w')
     \<and> length (heap w) \<le> length (heap w')
     \<and> (\<forall>i < length (heap w). i \<noteq> a \<longrightarrow> heap w' ! i = heap w ! i)
     \<and> get_argdict w' a = Inr (pre @ items')
     \<and> deep_items w' items'
         = Inr (map (\<lambda>(k, vs). (k, map (extrasubs_fn E (extrasubsdict w)) vs)) v)"
  using assms
proof (induction items arbitrary: w pre v)
  case Nil
  then show ?case by auto
next
  case (Cons item rest)
  obtain name va where item: "item = (name, va)" by (cases item)
  from Cons.prems(3) obtain vs vr where vs: "get_list w va = Inr vs"
    and vr: "deep_items w rest = Inr vr" and v: "v = (name, vs) # vr"
    by (auto simp: item bindE_def split: sum.splits)
  let ?f = "extrasubs_fn E (extrasubsdict w)"
  let ?n = "length (heap w)"
  let ?w1 = "w\<lparr>heap := heap w @ [ListObj (map ?f vs)]\<rparr>"
  have al: "alloc (ListObj (map ?f vs)) w = (?n, ?w1)" by (simp add: alloc_def)
  from Cons.prems(1) have a: "a < ?n" "heap w ! a = ArgDict (pre @ item # rest)"
    by (auto dest: get_argdict_InrD)
  have d1: "get_argdict ?w1 a = Inr (pre @ item # rest)"
    using a by (simp add: get_argdict_def nth_append)
  have notin: "name \<notin> fst ` set pre" using Cons.prems(2) by (auto simp: item)
  let ?w2 = "?w1\<lparr>heap := (heap ?w1)[a := ArgDict (pre @ (name, ?n) # rest)]\<rparr>"
  have sa: "set_arg a name ?n ?w1 = Inr ?w2"
    using d1 notin by (simp add: set_arg_def bindE_def item alist_update_mid)
  have step: "reresolve E a (item # rest) w = reresolve E a rest ?w2"
    by (simp add: item vs al sa)
  have d2: "get_argdict ?w2 a = Inr ((pre @ [(name, ?n)]) @ rest)"
    using a by (simp add: get_argdict_def)
  have dist2: "distinct (map fst ((pre @ [(name, ?n)]) @ rest))"
    using Cons.prems(2) by (simp add: item)
  have same: "get_list ?w2 x = get_list w x" if "(k, x) \<in> set rest" for k x
  proof -
    from deep_items_InrD[OF vr that] obtain xs where "get_list w x = Inr xs" by blast
    then have x: "x < ?n" "heap w ! x = ListObj xs" by (auto dest: get_list_InrD)
    with a have "x \<noteq> a" by auto
    with x show ?thesis by (simp add: get_list_def nth_append)
  qed
  have vr2: "deep_items ?w2 rest = Inr vr"
    using deep_items_cong[of rest ?w2 w] same vr by force
  from Cons.IH[OF d2 dist2 vr2] obtain w' items' where
    r: "reresolve E a rest ?w2 = (None, w')"
    and len: "length (heap ?w2) \<le> length (heap w')"
    and fr: "\<forall>i < length (heap ?w2). i \<noteq> a \<longrightarrow> heap w' ! i = heap ?w2 ! i"
    and d': "get_argdict w' a = Inr ((pre @ [(name, ?n)]) @ items')"
    and v': "deep_items w' items' = Inr (map (\<lambda>(k, vs). (k, map ?f vs)) vr)"
    by auto
  have n: "heap w' ! ?n = ListObj (map ?f vs)" "?n < length (heap w')"
    using fr len a by (auto simp: nth_append)
  then have gl: "get_list w' ?n = Inr (map ?f vs)" by (simp add: get_list_def)
  have fr': "\<forall>i < ?n. i \<noteq> a \<longrightarrow> heap w' ! i = heap w ! i"
    using fr by (auto simp: nth_append)
  have "deep_items w' ((name, ?n) # items')
      = Inr (map (\<lambda>(k, vs). (k, map ?f vs)) v)"
    by (simp add: gl v' v bindE_def)
  moreover have "get_argdict w' a = Inr (pre @ (name, ?n) # items')" using d' by simp
  moreover have "length (heap w) \<le> length (heap w')" using len by simp
  ultimately show ?case
    unfolding step using r fr' by blast
qed

lemma clone_items_deep:
  assumes "deep_items w items = Inr v"
  shows "\<exists>kvs xs. clone_items items w = (Inr kvs, w\<lparr>heap := heap w @ xs\<rparr>)
     \<and> deep_items (w\<lparr>heap := heap w @ xs\<rparr>) kvs = Inr v
     \<and> (\<forall>(k, va) \<in> set kvs. length (heap w) \<le> va)"
  using assms
proof (induction items arbitrary: w v)
  case Nil
  have "w\<lparr>heap := heap w @ []\<rparr> = w" by simp
  with Nil show ?case by (intro exI[of _ "[]"]) auto
next
  case (Cons item rest)
  obtain k va where item: "item = (k, va)" by (cases item)
  from Cons.prems obtain vs vr where vs: "get_list w va = Inr vs"
    and vr: "deep_items w rest = Inr vr" and v: "v = (k, vs) # vr"
    by (auto simp: item bindE_def split: sum.splits)
  let ?n = "length (heap w)"
  let ?w1 = "w\<lparr>heap := heap w @ [ListObj vs]\<rparr>"
  have al: "alloc (ListObj vs) w = (?n, ?w1)" by (simp add: alloc_def)
  have same: "get_list ?w1 x = get_list w x" if "(k', x) \<in> set rest" for k' x
  proof -
    from deep_items_InrD[OF vr that] obtain xs where "get_list w x = Inr xs" by blast
    then have "x < ?n" by (auto dest: get_list_InrD)
    then show ?thesis by (simp add: get_list_def nth_append)
  qed
  have vr1: "deep_items ?w1 rest = Inr vr"
    using deep_items_cong[of rest ?w1 w] same vr by force
  from Cons.IH[OF vr1] obtain kvs xs where
    c: "clone_items rest ?w1 = (Inr kvs, ?w1\<lparr>heap := heap ?w1 @ xs\<rparr>)"
    and dv: "deep_items (?w1\<lparr>heap := heap ?w1 @ xs\<rparr>) kvs = Inr vr"
    and fresh: "\<forall>(k, va) \<in> set kvs. length (heap ?w1) \<le> va"
    by blast
  let ?w' = "w\<lparr>heap := heap w @ (ListObj vs # xs)\<rparr>"
  have weq: "?w1\<lparr>heap := heap ?w1 @ xs\<rparr> = ?w'" by simp
  have gl: "get_list ?w' ?n = Inr vs" by (simp add: get_list_def nth_append)
  have "clone_items (item # rest) w = (Inr ((k, ?n) # kvs), ?w')"
    using c unfolding weq by (simp add: item vs al)
  moreover have "deep_items ?w' ((k, ?n) # kvs) = Inr v"
    using dv unfolding weq by (simp add: gl v bindE_def)
  moreover have "\<forall>(k, va) \<in> set ((k, ?n) # kvs). length (heap w) \<le> va"
    using fresh by auto
  ultimately show ?case by blast
qed


lemma deep_args_InrD:
  "deep_args w a = Inr v \<Longrightarrow> \<exists>kvs. get_argdict w a = Inr kvs \<and> deep_items w kvs = Inr v"
  by (auto simp: deep_args_def bindE_def split: sum.splits)

lemma redo_substitutions_deep:
  assumes "deep_args w a = Inr v" and "distinct (map fst v)"
  shows "\<exists>w1. redo_substitutions E a w = (None, w1) \<and> deep_args w1 a = Inr (resubstituted E w v)"
proof -
  from deep_args_InrD[OF assms(1)] obtain kvs where
    kvs: "get_argdict w a = Inr kvs" "deep_items w kvs = Inr v" by blast
  show ?thesis
  proof (cases "hasextrasubs w")
    case False
    then show ?thesis using assms(1) by (simp add: redo_substitutions_def resubstituted_def)
  next
    case True
    have d: "distinct (map fst ([] @ kvs))"
      using assms(2) deep_items_keys[OF kvs(2)] by simp
    from reresolve_deep[of w a "[]" kvs v E] kvs d obtain w' items' where
      r: "reresolve E a kvs w = (None, w')"
      and g: "get_argdict w' a = Inr items'"
      and v': "deep_items w' items'
         = Inr (map (\<lambda>(k, vs). (k, map (extrasubs_fn E (extrasubsdict w)) vs)) v)"
      by auto
    have "deep_args w' a = Inr (resubstituted E w v)"
      using g v' True by (simp add: deep_args_def bindE_def resubstituted_def)
    then show ?thesis using True r kvs(1) by (simp add: redo_substitutions_def)
  qed
qed

lemma clone_args_deep:
  assumes "deep_args w1 a = Inr v1"
  shows "\<exists>da xs. clone_args a w1 = (Inr da, w1\<lparr>heap := heap w1 @ xs\<rparr>)
     \<and> deep_args (w1\<lparr>heap := heap w1 @ xs\<rparr>) da = Inr v1
     \<and> (\<forall>i \<in> reach (w1\<lparr>heap := heap w1 @ xs\<rparr>) da. length (heap w1) \<le> i)"
proof -
  from deep_args_InrD[OF assms] obtain items where
    items: "get_argdict w1 a = Inr items" "deep_items w1 items = Inr v1" by blast
  from clone_items_deep[OF items(2)] obtain kvs xs where
    c: "clone_items items w1 = (Inr kvs, w1\<lparr>heap := heap w1 @ xs\<rparr>)"
    and dv: "deep_items (w1\<lparr>heap := heap w1 @ xs\<rparr>) kvs = Inr v1"
    and fresh: "\<forall>(k, va) \<in> set kvs. length (heap w1) \<le> va"
    by blast
  let ?wc = "w1\<lparr>heap := heap w1 @ xs\<rparr>"
  let ?da = "length (heap ?wc)"
  let ?w2 = "w1\<lparr>heap := heap w1 @ (xs @ [ArgDict kvs])\<rparr>"
  have al: "alloc (ArgDict kvs) ?wc = (?da, ?w2)" by (simp add: alloc_def)
  have ca: "clone_args a w1 = (Inr ?da, ?w2)"
    using al by (simp add: clone_args_def items(1) c)
  have gd: "get_argdict ?w2 ?da = Inr kvs"
    by (simp add: get_argdict_def nth_append)
  have same: "get_list ?w2 x = get_list ?wc x" if "x \<in> snd ` set kvs" for x
  proof -
    from that obtain k where "(k, x) \<in> set kvs" by auto
    from deep_items_InrD[OF dv this] obtain ys where "get_list ?wc x = Inr ys" by blast
    then have x: "x < length (heap ?wc)" by (auto dest: get_list_InrD)
    have h2: "heap ?w2 = heap ?wc @ [ArgDict kvs]" by simp
    have "heap ?w2 ! x = heap ?wc ! x" unfolding h2 using x by (simp only: nth_append if_True)
    moreover have "x < length (heap ?w2)" using x unfolding h2 by simp
    ultimately show ?thesis using x by (intro get_list_eqI)
  qed
  have "deep_items ?w2 kvs = Inr v1"
    using deep_items_cong[of kvs ?w2 ?wc] same dv by auto
  then have da: "deep_args ?w2 ?da = Inr v1" using gd by (simp add: deep_args_def bindE_def)
  have "\<forall>i \<in> reach ?w2 ?da. length (heap w1) \<le> i"
    using fresh gd by (auto simp: reach_def)
  with ca da show ?thesis by blast
qed

lemma frame_keeps_deep:
  assumes "deep_args w1 a = Inr v1"
    and "keeps_others (w1\<lparr>heap := heap w1 @ xs\<rparr>) da w3"
    and "\<forall>i \<in> reach (w1\<lparr>heap := heap w1 @ xs\<rparr>) da. length (heap w1) \<le> i"
  shows "deep_args w3 a = Inr v1"
proof -
  from deep_args_InrD[OF assms(1)] obtain items where
    items: "get_argdict w1 a = Inr items" "deep_items w1 items = Inr v1" by blast
  have old: "i < length (heap w3) \<and> heap w3 ! i = heap w1 ! i" if "i < length (heap w1)" for i
  proof -
    from that assms(3) have "i \<notin> reach (w1\<lparr>heap := heap w1 @ xs\<rparr>) da" by auto
    with assms(2) that show ?thesis by (auto simp: keeps_others_def nth_append)
  qed
  from items(1) have a: "a < length (heap w1)" "heap w1 ! a = ArgDict items"
    by (auto dest: get_argdict_InrD)
  have g3: "get_argdict w3 a = Inr items"
    using old[OF a(1)] a(2) by (simp add: get_argdict_def)
  have same: "get_list w3 x = get_list w1 x" if "x \<in> snd ` set items" for x
  proof -
    from that obtain k where "(k, x) \<in> set items" by auto
    from deep_items_InrD[OF items(2) this] obtain ys where "get_list w1 x = Inr ys" by blast
    then have "x < length (heap w1)" by (auto dest: get_list_InrD)
    from old[OF this] this show ?thesis by (simp add: get_list_def)
  qed
  have "deep_items w3 items = Inr v1"
    using deep_items_cong[of items w3 w1] same items(2) by auto
  then show ?thesis by (simp add: deep_args_def g3 bindE_def)
qed

lemma resubstituted_keys: "map fst (resubstituted E w v) = map fst v"
  by (induction v) (auto simp: resubstituted_def)

lemma doVerify_isolated:
  assumes "deep_args w (args self) = Inr v" and "distinct (map fst v)"
    and "callback self = Some cb" and "import_verifier E (''verifiers.'' @ cb) = Some verifier"
    and "\<forall>w0 a0. keeps_others w0 a0 (snd (verifier w0 uri response respdata a0))"
  shows "\<exists>w2 da. doVerify E self uri response respdata w = verifier w2 uri response respdata da
     \<and> deep_args w2 da = Inr (resubstituted E w v)
     \<and> deep_args w2 (args self) = Inr (resubstituted E w v)
     \<and> reach w2 da \<inter> reach w2 (args self) = {}
     \<and> deep_args (snd (doVerify E self uri response respdata w)) (args self)
         = Inr (resubstituted E w v)"
proof -
  let ?a = "args self"
  from redo_substitutions_deep[OF assms(1,2), of E] obtain w1 where
    r: "redo_substitutions E ?a w = (None, w1)" and d1: "deep_args w1 ?a = Inr (resubstituted E w v)"
    by blast
  from clone_args_deep[OF d1] obtain da xs where
    c: "clone_args ?a w1 = (Inr da, w1\<lparr>heap := heap w1 @ xs\<rparr>)"
    and d2: "deep_args (w1\<lparr>heap := heap w1 @ xs\<rparr>) da = Inr (resubstituted E w v)"
    and fresh: "\<forall>i \<in> reach (w1\<lparr>heap := heap w1 @ xs\<rparr>) da. length (heap w1) \<le> i"
    by blast
  let ?w2 = "w1\<lparr>heap := heap w1 @ xs\<rparr>"
  have call: "doVerify E self uri response respdata w = verifier ?w2 uri response respdata da"
    using assms(4) by (simp add: doVerify_def r assms(3) c)
  have k0: "keeps_others ?w2 da ?w2" by (simp add: keeps_others_def)
  have stored2: "deep_args ?w2 ?a = Inr (resubstituted E w v)"
    by (rule frame_keeps_deep[OF d1 k0 fresh])
  have after: "deep_args (snd (verifier ?w2 uri response respdata da)) ?a = Inr (resubstituted E w v)"
    using assms(5) by (intro frame_keeps_deep[OF d1 _ fresh]) blast
  from deep_args_InrD[OF d1] obtain items where
    items: "get_argdict w1 ?a = Inr items" "deep_items w1 items = Inr (resubstituted E w v)" by blast
  from deep_args_InrD[OF stored2] obtain items2 where
    items2: "get_argdict ?w2 ?a = Inr items2" "deep_items ?w2 items2 = Inr (resubstituted E w v)"
    by blast
  have low: "i < length (heap w1)" if "i \<in> reach ?w2 ?a" for i
  proof -
    from items(1) have a: "?a < length (heap w1)" "heap w1 ! ?a = ArgDict items"
      by (auto dest: get_argdict_InrD)
    then have "get_argdict ?w2 ?a = Inr items" by (simp add: get_argdict_def nth_append)
    with that have "i = ?a \<or> i \<in> snd ` set items" by (auto simp: reach_def)
    then show ?thesis
    proof
      assume "i = ?a" with a show ?thesis by simp
    next
      assume "i \<in> snd ` set items"
      then obtain k where "(k, i) \<in> set items" by auto
      from deep_items_InrD[OF items(2) this] obtain ys where "get_list w1 i = Inr ys" by blast
      then show ?thesis by (auto dest: get_list_InrD)
    qed
  qed
  have disj: "reach ?w2 da \<inter> reach ?w2 ?a = {}"
    using fresh low by fastforce
  show ?thesis
    using call d2 stored2 disj after by (intro exI[of _ ?w2] exI[of _ da]) simp
qed

lemma doGenerate_isolated:
  assumes "deep_args w (gen_args self) = Inr v" and "distinct (map fst v)"
    and "gen_callback self = Some cb" and "import_generator E cb = Some gen"
    and "\<forall>w0 a0. keeps_others w0 a0 (snd (gen w0 a0))"
  shows "\<exists>w2 da. doGenerate E self w = gen w2 da
     \<and> deep_args w2 da = Inr (resubstituted E w v)
     \<and> deep_args w2 (gen_args self) = Inr (resubstituted E w v)
     \<and> reach w2 da \<inter> reach w2 (gen_args self) = {}
     \<and> deep_args (snd (doGenerate E self w)) (gen_args self) = Inr (resubstituted E w v)"
proof -
  let ?a = "gen_args self"
  from redo_substitutions_deep[OF assms(1,2), of E] obtain w1 where
    r: "redo_substitutions E ?a w = (None, w1)" and d1: "deep_args w1 ?a = Inr (resubstituted E w v)"
    by blast
  from clone_args_deep[OF d1] obtain da xs where
    c: "clone_args ?a w1 = (Inr da, w1\<lparr>heap := heap w1 @ xs\<rparr>)"
    and d2: "deep_args (w1\<lparr>heap := heap w1 @ xs\<rparr>) da = Inr (resubstituted E w v)"
    and fresh: "\<forall>i \<in> reach (w1\<lparr>heap := heap w1 @ xs\<rparr>) da. length (heap w1) \<le> i"
    by blast
  let ?w2 = "w1\<lparr>heap := heap w1 @ xs\<rparr>"
  have call: "doGenerate E self w = gen ?w2 da"
    by (simp add: doGenerate_def r assms(3,4) c)
  have k0: "keeps_others ?w2 da ?w2" by (simp add: keeps_others_def)
  have stored2: "deep_args ?w2 ?a = Inr (resubstituted E w v)"
    by (rule frame_keeps_deep[OF d1 k0 fresh])
  have after: "deep_args (snd (gen ?w2 da)) ?a = Inr (resubstituted E w v)"
    using assms(5) by (intro frame_keeps_deep[OF d1 _ fresh]) blast
  from deep_args_InrD[OF d1] obtain items where
    items: "get_argdict w1 ?a = Inr items" "deep_items w1 items = Inr (resubstituted E w v)" by blast
  have low: "i < length (heap w1)" if "i \<in> reach ?w2 ?a" for i
  proof -
    from items(1) have a: "?a < length (heap w1)" "heap w1 ! ?a = ArgDict items"
      by (auto dest: get_argdict_InrD)
    then have "get_argdict ?w2 ?a = Inr items" by (simp add: get_argdict_def nth_append)
    with that have "i = ?a \<or> i \<in> snd ` set items" by (auto simp: reach_def)
    then show ?thesis
    proof
      assume "i = ?a" with a show ?thesis by simp
    next
      assume "i \<in> snd ` set items"
      then obtain k where "(k, i) \<in> set items" by auto
      from deep_items_InrD[OF items(2) this] obtain ys where "get_list w1 i = Inr ys" by blast
      then show ?thesis by (auto dest: get_list_InrD)
    qed
  qed
  have disj: "reach ?w2 da \<inter> reach ?w2 ?a = {}"
    using fresh low by fastforce
  show ?thesis
    using call d2 stored2 disj after by (intro exI[of _ ?w2] exI[of _ da]) simp
qed

text \<open>
  C7. Before each call, \<^verbatim>\<open>doVerify\<close> and \<^verbatim>\<open>doGenerate\<close> store the values re-resolved against
  the extra substitutions (when there are any) and hand the plugin a dictionary and lists
  that are new objects with the same contents. If the plugin writes only into what it was
  handed, the stored arguments hold the re-resolved values when the call returns, whatever
  the plugin did, and the next call of the same instance hands out a copy of those values
  re-resolved again.
\<close>

theorem plugin_args_isolated:
  assumes "deep_args w (args vself) = Inr vv" and "distinct (map fst vv)"
    and "callback vself = Some cb" and "import_verifier E (''verifiers.'' @ cb) = Some verifier"
    and "\<forall>w0 u r d a0. keeps_others w0 a0 (snd (verifier w0 u r d a0))"
    and "deep_args w (gen_args gself) = Inr vg" and "distinct (map fst vg)"
    and "gen_callback gself = Some gcb" and "import_generator E gcb = Some gen"
    and "\<forall>w0 a0. keeps_others w0 a0 (snd (gen w0 a0))"
  shows "(\<exists>w2 da. doVerify E vself uri response respdata w = verifier w2 uri response respdata da
            \<and> deep_args w2 da = Inr (resubstituted E w vv)
            \<and> reach w2 da \<inter> reach w2 (args vself) = {})
     \<and> deep_args (snd (doVerify E vself uri response respdata w)) (args vself)
          = Inr (resubstituted E w vv)
     \<and> (\<exists>w3 db. doVerify E vself uri' response' respdata'
                   (snd (doVerify E vself uri response respdata w))
                 = verifier w3 uri' response' respdata' db
            \<and> deep_args w3 db
                = Inr (resubstituted E (snd (doVerify E vself uri response respdata w))
                         (resubstituted E w vv)))
     \<and> (\<exists>w2 da. doGenerate E gself w = gen w2 da
            \<and> deep_args w2 da = Inr (resubstituted E w vg)
            \<and> reach w2 da \<inter> reach w2 (gen_args gself) = {})
     \<and> deep_args (snd (doGenerate E gself w)) (gen_args gself) = Inr (resubstituted E w vg)
     \<and> (\<exists>w3 db. doGenerate E gself (snd (doGenerate E gself w)) = gen w3 db
            \<and> deep_args w3 db
                = Inr (resubstituted E (snd (doGenerate E gself w)) (resubstituted E w vg)))"
proof -
  have fv: "\<forall>w0 a0. keeps_others w0 a0 (snd (verifier w0 u r d a0))" for u r d
    using assms(5) by blast
  note v1 = doVerify_isolated[OF assms(1,2,3,4) fv, of uri response respdata]
  have dv: "distinct (map fst (resubstituted E w vv))"
    using assms(2) by (simp add: resubstituted_keys)
  from v1 have sv: "deep_args (snd (doVerify E vself uri response respdata w)) (args vself)
          = Inr (resubstituted E w vv)" by blast
  note v2 = doVerify_isolated[OF sv dv assms(3,4) fv, of uri' response' respdata']
  note g1 = doGenerate_isolated[OF assms(6,7,8,9,10)]
  have dg: "distinct (map fst (resubstituted E w vg))"
    using assms(7) by (simp add: resubstituted_keys)
  from g1 have sg: "deep_args (snd (doGenerate E gself w)) (gen_args gself)
      = Inr (resubstituted E w vg)" by blast
  note g2 = doGenerate_isolated[OF sg dg assms(8,9,10)]
  show ?thesis
    using v1 v2 g1 g2 by blast
qed

lemma clear_received_keeps: "keeps_others w a (clear_received w a)"
proof (cases "get_argdict w a")
  case (Inl e)
  then show ?thesis by (simp add: clear_received_def keeps_others_def)
next
  case (Inr kvs)
  show ?thesis
  proof (cases kvs)
    case Nil
    with Inr show ?thesis by (simp add: clear_received_def keeps_others_def)
  next
    case (Cons kv rest)
    obtain k va where kv: "kv = (k, va)" by (cases kv)
    have r: "va \<in> reach w a" "a \<in> reach w a"
      using Inr Cons kv by (auto simp: reach_def)
    have "(heap w)[va := ListObj [], a := ArgDict []] ! i = heap w ! i" if "i \<notin> reach w a" for i
    proof -
      from that r have "i \<noteq> va" "i \<noteq> a" by auto
      then show ?thesis by simp
    qed
    then show ?thesis
      using Inr Cons kv by (simp add: clear_received_def keeps_others_def)
  qed
qed

lemma plugin_env_fields:
  "extrasubs_fn plugin_env = (\<lambda>tbl s. case map_of tbl s of Some v \<Rightarrow> v | None \<Rightarrow> s)"
  "import_verifier plugin_env (''verifiers.'' @ ''clear'')
     = Some (\<lambda>w uri response respdata a. (Inr (True, []), clear_received w a))"
  "import_generator plugin_env ''clear'' = Some (\<lambda>w a. (Inr [], clear_received w a))"
  by (simp_all add: plugin_env_def)

lemma plugin_world_fields:
  "extrasubsdict plugin_world = [(''$loc:'', ''/cal/1'')]"
  "heap plugin_world = [HeaderDict [], ArgDict [(''attendee'', 2)], ListObj [''$loc:'']]"
  by (simp_all add: plugin_world_def)

lemma plugin_world_args: "deep_args plugin_world 1 = Inr [(''attendee'', [''$loc:''])]"
  by (simp add: deep_args_def get_argdict_def get_list_def bindE_def plugin_world_fields)

lemma plugin_world_resubstituted:
  "resubstituted plugin_env plugin_world [(''attendee'', [''$loc:''])]
     = [(''attendee'', [''/cal/1''])]"
  by (simp add: resubstituted_def hasextrasubs_def plugin_world_fields plugin_env_fields)

theorem plugin_args_isolated_witness:
  "deep_args (snd (doVerify plugin_env clear_verify ''/cal/'' ok_response [] plugin_world)) 1
     = Inr [(''attendee'', [''/cal/1''])]
   \<and> deep_args (snd (doGenerate plugin_env clear_generator plugin_world)) 1
     = Inr [(''attendee'', [''/cal/1''])]"
proof -
  have a1: "deep_args plugin_world (args clear_verify) = Inr [(''attendee'', [''$loc:''])]"
    using plugin_world_args by (simp add: clear_verify_def)
  have a2: "distinct (map fst [(''attendee'', [''$loc:''])])" by simp
  have a3: "callback clear_verify = Some ''clear''" by (simp add: clear_verify_def)
  have a5: "\<forall>w0 u r d a0. keeps_others w0 a0
      (snd ((\<lambda>w uri response respdata a. (Inr (True, []), clear_received w a)) w0 u r d a0))"
    by (simp add: clear_received_keeps)
  have a6: "deep_args plugin_world (gen_args clear_generator) = Inr [(''attendee'', [''$loc:''])]"
    using plugin_world_args by (simp add: clear_generator_def)
  have a8: "gen_callback clear_generator = Some ''clear''" by (simp add: clear_generator_def)
  have a10: "\<forall>w0 a0. keeps_others w0 a0 (snd ((\<lambda>w a. (Inr [], clear_received w a)) w0 a0))"
    by (simp add: clear_received_keeps)
  note t = plugin_args_isolated[OF a1 a2 a3 plugin_env_fields(2) a5 a6 a2 a8 plugin_env_fields(3) a10,
      of "''/cal/''" ok_response "[]", unfolded plugin_world_resubstituted]
  have v: "deep_args (snd (doVerify plugin_env clear_verify ''/cal/'' ok_response [] plugin_world))
      (args clear_verify) = Inr [(''attendee'', [''/cal/1''])]"
    using t by blast
  have g: "deep_args (snd (doGenerate plugin_env clear_generator plugin_world))
      (gen_args clear_generator) = Inr [(''attendee'', [''/cal/1''])]"
    using t by blast
  show ?thesis
    using v g by (simp add: clear_verify_def clear_generator_def)
qed

subsection \<open>Digest computation\<close>

lemma h_updates_str_colon: "\<exists>e. h_updates m (v # PStr s # vs) = Inl e"
  by (cases v) (auto simp: h_update_def bindE_def)

lemma h_updates_first_str: "h_updates m (PStr s # vs) = Inl TypeError"
  by (simp add: h_update_def bindE_def)

text \<open>
  C1 (the code at the claim's inputs). Whatever the algorithm name and the arguments, be
  they \<^verbatim>\<open>str\<close>, \<^verbatim>\<open>bytes\<close> or \<^verbatim>\<open>None\<close>, \<^verbatim>\<open>calcHA1\<close> and \<^verbatim>\<open>calcResponse\<close> raise and return no
  digest; on the input of the RFC 2617 example the exception is the TypeError of the first
  \<^verbatim>\<open>update\<close> with a \<^verbatim>\<open>str\<close>.
\<close>

theorem digest_computation_raises:
  "(\<exists>e. calcHA1 E alg u r p n c pre = Inl e)
   \<and> (\<exists>e. calcResponse E ha1 alg n ncount c qop meth uri hent = Inl e)
   \<and> calcHA1 E ''md5'' (PStr ''Mufasa'') (PStr ''testrealm@host.com'') (PStr ''Circle Of Life'')
        (PStr ''dcd98b7102dd2f0e8b11d0f600bfb0c093'') (PStr ''0a4f113b'') PNone = Inl TypeError
   \<and> calcResponse E (PStr ''939e7578ed9e3c518a452acd0e9951a0'') ''md5''
        (PStr ''dcd98b7102dd2f0e8b11d0f600bfb0c093'') (PStr ''00000001'') (PStr ''0a4f113b'')
        (PStr ''auth'') (PStr ''GET'') (PStr ''/dir/index.html'') PNone = Inl TypeError"
proof -
  have a: "\<exists>e. calcHA1 E alg u r p n c pre = Inl e"
  proof (cases "truthy pre \<and> (truthy u \<or> truthy r \<or> truthy p)")
    case True
    then show ?thesis by (simp add: calcHA1_def)
  next
    case False
    show ?thesis
    proof (cases "pre = PNone")
      case True
      show ?thesis
      proof (cases "h_new alg")
        case (Inl e)
        then show ?thesis using True by (simp add: calcHA1_def bindE_def)
      next
        case (Inr m)
        from h_updates_str_colon[of m u "'':''" "[r, PStr '':'', p]"]
        obtain e where "h_updates m [u, PStr '':'', r, PStr '':'', p] = Inl e" by blast
        then show ?thesis using True Inr by (simp add: calcHA1_def bindE_def)
      qed
    next
      case pre: False
      show ?thesis
      proof (cases "py_decode_hex pre")
        case (Inl e)
        then show ?thesis using pre False by (simp add: calcHA1_def bindE_def)
      next
        case (Inr ha1)
        then have ha1: "ha1 = PStr []"
          by (cases pre) (simp_all add: py_decode_hex_def split: if_splits)
        show ?thesis
        proof (cases "alg = ''md5-sess''")
          case True
          have "h_new alg = Inr \<lparr>h_alg = MD5, h_buf = []\<rparr>"
            unfolding True by (simp add: h_new_def algorithms_def)
          then show ?thesis
            using pre False Inr True
            by (simp add: calcHA1_def bindE_def ha1 h_updates_first_str del: h_updates.simps)
        next
          case neq: False
          then show ?thesis
            using pre False Inr
            by (simp add: calcHA1_def bindE_def ha1 py_encode_hex_def)
        qed
      qed
    qed
  qed
  have b: "\<exists>e. calcResponse E ha1 alg n ncount c qop meth uri hent = Inl e"
  proof (cases "h_new alg")
    case (Inl e)
    then show ?thesis by (simp add: calcResponse_def bindE_def)
  next
    case (Inr m)
    have l: "[meth, PStr '':'', uri] @ (if qop = PStr ''auth-int'' then [PStr '':'', hent] else [])
        = meth # PStr '':'' # (uri # (if qop = PStr ''auth-int'' then [PStr '':'', hent] else []))"
      by simp
    have "\<exists>e. h_updates m ([meth, PStr '':'', uri]
               @ (if qop = PStr ''auth-int'' then [PStr '':'', hent] else [])) = Inl e"
      unfolding l by (rule h_updates_str_colon)
    then obtain e where e: "h_updates m ([meth, PStr '':'', uri]
               @ (if qop = PStr ''auth-int'' then [PStr '':'', hent] else [])) = Inl e"
      by blast
    have "calcResponse E ha1 alg n ncount c qop meth uri hent = Inl e"
      by (simp only: calcResponse_def Inr bindE_def sum.case e)
    then show ?thesis by blast
  qed
  have c: "calcHA1 E ''md5'' (PStr ''Mufasa'') (PStr ''testrealm@host.com'') (PStr ''Circle Of Life'')
        (PStr ''dcd98b7102dd2f0e8b11d0f600bfb0c093'') (PStr ''0a4f113b'') PNone = Inl TypeError"
    by (simp add: calcHA1_def h_new_def algorithms_def bindE_def h_update_def)
  have d: "calcResponse E (PStr ''939e7578ed9e3c518a452acd0e9951a0'') ''md5''
        (PStr ''dcd98b7102dd2f0e8b11d0f600bfb0c093'') (PStr ''00000001'') (PStr ''0a4f113b'')
        (PStr ''auth'') (PStr ''GET'') (PStr ''/dir/index.html'') PNone = Inl TypeError"
    by (simp add: calcResponse_def h_new_def algorithms_def bindE_def h_update_def)
  show ?thesis using a b c d by blast
qed

subsection \<open>Nonce count\<close>

lemma getURI_keepsD:
  "getURI E self w = (uri, w') \<Longrightarrow>
   nc w' = nc w \<and> digestCache w' = digestCache w \<and> probes w' = probes w
   \<and> time_reads w' = time_reads w \<and> heap w' = heap w \<and> extrasubsdict w' = extrasubsdict w"
  by (auto simp: getURI_def Let_def split: if_splits)

lemma respond_keeps:
  "nc (snd (respond E self si d w)) = nc w
   \<and> digestCache (snd (respond E self si d w)) = digestCache w
   \<and> probes (snd (respond E self si d w)) = probes w
   \<and> time_reads (snd (respond E self si d w)) = time_reads w
   \<and> heap (snd (respond E self si d w)) = heap w
   \<and> extrasubsdict (snd (respond E self si d w)) = extrasubsdict w"
proof -
  let ?P = "\<lambda>w'. nc w' = nc w \<and> digestCache w' = digestCache w \<and> probes w' = probes w
     \<and> time_reads w' = time_reads w \<and> heap w' = heap w \<and> extrasubsdict w' = extrasubsdict w"
  obtain uri1 w2 where g1: "getURI E self w = (uri1, w2)" by (cases "getURI E self w")
  obtain uri2 w3 where g2: "getURI E self w2 = (uri2, w3)" by (cases "getURI E self w2")
  have p2: "?P w2" using getURI_keepsD[OF g1] by simp
  have p3: "?P w3" using getURI_keepsD[OF g2] p2 by simp
  have "snd (respond E self si d w) = w \<or> snd (respond E self si d w) = w2
      \<or> snd (respond E self si d w) = w3"
    unfolding respond_def Let_def g1 by (simp add: g2 split: sum.splits)
  then show ?thesis using p2 p3 by auto
qed

lemma count_and_store_qop:
  assumes "truthy (opt_pyval (params d ''qop''))"
  shows "nc (snd (count_and_store self si d w))
           = (nc w)(params d ''nonce'' \<mapsto> (case nc w (params d ''nonce'') of None \<Rightarrow> 1 | Some c \<Rightarrow> c + 1))"
    and "digestCache (snd (count_and_store self si d w)) (effective_user self si)
           = Some (fst (count_and_store self si d w))"
    and "params (fst (count_and_store self si d w)) ''nc''
           = Some (fmt_08x (case nc w (params d ''nonce'') of None \<Rightarrow> 1 | Some c \<Rightarrow> c + 1))"
    and "params (fst (count_and_store self si d w)) ''nonce'' = params d ''nonce''"
    and "params (fst (count_and_store self si d w)) ''qop'' = params d ''qop''"
    and "max_nonce_time (fst (count_and_store self si d w)) = max_nonce_time d"
    and "probes (snd (count_and_store self si d w)) = probes w"
  using assms by (simp_all add: count_and_store_def count_nonce_def Let_def)

lemma hex_digit_nth: "k < 16 \<Longrightarrow> hex_digit_val (''0123456789abcdef'' ! k) = k"
proof -
  assume "k < 16"
  then have "k = 0 \<or> k = 1 \<or> k = 2 \<or> k = 3 \<or> k = 4 \<or> k = 5 \<or> k = 6 \<or> k = 7 \<or> k = 8
      \<or> k = 9 \<or> k = 10 \<or> k = 11 \<or> k = 12 \<or> k = 13 \<or> k = 14 \<or> k = 15" by arith
  then show ?thesis by (auto simp: hex_digit_val_def)
qed

lemma hex_val_snoc: "hex_val (s @ [c]) = 16 * hex_val s + hex_digit_val c"
  by (simp add: hex_val_def)

lemma hex_val_hex_nat: "hex_val (hex_nat n) = n"
proof (induction n rule: hex_nat.induct)
  case (1 n)
  show ?case
  proof (cases "n < 16")
    case True
    then show ?thesis by (simp add: hex_nat.simps[of n] hex_val_def hex_digit_nth)
  next
    case False
    with 1 have ih: "hex_val (hex_nat (n div 16)) = n div 16" by simp
    have "n mod 16 < 16" by simp
    then have "hex_digit_val (''0123456789abcdef'' ! (n mod 16)) = n mod 16"
      by (rule hex_digit_nth)
    with ih False show ?thesis
      by (simp add: hex_nat.simps[of n] hex_val_snoc)
  qed
qed

lemma hex_val_zeros: "hex_val (replicate k CHR ''0'' @ s) = hex_val s"
proof (induction k)
  case 0
  then show ?case by simp
next
  case (Suc k)
  have z: "hex_digit_val CHR ''0'' = 0" by (simp add: hex_digit_val_def)
  have "foldl (\<lambda>a c. 16 * a + hex_digit_val c) 0 (CHR ''0'' # replicate k CHR ''0'' @ s)
      = foldl (\<lambda>a c. 16 * a + hex_digit_val c) 0 (replicate k CHR ''0'' @ s)"
    by (simp add: z)
  with Suc show ?case by (simp add: hex_val_def)
qed

lemma hex_val_fmt_08x: "0 \<le> i \<Longrightarrow> hex_val (fmt_08x i) = nat i"
  by (simp add: fmt_08x_def zero_pad_def hex_val_zeros hex_val_hex_nat)

lemma length_hex_nat: "n < 16 ^ Suc k \<Longrightarrow> length (hex_nat n) \<le> Suc k"
proof (induction k arbitrary: n)
  case 0
  then show ?case by (simp add: hex_nat.simps[of n])
next
  case (Suc k)
  show ?case
  proof (cases "n < 16")
    case True
    then show ?thesis by (simp add: hex_nat.simps[of n])
  next
    case False
    from Suc.prems have "n div 16 < 16 ^ Suc k" by (simp add: less_mult_imp_div_less)
    from Suc.IH[OF this] False show ?thesis by (simp add: hex_nat.simps[of n])
  qed
qed

lemma length_fmt_08x: "0 \<le> i \<Longrightarrow> i < 4294967296 \<Longrightarrow> length (fmt_08x i) = 8"
proof -
  assume i: "0 \<le> i" "i < 4294967296"
  then have "nat i < 16 ^ Suc 7" by simp
  from length_hex_nat[OF this] have "length (hex_nat (nat i)) \<le> 8" by simp
  with i show ?thesis by (simp add: fmt_08x_def zero_pad_def)
qed

lemma obtain_details_nc: "nc (snd (obtain_details E self si w)) = nc w"
proof -
  have h: "nc (snd (harvest E u items w')) = nc w'" for u items w'
    by (induction items) (auto simp: Let_def split: sum.splits)
  have p: "nc (snd (probe_challenge E self u w')) = nc w'" for u w'
    unfolding probe_challenge_def Let_def
    by (auto simp: h split: sum.splits prod.splits dest!: getURI_keepsD)
  show ?thesis
    unfolding obtain_details_def Let_def by (auto simp: p split: option.splits)
qed


lemma fmt_08x_first: "fmt_08x 1 = ''00000001''" "fmt_08x 2 = ''00000002''"
  by (simp_all add: fmt_08x_def hex_nat.simps zero_pad_def eval_nat_numeral)

lemma authorize_split:
  "authorize E self si d w = respond E self si (fst (count_and_store self si d w))
     (snd (count_and_store self si d w))"
  by (simp add: authorize_def split: prod.splits)

lemma authorize_probes: "probes (snd (authorize E self si d w)) = probes w"
  unfolding authorize_split
  by (simp add: respond_keeps count_and_store_def count_nonce_def Let_def split: prod.splits)

lemma authorize_qop:
  assumes "truthy (opt_pyval (params d ''qop''))"
  shows "nc (snd (authorize E self si d w))
           = (nc w)(params d ''nonce'' \<mapsto> (case nc w (params d ''nonce'') of None \<Rightarrow> 1 | Some c \<Rightarrow> c + 1))"
    and "\<exists>c. digestCache (snd (authorize E self si d w)) (effective_user self si) = Some c
           \<and> params c ''nc''
               = Some (fmt_08x (case nc w (params d ''nonce'') of None \<Rightarrow> 1 | Some c \<Rightarrow> c + 1))"
  unfolding authorize_split using count_and_store_qop[OF assms, of self si w]
  by (simp_all add: respond_keeps)

lemma gethttpdigestauth_details:
  "fst (obtain_details E self si w) = Inr (Some d) \<Longrightarrow>
   gethttpdigestauth E self si w = authorize E self si d (snd (obtain_details E self si w))"
  by (cases "obtain_details E self si w") (simp add: gethttpdigestauth_def)

lemma calcHA1_str_user:
  "calcHA1 E alg (PStr u) r p n c PNone
     = Inl (if algorithms alg = None then KeyError else TypeError)"
proof (cases "algorithms alg")
  case None
  then show ?thesis by (simp add: calcHA1_def h_new_def bindE_def)
next
  case (Some a)
  have "h_updates \<lparr>h_alg = a, h_buf = []\<rparr> [PStr u, PStr '':'', r, PStr '':'', p] = Inl TypeError"
    by (rule h_updates_first_str)
  then show ?thesis using Some by (simp add: calcHA1_def h_new_def bindE_def del: h_updates.simps)
qed

lemma respond_raises:
  "respond E self si d w
     = (Inl (if algorithms (case params d ''algorithm'' of None \<Rightarrow> ''md5'' | Some a \<Rightarrow> a) = None
             then KeyError else TypeError), w)"
  unfolding respond_def Let_def calcHA1_str_user by simp

lemma count_and_store_algorithm:
  "params (fst (count_and_store self si d w)) ''algorithm'' = params d ''algorithm''"
  by (simp add: count_and_store_def count_nonce_def Let_def)

lemma authorize_raises:
  "fst (authorize E self si d w)
     = Inl (if algorithms (case params d ''algorithm'' of None \<Rightarrow> ''md5'' | Some a \<Rightarrow> a) = None
            then KeyError else TypeError)"
  unfolding authorize_split respond_raises count_and_store_algorithm by simp

lemma digest_header_nc:
  assumes "params c ''nc'' = Some x"
  shows "suffix ('', nc='' @ x) (digest_header True u c uri digest)"
proof -
  have g: "fmt_s (opt_pyval (params c ''nc'')) = x"
    by (simp add: assms opt_pyval_def fmt_s_def)
  show ?thesis
    unfolding digest_header_def Let_def if_True g
    by (rule suffix_order.refl | rule suffix_appendI)+
qed

lemma harvest_first_digest:
  assumes "\<forall>i \<in> set pre. \<not> prefix ''digest '' (py_lower i)"
    and "prefix ''digest '' (py_lower item)"
    and "parse_challenge (drop 7 item) = Inr ps"
  shows "harvest E u (pre @ item # rest) w
     = (Inr (Some \<lparr>params = ps(''max-nonce-time'' := None),
                    max_nonce_time = float_add E (time E (time_reads w)) 600\<rparr>),
        w\<lparr>digestCache := (digestCache w)(u \<mapsto>
             \<lparr>params = ps(''max-nonce-time'' := None),
              max_nonce_time = float_add E (time E (time_reads w)) 600\<rparr>),
          time_reads := Suc (time_reads w)\<rparr>)"
proof -
  have here: "harvest E u (item # rest) w
     = (Inr (Some \<lparr>params = ps(''max-nonce-time'' := None),
                    max_nonce_time = float_add E (time E (time_reads w)) 600\<rparr>),
        w\<lparr>digestCache := (digestCache w)(u \<mapsto>
             \<lparr>params = ps(''max-nonce-time'' := None),
              max_nonce_time = float_add E (time E (time_reads w)) 600\<rparr>),
          time_reads := Suc (time_reads w)\<rparr>)"
    using assms(2,3) by (simp add: Let_def)
  have skip: "harvest E u (pre @ item # rest) w = harvest E u (item # rest) w"
    using assms(1) by (induction pre) (simp_all del: harvest.simps add: harvest.simps(2)[of E u _ "_ @ _"])
  show ?thesis unfolding skip by (rule here)
qed

lemma probe_challenge_digest:
  assumes "http_options E (length (probes w)) (quote_path E (fst (getURI E self w))) = Inr resp"
    and "status resp = 401" and "www_authenticate resp = pre @ item # rest"
    and "\<forall>i \<in> set pre. \<not> prefix ''digest '' (py_lower i)"
    and "prefix ''digest '' (py_lower item)"
    and "parse_challenge (drop 7 item) = Inr ps"
  shows "fst (probe_challenge E self u w)
           = Inr (Some \<lparr>params = ps(''max-nonce-time'' := None),
                         max_nonce_time = float_add E (time E (time_reads w)) 600\<rparr>)"
    and "digestCache (snd (probe_challenge E self u w)) u
           = Some \<lparr>params = ps(''max-nonce-time'' := None),
                   max_nonce_time = float_add E (time E (time_reads w)) 600\<rparr>"
    and "digestCache (snd (probe_challenge E self u w))
           = (digestCache w)(u \<mapsto> \<lparr>params = ps(''max-nonce-time'' := None),
                   max_nonce_time = float_add E (time E (time_reads w)) 600\<rparr>)"
proof -
  obtain uri w1 where g: "getURI E self w = (uri, w1)" by (cases "getURI E self w")
  from getURI_keepsD[OF g] have k: "probes w1 = probes w" "time_reads w1 = time_reads w"
    "digestCache w1 = digestCache w"
    by simp_all
  let ?w2 = "w1\<lparr>probes := probes w1 @ [(''OPTIONS'', quote_path E uri)]\<rparr>"
  from assms(1) have o: "http_options E (length (probes w1)) (quote_path E uri) = Inr resp"
    by (simp add: g k)
  have p: "probe_challenge E self u w = harvest E u (pre @ item # rest) ?w2"
    unfolding probe_challenge_def g Let_def using o assms(2,3) by simp
  note h = harvest_first_digest[OF assms(4,5,6), of E u rest ?w2]
  show "fst (probe_challenge E self u w)
           = Inr (Some \<lparr>params = ps(''max-nonce-time'' := None),
                         max_nonce_time = float_add E (time E (time_reads w)) 600\<rparr>)"
    unfolding p h by (simp add: k)
  show "digestCache (snd (probe_challenge E self u w)) u
           = Some \<lparr>params = ps(''max-nonce-time'' := None),
                   max_nonce_time = float_add E (time E (time_reads w)) 600\<rparr>"
    unfolding p h by (simp add: k)
  show "digestCache (snd (probe_challenge E self u w))
           = (digestCache w)(u \<mapsto> \<lparr>params = ps(''max-nonce-time'' := None),
                   max_nonce_time = float_add E (time E (time_reads w)) 600\<rparr>)"
    unfolding p h by (simp add: k)
qed

lemma obtain_details_probe:
  assumes "digestCache w (effective_user self si) = None"
    and "http_options E (length (probes w)) (quote_path E (fst (getURI E self w))) = Inr resp"
    and "status resp = 401" and "www_authenticate resp = pre @ item # rest"
    and "\<forall>i \<in> set pre. \<not> prefix ''digest '' (py_lower i)"
    and "prefix ''digest '' (py_lower item)"
    and "parse_challenge (drop 7 item) = Inr ps"
  shows "fst (obtain_details E self si w)
           = Inr (Some \<lparr>params = ps(''max-nonce-time'' := None),
                         max_nonce_time = float_add E (time E (time_reads w)) 600\<rparr>)"
    and "digestCache (snd (obtain_details E self si w))
           = (digestCache w)(effective_user self si \<mapsto>
                \<lparr>params = ps(''max-nonce-time'' := None),
                 max_nonce_time = float_add E (time E (time_reads w)) 600\<rparr>)"
proof -
  have o: "obtain_details E self si w = probe_challenge E self (effective_user self si) w"
    unfolding obtain_details_def Let_def using assms(1) by simp
  note p = probe_challenge_digest[OF assms(2-7), of "effective_user self si"]
  show "fst (obtain_details E self si w)
           = Inr (Some \<lparr>params = ps(''max-nonce-time'' := None),
                         max_nonce_time = float_add E (time E (time_reads w)) 600\<rparr>)"
    unfolding o by (rule p(1))
  show "digestCache (snd (obtain_details E self si w))
           = (digestCache w)(effective_user self si \<mapsto>
                \<lparr>params = ps(''max-nonce-time'' := None),
                 max_nonce_time = float_add E (time E (time_reads w)) 600\<rparr>)"
    unfolding o by (rule p(3))
qed

lemma authorize_cache_other:
  "u' \<noteq> effective_user self si \<Longrightarrow>
   digestCache (snd (authorize E self si d w)) u' = digestCache w u'"
  unfolding authorize_split
  by (simp add: respond_keeps count_and_store_def count_nonce_def Let_def split: prod.splits)

text \<open>
  C2 (the code at the claim's inputs). Whenever the challenge that \<^verbatim>\<open>gethttpdigestauth\<close> gets
  hold of has \<^verbatim>\<open>qop\<close> set, the class-level table is set at the nonce to one more than before
  (to 1 on first use), whatever the request and its user, and the \<^verbatim>\<open>nc\<close> that the cached
  challenge then carries is that count in hexadecimal: eight characters below 2^32,
  denoting the count, the first two being 00000001 and 00000002. The header that is
  formatted from the cached challenge would end with that \<^verbatim>\<open>nc\<close>. But no request carries it:
  the first \<^verbatim>\<open>update\<close> of \<^verbatim>\<open>calcHA1\<close> is handed the user name, a \<^verbatim>\<open>str\<close>, so that
  \<^verbatim>\<open>gethttpdigestauth\<close> raises TypeError (KeyError for an algorithm that is not in the table)
  after it has counted, and returns no Authorization header; the next call for the same
  nonce, of whatever request, counts again and raises again.
\<close>

theorem nonce_counted_but_not_sent:
  fixes E :: env and self self' :: request and si si' :: serverinfo and d d' :: details
    and w :: world
  defines "k \<equiv> params d ''nonce''"
  defines "n \<equiv> (case nc w k of None \<Rightarrow> 1 | Some c \<Rightarrow> c + 1)"
  defines "w1 \<equiv> snd (gethttpdigestauth E self si w)"
  defines "w2 \<equiv> snd (gethttpdigestauth E self' si' w1)"
  assumes o1: "fst (obtain_details E self si w) = Inr (Some d)"
    and q1: "truthy (opt_pyval (params d ''qop''))"
    and o2: "fst (obtain_details E self' si' w1) = Inr (Some d')"
    and q2: "truthy (opt_pyval (params d' ''qop''))"
    and same: "params d' ''nonce'' = params d ''nonce''"
    and counted: "\<forall>c. nc w (params d ''nonce'') = Some c \<longrightarrow> 0 < c"
  shows "(\<exists>e. fst (gethttpdigestauth E self si w) = Inl e)
     \<and> (\<exists>e. fst (gethttpdigestauth E self' si' w1) = Inl e)
     \<and> (algorithms (case params d ''algorithm'' of None \<Rightarrow> ''md5'' | Some a \<Rightarrow> a) \<noteq> None
          \<longrightarrow> fst (gethttpdigestauth E self si w) = Inl TypeError)
     \<and> (algorithms (case params d' ''algorithm'' of None \<Rightarrow> ''md5'' | Some a \<Rightarrow> a) \<noteq> None
          \<longrightarrow> fst (gethttpdigestauth E self' si' w1) = Inl TypeError)
     \<and> nc w1 = (nc w)(k \<mapsto> n)
     \<and> (\<exists>c. digestCache w1 (effective_user self si) = Some c \<and> params c ''nc'' = Some (fmt_08x n)
            \<and> (\<forall>uri digest. suffix ('', nc='' @ fmt_08x n)
                   (digest_header True (effective_user self si) c uri digest)))
     \<and> nc w2 = (nc w)(k \<mapsto> n + 1)
     \<and> (\<exists>c. digestCache w2 (effective_user self' si') = Some c
            \<and> params c ''nc'' = Some (fmt_08x (n + 1))
            \<and> (\<forall>uri digest. suffix ('', nc='' @ fmt_08x (n + 1))
                   (digest_header True (effective_user self' si') c uri digest)))
     \<and> 0 < n \<and> hex_val (fmt_08x n) = nat n \<and> hex_val (fmt_08x (n + 1)) = nat n + 1
     \<and> hex_val (fmt_08x n) < hex_val (fmt_08x (n + 1))
     \<and> (n + 1 < 4294967296 \<longrightarrow> length (fmt_08x n) = 8 \<and> length (fmt_08x (n + 1)) = 8)
     \<and> (nc w k = None \<longrightarrow> fmt_08x n = ''00000001'' \<and> fmt_08x (n + 1) = ''00000002'')"
proof -
  let ?wo = "snd (obtain_details E self si w)"
  let ?wo' = "snd (obtain_details E self' si' w1)"
  note g1 = gethttpdigestauth_details[OF o1]
  note g2 = gethttpdigestauth_details[OF o2]
  have nco: "nc ?wo = nc w" "nc ?wo' = nc w1" by (rule obtain_details_nc)+
  have r1: "\<exists>e. fst (gethttpdigestauth E self si w) = Inl e"
    unfolding g1 authorize_raises by blast
  have r2: "\<exists>e. fst (gethttpdigestauth E self' si' w1) = Inl e"
    unfolding g2 authorize_raises by blast
  have r3: "algorithms (case params d ''algorithm'' of None \<Rightarrow> ''md5'' | Some a \<Rightarrow> a) \<noteq> None
          \<longrightarrow> fst (gethttpdigestauth E self si w) = Inl TypeError"
    unfolding g1 authorize_raises by simp
  have r4: "algorithms (case params d' ''algorithm'' of None \<Rightarrow> ''md5'' | Some a \<Rightarrow> a) \<noteq> None
          \<longrightarrow> fst (gethttpdigestauth E self' si' w1) = Inl TypeError"
    unfolding g2 authorize_raises by simp
  have a: "nc w1 = (nc w)(k \<mapsto> n)"
    unfolding w1_def g1 k_def n_def
    using authorize_qop(1)[OF q1, of E self si ?wo] by (simp add: nco)
  have b0: "\<exists>c. digestCache w1 (effective_user self si) = Some c \<and> params c ''nc'' = Some (fmt_08x n)"
    unfolding w1_def g1 k_def n_def
    using authorize_qop(2)[OF q1, of E self si ?wo] by (simp add: nco)
  have b: "\<exists>c. digestCache w1 (effective_user self si) = Some c \<and> params c ''nc'' = Some (fmt_08x n)
            \<and> (\<forall>uri digest. suffix ('', nc='' @ fmt_08x n)
                   (digest_header True (effective_user self si) c uri digest))"
    using b0 digest_header_nc by blast
  have k': "params d' ''nonce'' = k" unfolding k_def by (rule same)
  have n1: "(case nc w1 k of None \<Rightarrow> 1 | Some c \<Rightarrow> c + 1) = n + 1" by (simp add: a)
  have c: "nc w2 = (nc w)(k \<mapsto> n + 1)"
    unfolding w2_def g2
    using authorize_qop(1)[OF q2, of E self' si' ?wo'] by (simp add: nco k' n1 a)
  have e0: "\<exists>c. digestCache w2 (effective_user self' si') = Some c
            \<and> params c ''nc'' = Some (fmt_08x (n + 1))"
    unfolding w2_def g2
    using authorize_qop(2)[OF q2, of E self' si' ?wo'] by (simp add: nco k' n1)
  have e: "\<exists>c. digestCache w2 (effective_user self' si') = Some c
            \<and> params c ''nc'' = Some (fmt_08x (n + 1))
            \<and> (\<forall>uri digest. suffix ('', nc='' @ fmt_08x (n + 1))
                   (digest_header True (effective_user self' si') c uri digest))"
    using e0 digest_header_nc by blast
  have pos: "0 < n" using counted unfolding n_def k_def by (auto split: option.splits)
  then have h: "hex_val (fmt_08x n) = nat n" "hex_val (fmt_08x (n + 1)) = nat n + 1"
    by (simp_all add: hex_val_fmt_08x nat_add_distrib)
  have l: "n + 1 < 4294967296 \<longrightarrow> length (fmt_08x n) = 8 \<and> length (fmt_08x (n + 1)) = 8"
    using pos by (simp add: length_fmt_08x)
  have first: "nc w k = None \<longrightarrow> fmt_08x n = ''00000001'' \<and> fmt_08x (n + 1) = ''00000002''"
    unfolding n_def by (simp add: fmt_08x_first)
  show ?thesis using r1 r2 r3 r4 a b c e pos h l first by simp
qed

lemma auth_details_fields:
  "params auth_details ''qop'' = Some ''auth''" "params auth_details ''nonce'' = Some ''n1''"
  "params auth_details ''algorithm'' = None" "max_nonce_time auth_details = 600"
  by (simp_all add: auth_details_def)

lemma cached_world_fields:
  "digestCache cached_world ''alice'' = Some auth_details" "probes cached_world = []"
  "time_reads cached_world = 0" "extrasubsdict cached_world = []"
  "nc cached_world = [Some ''n1'' \<mapsto> 1]"
  by (simp_all add: cached_world_def world_init_def)

lemma alice_request_fields:
  "effective_user alice_request basic_si = ''alice''" "ruri alice_request = ''/cal/''"
  by (simp_all add: effective_user_def alice_request_def request_init_def)

lemma env_at_fields:
  "time (env_at t) = (\<lambda>i. t)" "extrasubs_fn (env_at t) = (\<lambda>tbl s. s)"
  "quote_path (env_at t) = (\<lambda>s. s)" "float_add (env_at t) = (\<lambda>a b. a + b)"
  "http_options (env_at t)
     = (\<lambda>i uri. Inr \<lparr>status = 401,
                      www_authenticate = [''Basic realm=x'', digest_challenge]\<rparr>)"
  by (simp_all add: env_at_def env_init_def)

lemma alice_getURI: "getURI (env_at t) alice_request w = (''/cal/'', w)"
  by (simp add: getURI_def env_at_fields alice_request_fields sublist_code)

lemma digest_challenge_parsed:
  "prefix ''digest '' (py_lower digest_challenge)"
  "\<not> prefix ''digest '' (py_lower ''Basic realm=x'')"
  "parse_challenge (drop 7 digest_challenge)
     = Inr [''realm'' \<mapsto> ''cal'', ''nonce'' \<mapsto> ''n2'', ''qop'' \<mapsto> ''auth'']"
proof -
  show "prefix ''digest '' (py_lower digest_challenge)"
    by (simp add: digest_challenge_def py_lower_def)
  show "\<not> prefix ''digest '' (py_lower ''Basic realm=x'')"
    by (simp add: py_lower_def)
  have k: "py_strip ''realm'' = ''realm''" "py_strip '' nonce'' = ''nonce''"
    "py_strip '' qop'' = ''qop''"
    by (simp_all add: py_strip_def strip_left.simps white_space_def)
  have v: "py_strip (CHR 0x22 # x @ [CHR 0x22]) = CHR 0x22 # x @ [CHR 0x22]" for x
    by (simp add: py_strip_def strip_left.simps white_space_def)
  have q: "unq (CHR 0x22 # x @ [CHR 0x22]) = Inr x" for x
    by (simp add: unq_def)
  have s: "map (split_once CHR ''='') (split_on CHR '','' (drop 7 digest_challenge))
      = [[''realm'', CHR 0x22 # ''cal'' @ [CHR 0x22]],
         ['' nonce'', CHR 0x22 # ''n2'' @ [CHR 0x22]],
         ['' qop'', CHR 0x22 # ''auth'' @ [CHR 0x22]]]"
    by (simp add: digest_challenge_def split_once_def)
  show "parse_challenge (drop 7 digest_challenge)
     = Inr [''realm'' \<mapsto> ''cal'', ''nonce'' \<mapsto> ''n2'', ''qop'' \<mapsto> ''auth'']"
    unfolding parse_challenge_def s
    by (simp add: k v q bindE_def del: append.simps)
qed

lemma admin_request_fields:

  "effective_user admin_request basic_si = ''admin''" "ruri admin_request = ''/cal/''"
  by (simp_all add: effective_user_def admin_request_def request_init_def basic_si_def)

lemma admin_getURI: "getURI (env_at t) admin_request w = (''/cal/'', w)"
  by (simp add: getURI_def env_at_fields admin_request_fields sublist_code)

theorem nonce_counted_but_not_sent_witness:
  "(let wA = snd (gethttpdigestauth (env_at 0) alice_request basic_si world_init);
        wB = snd (gethttpdigestauth (env_at 0) admin_request basic_si wA)
    in fst (gethttpdigestauth (env_at 0) alice_request basic_si world_init) = Inl TypeError
       \<and> nc wA (Some ''n2'') = Some 1
       \<and> (\<exists>c. digestCache wA ''alice'' = Some c \<and> params c ''nc'' = Some ''00000001''
              \<and> (\<forall>uri digest. suffix '', nc=00000001''
                     (digest_header True ''alice'' c uri digest)))
       \<and> fst (gethttpdigestauth (env_at 0) admin_request basic_si wA) = Inl TypeError
       \<and> nc wB (Some ''n2'') = Some 2
       \<and> (\<exists>c. digestCache wB ''admin'' = Some c \<and> params c ''nc'' = Some ''00000002''
              \<and> (\<forall>uri digest. suffix '', nc=00000002''
                     (digest_header True ''admin'' c uri digest)))
       \<and> length (fmt_08x 1) = 8 \<and> length (fmt_08x (1 + 1)) = 8
       \<and> hex_val (fmt_08x 1) < hex_val (fmt_08x (1 + 1)))"
proof -
  define D where "D = \<lparr>params = [''realm'' \<mapsto> ''cal'', ''nonce'' \<mapsto> ''n2'', ''qop'' \<mapsto> ''auth''],
      max_nonce_time = 600\<rparr>"
  define wA where "wA = snd (gethttpdigestauth (env_at 0) alice_request basic_si world_init)"
  define wB where "wB = snd (gethttpdigestauth (env_at 0) admin_request basic_si wA)"
  have Df: "params D ''qop'' = Some ''auth''" "params D ''nonce'' = Some ''n2''"
    "params D ''algorithm'' = None"
    by (simp_all add: D_def)
  have mk: "[''realm'' \<mapsto> ''cal'', ''nonce'' \<mapsto> ''n2'', ''qop'' \<mapsto> ''auth''](''max-nonce-time'' := None)
      = [''realm'' \<mapsto> ''cal'', ''nonce'' \<mapsto> ''n2'', ''qop'' \<mapsto> (''auth'' :: string)]"
    by (rule ext) simp
  have resp: "http_options (env_at 0) i uri
      = Inr \<lparr>status = 401, www_authenticate = [''Basic realm=x'', digest_challenge]\<rparr>" for i uri
    by (simp add: env_at_fields)
  have st: "status \<lparr>status = 401, www_authenticate = [''Basic realm=x'', digest_challenge]\<rparr> = 401"
    by simp
  have ww: "www_authenticate \<lparr>status = 401, www_authenticate = [''Basic realm=x'', digest_challenge]\<rparr>
      = [''Basic realm=x''] @ digest_challenge # []"
    by simp
  have np: "\<forall>i \<in> set [''Basic realm=x'']. \<not> prefix ''digest '' (py_lower i)"
    using digest_challenge_parsed(2) by simp
  have c0: "digestCache world_init (effective_user alice_request basic_si) = None"
    by (simp add: world_init_def)
  note p1 = obtain_details_probe[OF c0 resp st ww np digest_challenge_parsed(1,3),
      unfolded mk env_at_fields alice_request_fields]
  have o1: "fst (obtain_details (env_at 0) alice_request basic_si world_init) = Inr (Some D)"
    using p1(1) by (simp add: D_def)
  have q: "truthy (opt_pyval (params D ''qop''))"
    by (simp add: Df opt_pyval_def)
  have al: "algorithms (case params D ''algorithm'' of None \<Rightarrow> ''md5'' | Some a \<Rightarrow> a) \<noteq> None"
    by (simp add: Df algorithms_def)
  have cA: "digestCache wA ''admin'' = None"
  proof -
    have "digestCache wA ''admin''
        = digestCache (snd (obtain_details (env_at 0) alice_request basic_si world_init)) ''admin''"
      unfolding wA_def gethttpdigestauth_details[OF o1]
      by (rule authorize_cache_other) (simp add: alice_request_fields)
    also have "\<dots> = None" unfolding p1(2) by (simp add: world_init_def)
    finally show ?thesis .
  qed
  have cA': "digestCache wA (effective_user admin_request basic_si) = None"
    unfolding admin_request_fields by (rule cA)
  note p2 = obtain_details_probe[OF cA' resp st ww np digest_challenge_parsed(1,3),
      unfolded mk env_at_fields admin_request_fields]
  have o2: "fst (obtain_details (env_at 0) admin_request basic_si wA) = Inr (Some D)"
    using p2(1) by (simp add: D_def)
  have pos: "\<forall>c. nc world_init (params D ''nonce'') = Some c \<longrightarrow> 0 < c"
    by (simp add: world_init_def)
  have n0: "nc world_init (Some ''n2'') = None" by (simp add: world_init_def)
  note t = nonce_counted_but_not_sent[where E = "env_at 0" and self = alice_request
      and si = basic_si and self' = admin_request and si' = basic_si and w = world_init
      and d = D and d' = D, OF o1 q o2[unfolded wA_def] q refl pos,
      folded wA_def, folded wB_def, unfolded Df n0 option.case alice_request_fields
        admin_request_fields]
  have one: "(1 :: int) + 1 < 4294967296" by simp
  have x1: "fst (gethttpdigestauth (env_at 0) alice_request basic_si world_init) = Inl TypeError"
    using t[THEN conjunct2, THEN conjunct2, THEN conjunct1] by (simp add: algorithms_def)
  have x2: "fst (gethttpdigestauth (env_at 0) admin_request basic_si wA) = Inl TypeError"
    using t[THEN conjunct2, THEN conjunct2, THEN conjunct2, THEN conjunct1]
    by (simp add: algorithms_def)
  note t5 = t[THEN conjunct2, THEN conjunct2, THEN conjunct2, THEN conjunct2]
  have x3: "nc wA (Some ''n2'') = Some 1"
    using t5[THEN conjunct1] by simp
  have x4: "\<exists>c. digestCache wA ''alice'' = Some c \<and> params c ''nc'' = Some ''00000001''
              \<and> (\<forall>uri digest. suffix '', nc=00000001''
                     (digest_header True ''alice'' c uri digest))"
    using t5[THEN conjunct2, THEN conjunct1, unfolded fmt_08x_first]
    by (simp del: suffix_Cons)
  have x5: "nc wB (Some ''n2'') = Some 2"
    using t5[THEN conjunct2, THEN conjunct2, THEN conjunct1] by simp
  have x6: "\<exists>c. digestCache wB ''admin'' = Some c \<and> params c ''nc'' = Some ''00000002''
              \<and> (\<forall>uri digest. suffix '', nc=00000002''
                     (digest_header True ''admin'' c uri digest))"
    using t5[THEN conjunct2, THEN conjunct2, THEN conjunct2, THEN conjunct1, simplified,
        unfolded fmt_08x_first]
    by (simp del: suffix_Cons)
  note t9 = t5[THEN conjunct2, THEN conjunct2, THEN conjunct2, THEN conjunct2]
  have x7: "length (fmt_08x 1) = 8 \<and> length (fmt_08x (1 + 1)) = 8"
    using t9 one by blast
  have x8: "hex_val (fmt_08x 1) < hex_val (fmt_08x (1 + 1))"
    using t9 by blast
  show ?thesis
    unfolding Let_def wA_def[symmetric] wB_def[symmetric]
    using x1 x2 x3 x4 x5 x6 x7 x8 by blast
qed

subsection \<open>Digest challenge cache\<close>

lemma harvest_probes: "probes (snd (harvest E u items w)) = probes w"
  by (induction items) (auto simp: Let_def split: sum.splits)

lemma harvest_captured:
  "harvest E u items w = (Inr (Some d), w') \<Longrightarrow>
   max_nonce_time d = float_add E (time E (time_reads w)) 600 \<and> digestCache w' u = Some d
   \<and> time_reads w' = Suc (time_reads w)"
  by (induction items) (auto simp: Let_def split: sum.splits if_splits)

lemma probe_challenge_probes:
  "probes (snd (probe_challenge E self u w))
     = probes w @ [(''OPTIONS'', quote_path E (fst (getURI E self w)))]"
proof -
  obtain uri w1 where g: "getURI E self w = (uri, w1)" by (cases "getURI E self w")
  from getURI_keepsD[OF g] have p: "probes w1 = probes w" by simp
  show ?thesis
    unfolding probe_challenge_def g Let_def
    by (simp add: harvest_probes p split: sum.splits)
qed

lemma probe_challenge_captured:
  assumes "probe_challenge E self u w = (Inr (Some d), w')"
  shows "max_nonce_time d = float_add E (time E (time_reads w)) 600 \<and> digestCache w' u = Some d"
proof -
  obtain uri w1 where g: "getURI E self w = (uri, w1)" by (cases "getURI E self w")
  from getURI_keepsD[OF g] have t: "time_reads w1 = time_reads w" by simp
  let ?w2 = "w1\<lparr>probes := probes w1 @ [(''OPTIONS'', quote_path E uri)]\<rparr>"
  from assms have "\<exists>items. harvest E u items ?w2 = (Inr (Some d), w')"
    unfolding probe_challenge_def g Let_def
    by (auto split: sum.splits if_splits)
  then obtain items where "harvest E u items ?w2 = (Inr (Some d), w')" by blast
  from harvest_captured[OF this] t show ?thesis by simp
qed

lemma gethttpdigestauth_probes:
  "probes (snd (gethttpdigestauth E self si w)) = probes (snd (obtain_details E self si w))"
  by (cases "obtain_details E self si w")
     (auto simp: gethttpdigestauth_def authorize_probes split: sum.splits option.splits)

text \<open>
  C3. The cached challenge of the user is reused exactly when the cache has an entry for
  the user whose \<^verbatim>\<open>max-nonce-time\<close> is greater than the clock: then no probe is sent and the
  rest of the function, which builds the Authorization, works on that entry. In every other
  case (no entry, or a clock at or past \<^verbatim>\<open>max-nonce-time\<close>) exactly one \<^verbatim>\<open>OPTIONS\<close> request is
  sent first. When its answer has status 401, the first of its \<^verbatim>\<open>WWW-Authenticate\<close> headers
  that starts with \<^verbatim>\<open>digest\<close> and a space is parsed, and what it parses to is cached for the
  user with \<^verbatim>\<open>max-nonce-time\<close> set to the float sum of the clock at capture and 600; the rest
  of the function then works on this new entry. An entry captured at \<open>t\<close> is therefore
  reused at \<open>now\<close> exactly when \<open>now\<close> is less than the float sum of \<open>t\<close> and 600, which is
  \<open>t + 600\<close> whenever that sum is a float. In general the float sum is the exact sum
  rounded, by a rounding \<open>rnd\<close> that is monotone and leaves the float \<open>now\<close> as it is: then the
  probe is sent whenever \<open>t + 600 \<le> now\<close>, and the entry is reused whenever \<open>now < t + 600\<close>
  unless the sum rounds down to \<open>now\<close> itself.
\<close>

theorem digest_cache_reuse:
  fixes E :: env and self :: request and si :: serverinfo and w :: world
  defines "u \<equiv> effective_user self si"
  defines "now \<equiv> time E (time_reads w)"
  defines "w0 \<equiv> w\<lparr>time_reads := Suc (time_reads w)\<rparr>"
  defines "wp \<equiv> (case digestCache w u of None \<Rightarrow> w | Some c \<Rightarrow> w0)"
  shows "(digestCache w u = Some d \<and> max_nonce_time d > now
            \<longrightarrow> obtain_details E self si w = (Inr (Some d), w0)
              \<and> gethttpdigestauth E self si w = authorize E self si d w0
              \<and> probes (snd (gethttpdigestauth E self si w)) = probes w)
     \<and> (digestCache w u = None
            \<longrightarrow> obtain_details E self si w = probe_challenge E self u w
              \<and> probes (snd (gethttpdigestauth E self si w))
                  = probes w @ [(''OPTIONS'', quote_path E (fst (getURI E self w)))])
     \<and> (digestCache w u = Some d \<and> max_nonce_time d \<le> now
            \<longrightarrow> obtain_details E self si w = probe_challenge E self u w0
              \<and> probes (snd (gethttpdigestauth E self si w))
                  = probes w @ [(''OPTIONS'', quote_path E (fst (getURI E self w0)))])
     \<and> ((probes (snd (gethttpdigestauth E self si w)) = probes w)
          = (\<exists>c. digestCache w u = Some c \<and> max_nonce_time c > now))
     \<and> (digestCache w u = Some d \<and> max_nonce_time d = float_add E t 600
            \<longrightarrow> ((probes (snd (gethttpdigestauth E self si w)) = probes w)
                   = (now < float_add E t 600))
              \<and> (float_add E t 600 = t + 600
                   \<longrightarrow> (probes (snd (gethttpdigestauth E self si w)) = probes w)
                         = (now < t + 600)))
     \<and> (digestCache w u = Some d \<and> max_nonce_time d = float_add E t 600
          \<and> float_add E t 600 = rnd (t + 600) \<and> mono rnd \<and> rnd now = now
            \<longrightarrow> (t + 600 \<le> now
                   \<longrightarrow> probes (snd (gethttpdigestauth E self si w)) \<noteq> probes w)
              \<and> (now < t + 600 \<and> float_add E t 600 \<noteq> now
                   \<longrightarrow> probes (snd (gethttpdigestauth E self si w)) = probes w))
     \<and> (\<not> (\<exists>c. digestCache w u = Some c \<and> max_nonce_time c > now)
          \<and> obtain_details E self si w = (Inr (Some d'), w')
            \<longrightarrow> max_nonce_time d' = float_add E (time E (time_reads wp)) 600
              \<and> digestCache w' u = Some d')
     \<and> (\<not> (\<exists>c. digestCache w u = Some c \<and> max_nonce_time c > now)
          \<and> http_options E (length (probes w)) (quote_path E (fst (getURI E self wp))) = Inr resp
          \<and> status resp = 401 \<and> www_authenticate resp = pre @ item # rest
          \<and> (\<forall>i \<in> set pre. \<not> prefix ''digest '' (py_lower i))
          \<and> prefix ''digest '' (py_lower item)
          \<and> parse_challenge (drop 7 item) = Inr ps
            \<longrightarrow> fst (obtain_details E self si w)
                  = Inr (Some \<lparr>params = ps(''max-nonce-time'' := None),
                                max_nonce_time = float_add E (time E (time_reads wp)) 600\<rparr>)
              \<and> digestCache (snd (obtain_details E self si w)) u
                  = Some \<lparr>params = ps(''max-nonce-time'' := None),
                          max_nonce_time = float_add E (time E (time_reads wp)) 600\<rparr>
              \<and> gethttpdigestauth E self si w
                  = authorize E self si
                      \<lparr>params = ps(''max-nonce-time'' := None),
                       max_nonce_time = float_add E (time E (time_reads wp)) 600\<rparr>
                      (snd (obtain_details E self si w)))"
proof -
  have hit: "digestCache w u = Some d \<and> max_nonce_time d > now
            \<longrightarrow> obtain_details E self si w = (Inr (Some d), w0)
              \<and> gethttpdigestauth E self si w = authorize E self si d w0
              \<and> probes (snd (gethttpdigestauth E self si w)) = probes w" for d
  proof
    assume a: "digestCache w u = Some d \<and> max_nonce_time d > now"
    then have o: "obtain_details E self si w = (Inr (Some d), w0)"
      unfolding obtain_details_def u_def now_def w0_def Let_def by simp
    then have g: "gethttpdigestauth E self si w = authorize E self si d w0"
      by (simp add: gethttpdigestauth_def)
    have "probes (snd (gethttpdigestauth E self si w)) = probes w"
      unfolding g by (simp add: authorize_probes w0_def)
    with o g show "obtain_details E self si w = (Inr (Some d), w0)
              \<and> gethttpdigestauth E self si w = authorize E self si d w0
              \<and> probes (snd (gethttpdigestauth E self si w)) = probes w" by simp
  qed
  have none: "digestCache w u = None
            \<longrightarrow> obtain_details E self si w = probe_challenge E self u w
              \<and> probes (snd (gethttpdigestauth E self si w))
                  = probes w @ [(''OPTIONS'', quote_path E (fst (getURI E self w)))]"
  proof
    assume a: "digestCache w u = None"
    then have o: "obtain_details E self si w = probe_challenge E self u w"
      unfolding obtain_details_def u_def Let_def by simp
    show "obtain_details E self si w = probe_challenge E self u w
              \<and> probes (snd (gethttpdigestauth E self si w))
                  = probes w @ [(''OPTIONS'', quote_path E (fst (getURI E self w)))]"
      unfolding gethttpdigestauth_probes o by (simp add: probe_challenge_probes)
  qed
  have stale: "digestCache w u = Some d \<and> max_nonce_time d \<le> now
            \<longrightarrow> obtain_details E self si w = probe_challenge E self u w0
              \<and> probes (snd (gethttpdigestauth E self si w))
                  = probes w @ [(''OPTIONS'', quote_path E (fst (getURI E self w0)))]" for d
  proof
    assume a: "digestCache w u = Some d \<and> max_nonce_time d \<le> now"
    then have o: "obtain_details E self si w = probe_challenge E self u w0"
      unfolding obtain_details_def u_def now_def w0_def Let_def by simp
    show "obtain_details E self si w = probe_challenge E self u w0
              \<and> probes (snd (gethttpdigestauth E self si w))
                  = probes w @ [(''OPTIONS'', quote_path E (fst (getURI E self w0)))]"
      unfolding gethttpdigestauth_probes o by (simp add: probe_challenge_probes w0_def)
  qed
  have iff: "(probes (snd (gethttpdigestauth E self si w)) = probes w)
          = (\<exists>c. digestCache w u = Some c \<and> max_nonce_time c > now)"
  proof (cases "digestCache w u")
    case None
    with none show ?thesis by simp
  next
    case (Some c)
    show ?thesis
    proof (cases "max_nonce_time c > now")
      case True
      with hit[of c] Some show ?thesis by auto
    next
      case False
      with stale[of c] Some show ?thesis by auto
    qed
  qed
  have bound: "digestCache w u = Some d \<and> max_nonce_time d = float_add E t 600
            \<longrightarrow> ((probes (snd (gethttpdigestauth E self si w)) = probes w)
                   = (now < float_add E t 600))
              \<and> (float_add E t 600 = t + 600
                   \<longrightarrow> (probes (snd (gethttpdigestauth E self si w)) = probes w)
                         = (now < t + 600))"
    unfolding iff by auto
  have rounded: "digestCache w u = Some d \<and> max_nonce_time d = float_add E t 600
          \<and> float_add E t 600 = rnd (t + 600) \<and> mono rnd \<and> rnd now = now
            \<longrightarrow> (t + 600 \<le> now
                   \<longrightarrow> probes (snd (gethttpdigestauth E self si w)) \<noteq> probes w)
              \<and> (now < t + 600 \<and> float_add E t 600 \<noteq> now
                   \<longrightarrow> probes (snd (gethttpdigestauth E self si w)) = probes w)"
  proof (intro impI conjI)
    assume a: "digestCache w u = Some d \<and> max_nonce_time d = float_add E t 600
          \<and> float_add E t 600 = rnd (t + 600) \<and> mono rnd \<and> rnd now = now"
    assume le: "t + 600 \<le> now"
    from a have m: "mono rnd" and f: "rnd now = now" by simp_all
    from monoD[OF m le] have "rnd (t + 600) \<le> now" unfolding f .
    with a have "\<not> max_nonce_time d > now" by simp
    with a show "probes (snd (gethttpdigestauth E self si w)) \<noteq> probes w"
      unfolding iff by simp
  next
    assume a: "digestCache w u = Some d \<and> max_nonce_time d = float_add E t 600
          \<and> float_add E t 600 = rnd (t + 600) \<and> mono rnd \<and> rnd now = now"
    assume b: "now < t + 600 \<and> float_add E t 600 \<noteq> now"
    from a have m: "mono rnd" and f: "rnd now = now" by simp_all
    from b have "now \<le> t + 600" by simp
    from monoD[OF m this] have "now \<le> rnd (t + 600)" unfolding f .
    with a b have "max_nonce_time d > now" by simp
    with a show "probes (snd (gethttpdigestauth E self si w)) = probes w"
      unfolding iff by simp
  qed
  have miss: "obtain_details E self si w = probe_challenge E self u wp \<and> probes wp = probes w"
    if m: "\<not> (\<exists>c. digestCache w u = Some c \<and> max_nonce_time c > now)"
  proof (cases "digestCache w u")
    case None
    with none show ?thesis by (simp add: wp_def)
  next
    case (Some c)
    with m have "max_nonce_time c \<le> now" by simp
    with stale[of c] Some show ?thesis by (simp add: wp_def w0_def)
  qed
  have cap: "\<not> (\<exists>c. digestCache w u = Some c \<and> max_nonce_time c > now)
          \<and> obtain_details E self si w = (Inr (Some d'), w')
            \<longrightarrow> max_nonce_time d' = float_add E (time E (time_reads wp)) 600
              \<and> digestCache w' u = Some d'"
  proof
    assume a: "\<not> (\<exists>c. digestCache w u = Some c \<and> max_nonce_time c > now)
          \<and> obtain_details E self si w = (Inr (Some d'), w')"
    with miss have "probe_challenge E self u wp = (Inr (Some d'), w')" by simp
    then show "max_nonce_time d' = float_add E (time E (time_reads wp)) 600
              \<and> digestCache w' u = Some d'"
      by (rule probe_challenge_captured)
  qed
  have fresh: "\<not> (\<exists>c. digestCache w u = Some c \<and> max_nonce_time c > now)
          \<and> http_options E (length (probes w)) (quote_path E (fst (getURI E self wp))) = Inr resp
          \<and> status resp = 401 \<and> www_authenticate resp = pre @ item # rest
          \<and> (\<forall>i \<in> set pre. \<not> prefix ''digest '' (py_lower i))
          \<and> prefix ''digest '' (py_lower item)
          \<and> parse_challenge (drop 7 item) = Inr ps
            \<longrightarrow> fst (obtain_details E self si w)
                  = Inr (Some \<lparr>params = ps(''max-nonce-time'' := None),
                                max_nonce_time = float_add E (time E (time_reads wp)) 600\<rparr>)
              \<and> digestCache (snd (obtain_details E self si w)) u
                  = Some \<lparr>params = ps(''max-nonce-time'' := None),
                          max_nonce_time = float_add E (time E (time_reads wp)) 600\<rparr>
              \<and> gethttpdigestauth E self si w
                  = authorize E self si
                      \<lparr>params = ps(''max-nonce-time'' := None),
                       max_nonce_time = float_add E (time E (time_reads wp)) 600\<rparr>
                      (snd (obtain_details E self si w))"
  proof
    assume a: "\<not> (\<exists>c. digestCache w u = Some c \<and> max_nonce_time c > now)
          \<and> http_options E (length (probes w)) (quote_path E (fst (getURI E self wp))) = Inr resp
          \<and> status resp = 401 \<and> www_authenticate resp = pre @ item # rest
          \<and> (\<forall>i \<in> set pre. \<not> prefix ''digest '' (py_lower i))
          \<and> prefix ''digest '' (py_lower item)
          \<and> parse_challenge (drop 7 item) = Inr ps"
    then have m: "\<not> (\<exists>c. digestCache w u = Some c \<and> max_nonce_time c > now)" by (rule conjunct1)
    note o = miss[OF m, THEN conjunct1] and pw = miss[OF m, THEN conjunct2]
    from a have h: "http_options E (length (probes wp)) (quote_path E (fst (getURI E self wp)))
        = Inr resp"
      unfolding pw by simp
    from a have s: "status resp = 401" and ww: "www_authenticate resp = pre @ item # rest"
      and np: "\<forall>i \<in> set pre. \<not> prefix ''digest '' (py_lower i)"
      and ip: "prefix ''digest '' (py_lower item)"
      and pc: "parse_challenge (drop 7 item) = Inr ps"
      by simp_all
    note p = probe_challenge_digest[OF h s ww np ip pc, of u]
    have f: "fst (obtain_details E self si w)
                  = Inr (Some \<lparr>params = ps(''max-nonce-time'' := None),
                                max_nonce_time = float_add E (time E (time_reads wp)) 600\<rparr>)"
      unfolding o by (rule p(1))
    have c: "digestCache (snd (obtain_details E self si w)) u
                  = Some \<lparr>params = ps(''max-nonce-time'' := None),
                          max_nonce_time = float_add E (time E (time_reads wp)) 600\<rparr>"
      unfolding o by (rule p(2))
    from f c gethttpdigestauth_details[OF f]
    show "fst (obtain_details E self si w)
                  = Inr (Some \<lparr>params = ps(''max-nonce-time'' := None),
                                max_nonce_time = float_add E (time E (time_reads wp)) 600\<rparr>)
              \<and> digestCache (snd (obtain_details E self si w)) u
                  = Some \<lparr>params = ps(''max-nonce-time'' := None),
                          max_nonce_time = float_add E (time E (time_reads wp)) 600\<rparr>
              \<and> gethttpdigestauth E self si w
                  = authorize E self si
                      \<lparr>params = ps(''max-nonce-time'' := None),
                       max_nonce_time = float_add E (time E (time_reads wp)) 600\<rparr>
                      (snd (obtain_details E self si w))"
      by simp
  qed
  show ?thesis
    using hit[of d] none stale[of d] iff bound rounded cap fresh by blast
qed

theorem digest_cache_reuse_witness:
  "probes (snd (gethttpdigestauth (env_at (1199 / 2)) alice_request basic_si cached_world)) = []
   \<and> gethttpdigestauth (env_at (1199 / 2)) alice_request basic_si cached_world
       = authorize (env_at (1199 / 2)) alice_request basic_si auth_details
           (cached_world\<lparr>time_reads := Suc 0\<rparr>)
   \<and> probes (snd (gethttpdigestauth (env_at 600) alice_request basic_si cached_world))
       = [(''OPTIONS'', ''/cal/'')]
   \<and> fst (obtain_details (env_at 600) alice_request basic_si cached_world)
       = Inr (Some \<lparr>params = [''realm'' \<mapsto> ''cal'', ''nonce'' \<mapsto> ''n2'', ''qop'' \<mapsto> ''auth''],
                     max_nonce_time = 1200\<rparr>)
   \<and> digestCache (snd (obtain_details (env_at 600) alice_request basic_si cached_world)) ''alice''
       = Some \<lparr>params = [''realm'' \<mapsto> ''cal'', ''nonce'' \<mapsto> ''n2'', ''qop'' \<mapsto> ''auth''],
               max_nonce_time = 1200\<rparr>
   \<and> gethttpdigestauth (env_at 600) alice_request basic_si cached_world
       = authorize (env_at 600) alice_request basic_si
           \<lparr>params = [''realm'' \<mapsto> ''cal'', ''nonce'' \<mapsto> ''n2'', ''qop'' \<mapsto> ''auth''],
            max_nonce_time = 1200\<rparr>
           (snd (obtain_details (env_at 600) alice_request basic_si cached_world))
   \<and> nc (snd (gethttpdigestauth (env_at 600) alice_request basic_si cached_world)) (Some ''n2'')
       = Some 1
   \<and> probes (snd (gethttpdigestauth (env_at 0) alice_request basic_si world_init))
       = [(''OPTIONS'', ''/cal/'')]
   \<and> (probes (snd (gethttpdigestauth (env_at (1199 / 2)) alice_request basic_si cached_world))
         = probes cached_world) = ((1199 / 2 :: real) < 0 + 600)
   \<and> (probes (snd (gethttpdigestauth (env_at 600) alice_request basic_si cached_world))
         = probes cached_world) = ((600 :: real) < 0 + 600)
   \<and> max_nonce_time (the (digestCache
         (snd (obtain_details (env_at 600) alice_request basic_si cached_world)) ''alice''))
       = 1200
   \<and> probes (snd (gethttpdigestauth (env_at 600) alice_request basic_si cached_world))
       \<noteq> probes cached_world
   \<and> probes (snd (gethttpdigestauth (env_at (1199 / 2)) alice_request basic_si cached_world))
       = probes cached_world"
proof -
  note af = alice_request_fields cached_world_fields env_at_fields auth_details_fields
  have pre0: "digestCache world_init (effective_user alice_request basic_si) = None"
    by (simp add: world_init_def)
  have n0: "probes (snd (gethttpdigestauth (env_at 0) alice_request basic_si world_init))
       = [(''OPTIONS'', ''/cal/'')]"
    using digest_cache_reuse[where E = "env_at 0" and self = alice_request
      and si = basic_si and w = world_init,
      THEN conjunct2, THEN conjunct1, THEN mp, OF pre0, THEN conjunct2]
    by (simp add: af alice_getURI world_init_def)
  have preb: "digestCache cached_world (effective_user alice_request basic_si) = Some auth_details
      \<and> max_nonce_time auth_details = float_add (env_at x) 0 600" for x
    by (simp add: af)
  have fx: "float_add (env_at x) 0 600 = 0 + 600" for x
    by (simp add: af)
  have b1: "(probes (snd (gethttpdigestauth (env_at (1199 / 2)) alice_request basic_si cached_world))
         = probes cached_world) = ((1199 / 2 :: real) < 0 + 600)"
    using digest_cache_reuse[where E = "env_at (1199 / 2)" and self = alice_request
      and si = basic_si and w = cached_world and d = auth_details and t = 0,
      THEN conjunct2, THEN conjunct2, THEN conjunct2, THEN conjunct2, THEN conjunct1,
      THEN mp, OF preb, THEN conjunct2, THEN mp, OF fx]
    unfolding af .
  have b2: "(probes (snd (gethttpdigestauth (env_at 600) alice_request basic_si cached_world))
         = probes cached_world) = ((600 :: real) < 0 + 600)"
    using digest_cache_reuse[where E = "env_at 600" and self = alice_request
      and si = basic_si and w = cached_world and d = auth_details and t = 0,
      THEN conjunct2, THEN conjunct2, THEN conjunct2, THEN conjunct2, THEN conjunct1,
      THEN mp, OF preb, THEN conjunct2, THEN mp, OF fx]
    unfolding af .
  have pre1: "digestCache cached_world (effective_user alice_request basic_si) = Some auth_details
      \<and> max_nonce_time auth_details > time (env_at (1199 / 2)) (time_reads cached_world)"
    by (simp add: af)
  note c1 = digest_cache_reuse[where E = "env_at (1199 / 2)" and self = alice_request
      and si = basic_si and w = cached_world and d = auth_details,
      THEN conjunct1, THEN mp, OF pre1]
  have a: "probes (snd (gethttpdigestauth (env_at (1199 / 2)) alice_request basic_si cached_world)) = []"
    using c1[THEN conjunct2, THEN conjunct2] by (simp add: af)
  have a': "gethttpdigestauth (env_at (1199 / 2)) alice_request basic_si cached_world
       = authorize (env_at (1199 / 2)) alice_request basic_si auth_details
           (cached_world\<lparr>time_reads := Suc 0\<rparr>)"
    using c1[THEN conjunct2, THEN conjunct1] by (simp add: af)
  have pre2: "digestCache cached_world (effective_user alice_request basic_si) = Some auth_details
      \<and> max_nonce_time auth_details \<le> time (env_at 600) (time_reads cached_world)"
    by (simp add: af)
  note r2 = digest_cache_reuse[where E = "env_at 600" and self = alice_request
      and si = basic_si and w = cached_world and d = auth_details
      and resp = "\<lparr>status = 401, www_authenticate = [''Basic realm=x'', digest_challenge]\<rparr>"
      and pre = "[''Basic realm=x'']" and item = digest_challenge and rest = "[]"
      and ps = "[''realm'' \<mapsto> ''cal'', ''nonce'' \<mapsto> ''n2'', ''qop'' \<mapsto> ''auth'']"]
  have b: "probes (snd (gethttpdigestauth (env_at 600) alice_request basic_si cached_world))
       = [(''OPTIONS'', ''/cal/'')]"
    using r2[THEN conjunct2, THEN conjunct2, THEN conjunct1, THEN mp, OF pre2, THEN conjunct2]
    by (simp add: af alice_getURI)
  have pre3: "\<not> (\<exists>c. digestCache cached_world (effective_user alice_request basic_si) = Some c
           \<and> max_nonce_time c > time (env_at 600) (time_reads cached_world))
      \<and> http_options (env_at 600) (length (probes cached_world))
          (quote_path (env_at 600) (fst (getURI (env_at 600) alice_request
             (case digestCache cached_world (effective_user alice_request basic_si) of
                None \<Rightarrow> cached_world
              | Some c \<Rightarrow> cached_world\<lparr>time_reads := Suc (time_reads cached_world)\<rparr>))))
          = Inr \<lparr>status = 401, www_authenticate = [''Basic realm=x'', digest_challenge]\<rparr>
      \<and> status \<lparr>status = 401, www_authenticate = [''Basic realm=x'', digest_challenge]\<rparr> = 401
      \<and> www_authenticate \<lparr>status = 401, www_authenticate = [''Basic realm=x'', digest_challenge]\<rparr>
          = [''Basic realm=x''] @ digest_challenge # []
      \<and> (\<forall>i \<in> set [''Basic realm=x'']. \<not> prefix ''digest '' (py_lower i))
      \<and> prefix ''digest '' (py_lower digest_challenge)
      \<and> parse_challenge (drop 7 digest_challenge)
          = Inr [''realm'' \<mapsto> ''cal'', ''nonce'' \<mapsto> ''n2'', ''qop'' \<mapsto> ''auth'']"
    using digest_challenge_parsed by (simp add: af)
  note c3 = r2[THEN conjunct2, THEN conjunct2, THEN conjunct2, THEN conjunct2, THEN conjunct2,
      THEN conjunct2, THEN conjunct2, THEN mp, OF pre3, unfolded af option.case]
  have mk: "[''realm'' \<mapsto> ''cal'', ''nonce'' \<mapsto> ''n2'', ''qop'' \<mapsto> ''auth''](''max-nonce-time'' := None)
      = [''realm'' \<mapsto> ''cal'', ''nonce'' \<mapsto> ''n2'', ''qop'' \<mapsto> (''auth'' :: string)]"
    by (rule ext) simp
  have t: "(600 :: real) + 600 = 1200" by simp
  note c4 = c3[unfolded mk, simplified t]
  have nd: "truthy (opt_pyval (params \<lparr>params = [''realm'' \<mapsto> ''cal'', ''nonce'' \<mapsto> ''n2'',
       ''qop'' \<mapsto> ''auth''], max_nonce_time = 1200\<rparr> ''qop''))"
    by (simp add: opt_pyval_def)
  have n: "nc (snd (gethttpdigestauth (env_at 600) alice_request basic_si cached_world)) (Some ''n2'')
       = Some 1"
    unfolding c4[THEN conjunct2, THEN conjunct2]
    using authorize_qop(1)[OF nd, of "env_at 600" alice_request basic_si
        "snd (obtain_details (env_at 600) alice_request basic_si cached_world)"]
    by (simp add: obtain_details_nc cached_world_fields)
  let ?o = "obtain_details (env_at 600) alice_request basic_si cached_world"
  have pre6: "\<not> (\<exists>c. digestCache cached_world (effective_user alice_request basic_si) = Some c
           \<and> max_nonce_time c > time (env_at 600) (time_reads cached_world))
      \<and> ?o = (Inr (Some \<lparr>params = [''realm'' \<mapsto> ''cal'', ''nonce'' \<mapsto> ''n2'', ''qop'' \<mapsto> ''auth''],
                     max_nonce_time = 1200\<rparr>), snd ?o)"
    using c4[THEN conjunct1] by (simp add: af prod_eq_iff)
  note c6 = digest_cache_reuse[where E = "env_at 600" and self = alice_request
      and si = basic_si and w = cached_world,
      THEN conjunct2, THEN conjunct2, THEN conjunct2, THEN conjunct2, THEN conjunct2,
      THEN conjunct2, THEN conjunct1, THEN mp, OF pre6, unfolded af]
  have prer: "digestCache cached_world (effective_user alice_request basic_si) = Some auth_details
      \<and> max_nonce_time auth_details = float_add (env_at x) 0 600
      \<and> float_add (env_at x) 0 600 = (\<lambda>y. y) (0 + 600) \<and> mono (\<lambda>y :: real. y)
      \<and> (\<lambda>y. y) (time (env_at x) (time_reads cached_world))
          = time (env_at x) (time_reads cached_world)" for x
    by (simp add: af mono_def)
  have ge: "(0 :: real) + 600 \<le> time (env_at 600) (time_reads cached_world)"
    by (simp add: af)
  have lt: "time (env_at (1199 / 2)) (time_reads cached_world) < 0 + 600
      \<and> float_add (env_at (1199 / 2)) 0 600 \<noteq> time (env_at (1199 / 2)) (time_reads cached_world)"
    by (simp add: af)
  have r600: "probes (snd (gethttpdigestauth (env_at 600) alice_request basic_si cached_world))
      \<noteq> probes cached_world"
    using digest_cache_reuse[where E = "env_at 600" and self = alice_request
      and si = basic_si and w = cached_world and d = auth_details and t = 0 and rnd = "\<lambda>y. y",
      THEN conjunct2, THEN conjunct2, THEN conjunct2, THEN conjunct2, THEN conjunct2,
      THEN conjunct1, THEN mp, OF prer, THEN conjunct1, THEN mp, OF ge] .
  have r599: "probes (snd (gethttpdigestauth (env_at (1199 / 2)) alice_request basic_si cached_world))
      = probes cached_world"
    using digest_cache_reuse[where E = "env_at (1199 / 2)" and self = alice_request
      and si = basic_si and w = cached_world and d = auth_details and t = 0 and rnd = "\<lambda>y. y",
      THEN conjunct2, THEN conjunct2, THEN conjunct2, THEN conjunct2, THEN conjunct2,
      THEN conjunct1, THEN mp, OF prer, THEN conjunct2, THEN mp, OF lt] .
  have m: "max_nonce_time (the (digestCache (snd ?o) ''alice'')) = 1200"
    using c6 by simp
  show ?thesis using a a' b c4 n n0 b1 b2 m r600 r599 by blast
qed

subsection \<open>Header assembly\<close>

lemma subst_headers_None:
  "subst_headers f kvs = (None, kvs1) \<Longrightarrow>
   list_all2 (\<lambda>kv kv1. fst kv1 = fst kv \<and> f (snd kv) = Inr (snd kv1)) kvs kvs1"
proof (induction kvs arbitrary: kvs1)
  case Nil
  then show ?case by simp
next
  case (Cons kv rest)
  obtain k v where kv: "kv = (k, v)" by (cases kv)
  from Cons.prems obtain v' rest' where
    "f v = Inr v'" "subst_headers f rest = (None, rest')" "kvs1 = (k, v') # rest'"
    by (auto simp: kv split: sum.splits prod.splits)
  with Cons.IH[of rest'] show ?case by (simp add: kv)
qed

lemma harvest_heap: "heap (snd (harvest E u items w)) = heap w"
  by (induction items) (auto simp: Let_def split: sum.splits)

lemma probe_challenge_heap: "heap (snd (probe_challenge E self u w)) = heap w"
proof -
  obtain uri w1 where g: "getURI E self w = (uri, w1)" by (cases "getURI E self w")
  from getURI_keepsD[OF g] have p: "heap w1 = heap w" by simp
  show ?thesis
    unfolding probe_challenge_def g Let_def
    by (simp add: harvest_heap p split: sum.splits)
qed

lemma obtain_details_heap: "heap (snd (obtain_details E self si w)) = heap w"
  unfolding obtain_details_def Let_def
  by (simp add: probe_challenge_heap split: option.splits)

lemma authorize_heap: "heap (snd (authorize E self si d w)) = heap w"
  unfolding authorize_split
  by (simp add: respond_keeps count_and_store_def count_nonce_def Let_def split: prod.splits)

lemma gethttpdigestauth_heap: "heap (snd (gethttpdigestauth E self si w)) = heap w"
proof (cases "obtain_details E self si w")
  case (Pair r w1)
  with obtain_details_heap[of E self si w] have h: "heap w1 = heap w" by simp
  show ?thesis
    using Pair h by (auto simp: gethttpdigestauth_def authorize_heap split: sum.splits option.splits)
qed

lemma get_put_headers:
  "a < length (heap w) \<Longrightarrow> heap w' = heap w \<Longrightarrow> get_headerdict (put_headers a kvs w') a = Inr kvs"
  by (simp add: get_headerdict_def put_headers_def)

lemma put_put_headers:
  "put_headers a kvs (put_headers a kvs' w) = put_headers a kvs w"
  by (simp add: put_headers_def)

lemma getHeaders_stored:
  assumes "get_headerdict w (headers self) = Inr kvs"
    and "getHeaders E self si w = (Inr a, w')"
  defines "kvs1 \<equiv> snd (subst_headers (hdr_extrasubs E (extrasubsdict w)) kvs)"
  defines "kvs2 \<equiv> (case data self of
                      Some d \<Rightarrow> AList.update ''Content-Type'' (PStr (content_type d)) kvs1
                    | None \<Rightarrow> kvs1)"
  shows "a = headers self"
    and "get_headerdict w' a = Inr (stored_headers w' a)"
    and "list_all2 (\<lambda>kv kv1. fst kv1 = fst kv
            \<and> hdr_extrasubs E (extrasubsdict w) (snd kv) = Inr (snd kv1)) kvs kvs1"
    and "k \<noteq> ''Content-Type'' \<and> k \<noteq> ''Authorization''
           \<longrightarrow> map_of (stored_headers w' a) k = map_of kvs1 k"
    and "data self = Some d \<longrightarrow> map_of (stored_headers w' a) ''Content-Type'' = Some (PStr (content_type d))"
    and "auth self \<and> py_lower (authtype si) = ''basic''
           \<longrightarrow> map_of (stored_headers w' a) ''Authorization'' = Some (gethttpbasicauth E self si)"
    and "auth self \<and> py_lower (authtype si) \<noteq> ''basic'' \<and> py_lower (authtype si) = ''digest''
           \<longrightarrow> (\<exists>h. fst (gethttpdigestauth E self si (put_headers a kvs2 w)) = Inr h
                  \<and> map_of (stored_headers w' a) ''Authorization'' = Some (PStr h))"
proof -
  let ?hdrs = "headers self"
  from assms(1) have al: "?hdrs < length (heap w)"
    by (auto simp: get_headerdict_def split: if_splits)
  obtain r where s: "subst_headers (hdr_extrasubs E (extrasubsdict w)) kvs = (r, kvs1)"
    unfolding kvs1_def by (cases "subst_headers (hdr_extrasubs E (extrasubsdict w)) kvs") simp
  have r: "r = None"
    using assms(1,2) s by (cases r) (auto simp: getHeaders_def Let_def)
  show la: "list_all2 (\<lambda>kv kv1. fst kv1 = fst kv
            \<and> hdr_extrasubs E (extrasubsdict w) (snd kv) = Inr (snd kv1)) kvs kvs1"
    by (rule subst_headers_None[OF s[unfolded r]])
  let ?w2 = "put_headers ?hdrs kvs2 w"
  have k2: "k \<noteq> ''Content-Type'' \<longrightarrow> map_of kvs2 k = map_of kvs1 k" for k
    unfolding kvs2_def by (auto simp: update_conv' split: option.splits)
  have ct: "data self = Some d \<longrightarrow> map_of kvs2 ''Content-Type'' = Some (PStr (content_type d))"
    unfolding kvs2_def by (auto simp: update_conv')
  have g: "getHeaders E self si w =
     (if auth self
      then (if py_lower (authtype si) = ''basic''
            then (Inr ?hdrs,
                  put_headers ?hdrs (AList.update ''Authorization'' (gethttpbasicauth E self si) kvs2) ?w2)
            else if py_lower (authtype si) = ''digest''
            then (case gethttpdigestauth E self si ?w2 of
                    (Inl e, w3) \<Rightarrow> (Inl e, w3)
                  | (Inr h, w3) \<Rightarrow>
                      (Inr ?hdrs, put_headers ?hdrs (AList.update ''Authorization'' (PStr h) kvs2) w3))
            else (Inr ?hdrs, ?w2))
       else (Inr ?hdrs, ?w2))"
    unfolding kvs2_def by (simp add: getHeaders_def Let_def assms(1) s r)
  show a: "a = ?hdrs"
    using assms(2) unfolding g by (auto split: if_splits sum.splits prod.splits)
  have lw2: "?hdrs < length (heap ?w2)" using al by (simp add: put_headers_def)
  consider (basic) "auth self" "py_lower (authtype si) = ''basic''"
    | (digest) "auth self" "py_lower (authtype si) \<noteq> ''basic''" "py_lower (authtype si) = ''digest''"
    | (none) "\<not> (auth self \<and> (py_lower (authtype si) = ''basic'' \<or> py_lower (authtype si) = ''digest''))"
    by blast
  then have "\<exists>kvs3. get_headerdict w' a = Inr kvs3
      \<and> (k \<noteq> ''Content-Type'' \<and> k \<noteq> ''Authorization'' \<longrightarrow> map_of kvs3 k = map_of kvs1 k)
      \<and> (data self = Some d \<longrightarrow> map_of kvs3 ''Content-Type'' = Some (PStr (content_type d)))
      \<and> (auth self \<and> py_lower (authtype si) = ''basic''
           \<longrightarrow> map_of kvs3 ''Authorization'' = Some (gethttpbasicauth E self si))
      \<and> (auth self \<and> py_lower (authtype si) \<noteq> ''basic'' \<and> py_lower (authtype si) = ''digest''
           \<longrightarrow> (\<exists>h. fst (gethttpdigestauth E self si (put_headers a kvs2 w)) = Inr h
                  \<and> map_of kvs3 ''Authorization'' = Some (PStr h)))"
  proof cases
    case basic
    let ?kvs3 = "AList.update ''Authorization'' (gethttpbasicauth E self si) kvs2"
    from assms(2) basic have w': "w' = put_headers ?hdrs ?kvs3 ?w2" unfolding g by auto
    have gh: "get_headerdict w' a = Inr ?kvs3"
      unfolding w' a by (rule get_put_headers[OF lw2 refl])
    show ?thesis
      using gh k2[of k] ct basic by (intro exI[of _ ?kvs3]) (simp add: update_conv')
  next
    case digest
    from assms(2) digest obtain h w3 where
      dg: "gethttpdigestauth E self si ?w2 = (Inr h, w3)"
      and w': "w' = put_headers ?hdrs (AList.update ''Authorization'' (PStr h) kvs2) w3"
      unfolding g by (auto split: sum.splits prod.splits)
    let ?kvs3 = "AList.update ''Authorization'' (PStr h) kvs2"
    from gethttpdigestauth_heap[of E self si ?w2] dg have h3: "heap w3 = heap ?w2" by simp
    have gh: "get_headerdict w' a = Inr ?kvs3"
      unfolding w' a by (rule get_put_headers[OF lw2 h3])
    show ?thesis
      using gh k2[of k] ct digest dg a by (intro exI[of _ ?kvs3]) (simp add: update_conv')
  next
    case none
    from assms(2) none have w': "w' = ?w2" unfolding g by (auto split: if_splits)
    have gh: "get_headerdict w' a = Inr kvs2"
      unfolding w' a by (rule get_put_headers[OF al refl])
    show ?thesis
      using gh k2[of k] ct none by (intro exI[of _ kvs2]) auto
  qed
  then obtain kvs3 where gh: "get_headerdict w' a = Inr kvs3"
    and r3: "k \<noteq> ''Content-Type'' \<and> k \<noteq> ''Authorization'' \<longrightarrow> map_of kvs3 k = map_of kvs1 k"
      "data self = Some d \<longrightarrow> map_of kvs3 ''Content-Type'' = Some (PStr (content_type d))"
      "auth self \<and> py_lower (authtype si) = ''basic''
           \<longrightarrow> map_of kvs3 ''Authorization'' = Some (gethttpbasicauth E self si)"
      "auth self \<and> py_lower (authtype si) \<noteq> ''basic'' \<and> py_lower (authtype si) = ''digest''
           \<longrightarrow> (\<exists>h. fst (gethttpdigestauth E self si (put_headers a kvs2 w)) = Inr h
                  \<and> map_of kvs3 ''Authorization'' = Some (PStr h))"
    by (elim exE conjE)
  have st: "stored_headers w' a = kvs3" by (simp add: stored_headers_def gh)
  show "get_headerdict w' a = Inr (stored_headers w' a)" unfolding st by (rule gh)
  show "k \<noteq> ''Content-Type'' \<and> k \<noteq> ''Authorization''
           \<longrightarrow> map_of (stored_headers w' a) k = map_of kvs1 k" unfolding st by (rule r3(1))
  show "data self = Some d \<longrightarrow> map_of (stored_headers w' a) ''Content-Type'' = Some (PStr (content_type d))"
    unfolding st by (rule r3(2))
  show "auth self \<and> py_lower (authtype si) = ''basic''
           \<longrightarrow> map_of (stored_headers w' a) ''Authorization'' = Some (gethttpbasicauth E self si)"
    unfolding st by (rule r3(3))
  show "auth self \<and> py_lower (authtype si) \<noteq> ''basic'' \<and> py_lower (authtype si) = ''digest''
           \<longrightarrow> (\<exists>h. fst (gethttpdigestauth E self si (put_headers a kvs2 w)) = Inr h
                  \<and> map_of (stored_headers w' a) ''Authorization'' = Some (PStr h))"
    unfolding st by (rule r3(4))
qed


text \<open>
  C9. When \<^verbatim>\<open>getHeaders\<close> returns, what it returns is the reference held in
  \<^verbatim>\<open>self.headers\<close>, and the dictionary behind it has been changed in place: every value has
  been replaced by its extra-substituted form, \<^verbatim>\<open>Content-Type\<close> holds the body's content type
  when there is a body, and \<^verbatim>\<open>Authorization\<close> holds the Basic or the Digest value when
  authentication is on. A second call starts from the stored result of the first, so its
  substitution is applied to values already substituted.
\<close>

theorem headers_stored_in_place:
  assumes "get_headerdict w (headers self) = Inr kvs"
    and "getHeaders E self si w = (Inr a, w')"
  defines "kvs1 \<equiv> snd (subst_headers (hdr_extrasubs E (extrasubsdict w)) kvs)"
  defines "kvs2 \<equiv> (case data self of
                      Some d \<Rightarrow> AList.update ''Content-Type'' (PStr (content_type d)) kvs1
                    | None \<Rightarrow> kvs1)"
  shows "a = headers self
     \<and> get_headerdict w' a = Inr (stored_headers w' a)
     \<and> list_all2 (\<lambda>kv kv1. fst kv1 = fst kv
            \<and> hdr_extrasubs E (extrasubsdict w) (snd kv) = Inr (snd kv1)) kvs kvs1
     \<and> (k \<noteq> ''Content-Type'' \<and> k \<noteq> ''Authorization''
           \<longrightarrow> map_of (stored_headers w' a) k = map_of kvs1 k)
     \<and> (data self = Some d
           \<longrightarrow> map_of (stored_headers w' a) ''Content-Type'' = Some (PStr (content_type d)))
     \<and> (auth self \<and> py_lower (authtype si) = ''basic''
           \<longrightarrow> map_of (stored_headers w' a) ''Authorization'' = Some (gethttpbasicauth E self si))
     \<and> (auth self \<and> py_lower (authtype si) \<noteq> ''basic'' \<and> py_lower (authtype si) = ''digest''
           \<longrightarrow> (\<exists>h. fst (gethttpdigestauth E self si (put_headers a kvs2 w)) = Inr h
                  \<and> map_of (stored_headers w' a) ''Authorization'' = Some (PStr h)))
     \<and> (getHeaders E' self si w' = (Inr b, w'')
           \<longrightarrow> b = a
             \<and> list_all2 (\<lambda>kv kv1. fst kv1 = fst kv
                    \<and> hdr_extrasubs E' (extrasubsdict w') (snd kv) = Inr (snd kv1))
                 (stored_headers w' a)
                 (snd (subst_headers (hdr_extrasubs E' (extrasubsdict w')) (stored_headers w' a)))
             \<and> (k \<noteq> ''Content-Type'' \<and> k \<noteq> ''Authorization''
                  \<longrightarrow> map_of (stored_headers w'' a) k
                      = map_of (snd (subst_headers (hdr_extrasubs E' (extrasubsdict w'))
                                       (stored_headers w' a))) k))"
proof -
  note f = getHeaders_stored[OF assms(1,2), folded kvs1_def, folded kvs2_def]
  have gh': "get_headerdict w' (headers self) = Inr (stored_headers w' a)"
    using f(1) f(2) by simp
  have again: "getHeaders E' self si w' = (Inr b, w'')
           \<longrightarrow> b = a
             \<and> list_all2 (\<lambda>kv kv1. fst kv1 = fst kv
                    \<and> hdr_extrasubs E' (extrasubsdict w') (snd kv) = Inr (snd kv1))
                 (stored_headers w' a)
                 (snd (subst_headers (hdr_extrasubs E' (extrasubsdict w')) (stored_headers w' a)))
             \<and> (k \<noteq> ''Content-Type'' \<and> k \<noteq> ''Authorization''
                  \<longrightarrow> map_of (stored_headers w'' a) k
                      = map_of (snd (subst_headers (hdr_extrasubs E' (extrasubsdict w'))
                                       (stored_headers w' a))) k)"
  proof
    assume g2: "getHeaders E' self si w' = (Inr b, w'')"
    note f2 = getHeaders_stored[OF gh' g2]
    have e: "b = a" using f2(1) f(1) by simp
    show "b = a
             \<and> list_all2 (\<lambda>kv kv1. fst kv1 = fst kv
                    \<and> hdr_extrasubs E' (extrasubsdict w') (snd kv) = Inr (snd kv1))
                 (stored_headers w' a)
                 (snd (subst_headers (hdr_extrasubs E' (extrasubsdict w')) (stored_headers w' a)))
             \<and> (k \<noteq> ''Content-Type'' \<and> k \<noteq> ''Authorization''
                  \<longrightarrow> map_of (stored_headers w'' a) k
                      = map_of (snd (subst_headers (hdr_extrasubs E' (extrasubsdict w'))
                                       (stored_headers w' a))) k)"
      using e f2(3) f2(4)[of k] by simp
  qed
  show ?thesis
    by (intro conjI) (rule f(1) f(2) f(3) f(4) f(5) f(6) f(7) again)+
qed

lemma header_env_fields:
  "extrasubs_fn header_env = (\<lambda>tbl s. (case map_of tbl s of Some v \<Rightarrow> v | None \<Rightarrow> s) @ ''+'')"
  "extrasubs_nonstr header_env = (\<lambda>tbl v. Inr v)" "encodebytes header_env = (\<lambda>s. s)"
  by (simp_all add: header_env_def env_init_def)

lemma header_request_fields:
  "headers header_request = 0" "auth header_request = True"
  "data header_request = Some (data_init\<lparr>content_type := ''text/calendar''\<rparr>)"
  "effective_user header_request basic_auth_si = ''admin''"
  "effective_pswd header_request basic_auth_si = ''secret''"
  by (simp_all add: header_request_def request_init_def effective_user_def effective_pswd_def
      basic_auth_si_def)

lemma header_basic: "gethttpbasicauth header_env header_request basic_auth_si
    = PBytes ''Basic admin:secret''"
  by (simp add: gethttpbasicauth_def header_env_fields header_request_fields py_replace.simps)

lemma header_si: "py_lower (authtype basic_auth_si) = ''basic''"
  by (simp add: basic_auth_si_def py_lower_def)

lemma header_world_fields:
  "heap header_world = [HeaderDict [(''Depth'', PStr ''$d:'')]]"
  "extrasubsdict header_world = [(''$d:'', ''1'')]"
  by (simp_all add: header_world_def)

lemma header_first_call:
  "getHeaders header_env header_request basic_auth_si header_world = (Inr 0, header_world1)"
  by (simp add: getHeaders_def get_headerdict_def header_world_fields header_request_fields
      hdr_extrasubs_def header_env_fields header_si header_basic put_headers_def header_world1_def)

lemma header_second_call:
  "getHeaders header_env header_request basic_auth_si header_world1 = (Inr 0, header_world2)"
  by (simp add: getHeaders_def get_headerdict_def header_world_fields header_request_fields
      hdr_extrasubs_def header_env_fields header_si header_basic put_headers_def header_world1_def
      header_world2_def)

theorem headers_stored_in_place_witness:
  "getHeaders header_env header_request basic_auth_si header_world
     = (Inr (headers header_request), header_world1)
   \<and> map_of (stored_headers header_world1 0) ''Depth'' = Some (PStr ''1+'')
   \<and> map_of (stored_headers header_world1 0) ''Content-Type'' = Some (PStr ''text/calendar'')
   \<and> map_of (stored_headers header_world1 0) ''Authorization'' = Some (PBytes ''Basic admin:secret'')
   \<and> map_of (stored_headers header_world2 0) ''Depth'' = Some (PStr ''1++'')"
proof -
  have g0: "get_headerdict header_world (headers header_request)
      = Inr [(''Depth'', PStr ''$d:'')]"
    by (simp add: get_headerdict_def header_world_fields header_request_fields)
  have s1: "snd (subst_headers (hdr_extrasubs header_env (extrasubsdict header_world))
                   [(''Depth'', PStr ''$d:'')]) = [(''Depth'', PStr ''1+'')]"
    by (simp add: hdr_extrasubs_def header_env_fields header_world_fields)
  have st1: "stored_headers header_world1 0 = [(''Depth'', PStr ''1+''),
           (''Content-Type'', PStr ''text/calendar''),
           (''Authorization'', PBytes ''Basic admin:secret'')]"
    by (simp add: stored_headers_def get_headerdict_def header_world1_def)
  have e1: "extrasubsdict header_world1 = [(''$d:'', ''1'')]"
    by (simp add: header_world1_def header_world_fields)
  have s2: "snd (subst_headers (hdr_extrasubs header_env [(''$d:'', ''1'')])
                   [(''Depth'', PStr ''1+''), (''Content-Type'', PStr ''text/calendar''),
                    (''Authorization'', PBytes ''Basic admin:secret'')])
            = [(''Depth'', PStr ''1++''), (''Content-Type'', PStr ''text/calendar+''),
               (''Authorization'', PBytes ''Basic admin:secret'')]"
    by (simp add: hdr_extrasubs_def header_env_fields)
  note t = headers_stored_in_place[OF g0 header_first_call, where k = "''Depth''"
      and d = "data_init\<lparr>content_type := ''text/calendar''\<rparr>" and E' = header_env
      and b = 0 and w'' = header_world2]
  have d: "map_of (stored_headers header_world1 0) ''Depth'' = Some (PStr ''1+'')"
    using t[THEN conjunct2, THEN conjunct2, THEN conjunct2, THEN conjunct1, unfolded s1] by simp
  have c: "map_of (stored_headers header_world1 0) ''Content-Type'' = Some (PStr ''text/calendar'')"
    using t[THEN conjunct2, THEN conjunct2, THEN conjunct2, THEN conjunct2, THEN conjunct1]
    by (simp add: header_request_fields)
  have b: "map_of (stored_headers header_world1 0) ''Authorization'' = Some (PBytes ''Basic admin:secret'')"
    using t[THEN conjunct2, THEN conjunct2, THEN conjunct2, THEN conjunct2, THEN conjunct2,
        THEN conjunct1]
    by (simp add: header_request_fields header_si header_basic)
  have d2: "map_of (stored_headers header_world2 0) ''Depth'' = Some (PStr ''1++'')"
    using t[THEN conjunct2, THEN conjunct2, THEN conjunct2, THEN conjunct2, THEN conjunct2,
        THEN conjunct2, THEN conjunct2, THEN mp, OF header_second_call, unfolded st1 e1 s2]
    by simp
  show ?thesis
    using header_first_call d c b d2 by (simp add: header_request_fields)
qed

subsection \<open>The free-busy verifier\<close>

lemma check_calendar_no_users_good:
  "good_calendar L txt \<Longrightarrow>
   check_calendar L txt [] busy tentative unavailable events = (Continue, [])"
  by (auto simp: good_calendar_def check_calendar_def find_None_iff find_Some_iff
      split: parse_result.splits list.splits option.splits)

lemma check_calendar_no_users_bad:
  "\<not> good_calendar L txt \<Longrightarrow>
   \<exists>msg. msg \<noteq> []
     \<and> check_calendar L txt [] busy tentative unavailable events = (Return msg, [])"
  by (auto simp: good_calendar_def check_calendar_def invalid_msg_def
      split: parse_result.splits list.splits)

lemma check_calendars_all_good:
  "\<forall>t \<in> set texts. good_calendar L t \<Longrightarrow>
   check_calendars L texts [] busy tentative unavailable events = (Continue, [])"
  by (induction texts) (simp_all add: check_calendar_no_users_good)

lemma check_calendars_some_bad:
  "\<exists>t \<in> set texts. \<not> good_calendar L t \<Longrightarrow>
   \<exists>msg. msg \<noteq> []
     \<and> check_calendars L texts [] busy tentative unavailable events = (Return msg, [])"
proof (induction texts)
  case Nil
  then show ?case by simp
next
  case (Cons t texts)
  show ?case
  proof (cases "good_calendar L t")
    case True
    with Cons.prems have "\<exists>t \<in> set texts. \<not> good_calendar L t" by simp
    from Cons.IH[OF this] show ?thesis
      by (simp add: check_calendar_no_users_good[OF True])
  next
    case False
    from check_calendar_no_users_bad[OF False, of busy tentative unavailable events]
    obtain msg where "msg \<noteq> []"
      "check_calendar L t [] busy tentative unavailable events = (Return msg, [])"
      by blast
    then show ?thesis by simp
  qed
qed

lemma verify_fb_wrong_status:
  "status response \<noteq> 200 \<Longrightarrow>
   fst (verify_fb L response respdata argd)
     = Inr (False, ''        HTTP Status Code Wrong: '' @ str_int (status response))"
  by (simp add: verify_fb_def Let_def)

lemma verify_fb_no_attendee:
  assumes "status response = 200" and "parse_xml L respdata = XmlTree texts"
    and "args_get argd ''attendee'' = []" and "events_evaluate L argd"
  shows "\<exists>events. verify_fb L response respdata argd
     = (case check_calendars L texts [] (args_get argd ''busy'') (args_get argd ''tentative'')
               (args_get argd ''unavailable'') events of
          (Return msg, users') \<Rightarrow> (Inr (False, msg), users')
        | (_, users') \<Rightarrow>
            if length users' \<noteq> 0
            then (Inr (False,
                    ''           Could not find attendee/calendar data in XML response''
                    @ [CHR 0x0A]), users')
            else (Inr (True, []), users'))"
proof -
  define evs where "evs = args_get argd ''events''"
  from assms(4) obtain events where
    ev: "(case evs of
            [ev] \<Rightarrow> (case eval_int L ev of Inl e \<Rightarrow> Inl e | Inr n \<Rightarrow> Inr (Some n))
          | _ \<Rightarrow> Inr None) = Inr events"
    unfolding events_evaluate_def evs_def[symmetric]
    by (cases evs; simp split: list.splits sum.splits)
  show ?thesis
    unfolding verify_fb_def Let_def evs_def[symmetric] ev
    by (rule exI[of _ events]) (simp add: assms(1,2,3))
qed

text \<open>
  C10 (as the code has it). \<^verbatim>\<open>Verifier.verify\<close> of the free-busy verifier returns \<^verbatim>\<open>False\<close> with
  the message \<^verbatim>\<open>HTTP Status Code Wrong\<close> and the status whenever the status is not 200.
  Given status 200, a response body that parses as XML, no expected attendee and an
  \<^verbatim>\<open>events\<close> argument that is not a single value or whose single value evaluates to an
  integer, it still parses every \<^verbatim>\<open>calendar-data\<close> element of the response: it returns
  \<^verbatim>\<open>(True, "")\<close> when each of them holds a calendar with exactly one \<^verbatim>\<open>VFREEBUSY\<close>
  component, and \<^verbatim>\<open>False\<close> with a message that is not empty when one of them does not. The
  list of expected attendees is left empty.
\<close>

theorem verify_fb_status_then_calendars:
  "(status response \<noteq> 200 \<longrightarrow>
      fst (verify_fb L response respdata argd)
        = Inr (False, ''        HTTP Status Code Wrong: '' @ str_int (status response)))
   \<and> (status response = 200 \<and> parse_xml L respdata = XmlTree texts
        \<and> args_get argd ''attendee'' = [] \<and> events_evaluate L argd \<longrightarrow>
        ((\<forall>t \<in> set texts. good_calendar L t) \<longrightarrow>
           verify_fb L response respdata argd = (Inr (True, []), []))
        \<and> ((\<exists>t \<in> set texts. \<not> good_calendar L t) \<longrightarrow>
             (\<exists>msg. msg \<noteq> []
                \<and> verify_fb L response respdata argd = (Inr (False, msg), []))))"
proof (intro conjI impI)
  assume "status response \<noteq> 200"
  then show "fst (verify_fb L response respdata argd)
        = Inr (False, ''        HTTP Status Code Wrong: '' @ str_int (status response))"
    by (rule verify_fb_wrong_status)
next
  assume h: "status response = 200 \<and> parse_xml L respdata = XmlTree texts
        \<and> args_get argd ''attendee'' = [] \<and> events_evaluate L argd"
    and good: "\<forall>t \<in> set texts. good_calendar L t"
  from h verify_fb_no_attendee[of response L respdata texts argd]
  obtain events where v: "verify_fb L response respdata argd
     = (case check_calendars L texts [] (args_get argd ''busy'') (args_get argd ''tentative'')
               (args_get argd ''unavailable'') events of
          (Return msg, users') \<Rightarrow> (Inr (False, msg), users')
        | (_, users') \<Rightarrow>
            if length users' \<noteq> 0
            then (Inr (False,
                    ''           Could not find attendee/calendar data in XML response''
                    @ [CHR 0x0A]), users')
            else (Inr (True, []), users'))"
    by blast
  show "verify_fb L response respdata argd = (Inr (True, []), [])"
    unfolding v check_calendars_all_good[OF good] by simp
next
  assume h: "status response = 200 \<and> parse_xml L respdata = XmlTree texts
        \<and> args_get argd ''attendee'' = [] \<and> events_evaluate L argd"
    and bad: "\<exists>t \<in> set texts. \<not> good_calendar L t"
  from h verify_fb_no_attendee[of response L respdata texts argd]
  obtain events where v: "verify_fb L response respdata argd
     = (case check_calendars L texts [] (args_get argd ''busy'') (args_get argd ''tentative'')
               (args_get argd ''unavailable'') events of
          (Return msg, users') \<Rightarrow> (Inr (False, msg), users')
        | (_, users') \<Rightarrow>
            if length users' \<noteq> 0
            then (Inr (False,
                    ''           Could not find attendee/calendar data in XML response''
                    @ [CHR 0x0A]), users')
            else (Inr (True, []), users'))"
    by blast
  from check_calendars_some_bad[OF bad, of "args_get argd ''busy''"
      "args_get argd ''tentative''" "args_get argd ''unavailable''" events]
  obtain msg where m: "msg \<noteq> []" and c: "check_calendars L texts [] (args_get argd ''busy'')
      (args_get argd ''tentative'') (args_get argd ''unavailable'') events = (Return msg, [])"
    by blast
  have "verify_fb L response respdata argd = (Inr (False, msg), [])"
    unfolding v c by simp
  with m show "\<exists>msg. msg \<noteq> [] \<and> verify_fb L response respdata argd = (Inr (False, msg), [])"
    by blast
qed

lemma fb_texts_differ: "''garbage'' \<noteq> fb_calendar" "fb_body ''garbage'' \<noteq> fb_body fb_calendar"
proof -
  show g: "''garbage'' \<noteq> fb_calendar" by (simp add: fb_calendar_def)
  then show "fb_body ''garbage'' \<noteq> fb_body fb_calendar" by (simp add: fb_body_def)
qed

lemma fb_lib_example_fields:
  "parse_xml fb_lib_example (fb_body fb_calendar) = XmlTree [Some fb_calendar]"
  "parse_xml fb_lib_example (fb_body ''garbage'') = XmlTree [Some ''garbage'']"
  "good_calendar fb_lib_example (Some fb_calendar)"
  "\<not> good_calendar fb_lib_example (Some ''garbage'')"
  by (simp_all add: fb_lib_example_def good_calendar_def fb_texts_differ)

lemma fb_no_attendee_args:
  "args_get [(''attendee'', [])] ''attendee'' = []"
  "events_evaluate fb_lib_example [(''attendee'', [])]"
  "args_get [(''attendee'', []), (''events'', [''1''])] ''attendee'' = []"
  "events_evaluate fb_lib_example [(''attendee'', []), (''events'', [''1''])]"
  by (simp_all add: args_get_def events_evaluate_def fb_lib_example_def)

lemma fb_example_status:
  "status not_found_response = 404" "status ok_response = 200"
  by (simp_all add: not_found_response_def ok_response_def)

theorem verify_fb_status_then_calendars_witness:
  "fst (verify_fb fb_lib_example not_found_response (fb_body fb_calendar) [(''attendee'', [])])
     = Inr (False, ''        HTTP Status Code Wrong: 404'')
   \<and> verify_fb fb_lib_example ok_response (fb_body fb_calendar) [(''attendee'', [])]
       = (Inr (True, []), [])
   \<and> verify_fb fb_lib_example ok_response (fb_body fb_calendar)
         [(''attendee'', []), (''events'', [''1''])]
       = (Inr (True, []), [])
   \<and> (\<exists>msg. msg \<noteq> []
          \<and> verify_fb fb_lib_example ok_response (fb_body ''garbage'') [(''attendee'', [])]
              = (Inr (False, msg), []))"
proof (intro conjI)
  have s: "str_int 404 = ''404''"
    by (simp add: str_int_def dec_nat.simps)
  from verify_fb_status_then_calendars[where response = not_found_response
      and L = fb_lib_example and respdata = "fb_body fb_calendar"
      and argd = "[(''attendee'', [])]", THEN conjunct1]
  show "fst (verify_fb fb_lib_example not_found_response (fb_body fb_calendar)
          [(''attendee'', [])])
     = Inr (False, ''        HTTP Status Code Wrong: 404'')"
    unfolding fb_example_status s by simp
next
  from verify_fb_status_then_calendars[where response = ok_response
      and L = fb_lib_example and respdata = "fb_body fb_calendar"
      and argd = "[(''attendee'', [])]" and texts = "[Some fb_calendar]", THEN conjunct2]
  show "verify_fb fb_lib_example ok_response (fb_body fb_calendar) [(''attendee'', [])]
       = (Inr (True, []), [])"
    by (simp add: fb_lib_example_fields fb_no_attendee_args fb_example_status)
next
  from verify_fb_status_then_calendars[where response = ok_response
      and L = fb_lib_example and respdata = "fb_body fb_calendar"
      and argd = "[(''attendee'', []), (''events'', [''1''])]"
      and texts = "[Some fb_calendar]", THEN conjunct2]
  show "verify_fb fb_lib_example ok_response (fb_body fb_calendar)
         [(''attendee'', []), (''events'', [''1''])]
       = (Inr (True, []), [])"
    by (simp add: fb_lib_example_fields fb_no_attendee_args fb_example_status)
next
  from verify_fb_status_then_calendars[where response = ok_response
      and L = fb_lib_example and respdata = "fb_body ''garbage''"
      and argd = "[(''attendee'', [])]" and texts = "[Some ''garbage'']", THEN conjunct2]
  show "\<exists>msg. msg \<noteq> []
          \<and> verify_fb fb_lib_example ok_response (fb_body ''garbage'') [(''attendee'', [])]
              = (Inr (False, msg), [])"
    by (simp add: fb_lib_example_fields fb_no_attendee_args fb_example_status)
qed

text \<open>
  C10 as the specification words it does not hold, for two reasons. With status 200, a
  well-formed body and an empty list of attendees, the calendar data of the response is
  parsed all the same, and a \<^verbatim>\<open>calendar-data\<close> element that holds no calendar makes the
  verifier return \<^verbatim>\<open>False\<close> with a message, not \<^verbatim>\<open>(True, "")\<close>. And a single \<^verbatim>\<open>events\<close> value is
  evaluated before the body is looked at: with the value \<^verbatim>\<open>None\<close> the verifier raises
  TypeError and returns nothing, though the body holds a proper free-busy calendar.
\<close>

theorem verify_fb_counterexample:
  "status ok_response = 200
   \<and> parse_xml fb_lib_example (fb_body ''garbage'') = XmlTree [Some ''garbage'']
   \<and> args_get [(''attendee'', [])] ''attendee'' = []
   \<and> verify_fb fb_lib_example ok_response (fb_body ''garbage'') [(''attendee'', [])]
       = (Inr (False, ''        HTTP response data is not a calendar''), [])
   \<and> fst (verify_fb fb_lib_example ok_response (fb_body ''garbage'') [(''attendee'', [])])
       \<noteq> Inr (True, [])
   \<and> parse_xml fb_lib_example (fb_body fb_calendar) = XmlTree [Some fb_calendar]
   \<and> args_get [(''attendee'', []), (''events'', [''None''])] ''attendee'' = []
   \<and> verify_fb fb_lib_example ok_response (fb_body fb_calendar)
         [(''attendee'', []), (''events'', [''None''])]
       = (Inl TypeError, [])
   \<and> fst (verify_fb fb_lib_example ok_response (fb_body fb_calendar)
         [(''attendee'', []), (''events'', [''None''])])
       \<noteq> Inr (True, [])"
proof -
  have c: "check_calendar fb_lib_example (Some ''garbage'') [] [] [] [] None
      = (Return ''        HTTP response data is not a calendar'', [])"
    by (simp add: check_calendar_def fb_lib_example_def fb_texts_differ)
  have a: "args_get [(''attendee'', [])] ''events'' = []"
    "args_get [(''attendee'', [])] ''busy'' = []"
    "args_get [(''attendee'', [])] ''tentative'' = []"
    "args_get [(''attendee'', [])] ''unavailable'' = []"
    by (simp_all add: args_get_def)
  have v: "verify_fb fb_lib_example ok_response (fb_body ''garbage'') [(''attendee'', [])]
       = (Inr (False, ''        HTTP response data is not a calendar''), [])"
    unfolding verify_fb_def Let_def a fb_no_attendee_args(1) fb_lib_example_fields(2)
    by (simp add: fb_example_status c)
  have b: "args_get [(''attendee'', []), (''events'', [''None''])] ''attendee'' = []"
    "args_get [(''attendee'', []), (''events'', [''None''])] ''events'' = [''None'']"
    by (simp_all add: args_get_def)
  have ev: "eval_int fb_lib_example ''None'' = Inl TypeError"
    by (simp add: fb_lib_example_def)
  have x: "verify_fb fb_lib_example ok_response (fb_body fb_calendar)
         [(''attendee'', []), (''events'', [''None''])]
       = (Inl TypeError, [])"
    unfolding verify_fb_def Let_def b
    by (simp add: fb_example_status ev)
  show ?thesis
    unfolding v x
    by (simp add: fb_example_status fb_lib_example_fields fb_no_attendee_args b)
qed

end
